(* ===== verification/Vm_Op.thy ===== *)
theory Vm_Op
  imports Prelude
begin

text \<open>
  The opcodes of the Voyager virtual machine (\<open>lib/voyager-vm/src/lib.rs\<close>): the message type
  \<open>Op\<close>, one evaluation step \<open>process\<close>, the normalisation pass \<open>normalize\<close> that runs before
  every insertion into a queue, and the \<open>Visit\<close> traversal. The message family \<open>QueueMessage\<close>
  of the source is the three type parameters \<open>'d\<close> (data), \<open>'c\<close> (call) and \<open>'b\<close> (callback).
\<close>

section \<open>Data\<close>

datatype ('d, 'c, 'b) op =
    Data 'd
  | Call 'c
  | Defer u64
  | DeferRelative u64
  | Seq "('d, 'c, 'b) op list"
  | Conc "('d, 'c, 'b) op list"
  | Promise "('d, 'c, 'b) op list" "'d list" 'b
  | Void "('d, 'c, 'b) op"
  | Noop

datatype 'e queue_error = Fatal 'e | Unprocessable 'e | Retry 'e

text \<open>A handler answers a call or a callback with a new op, or with a queue error.\<close>

record ('d, 'c, 'b, 'e) handler =
  h_call :: "'c \<Rightarrow> 'e queue_error + ('d, 'c, 'b) op"
  h_callback :: "'b \<Rightarrow> 'd list \<Rightarrow> 'e queue_error + ('d, 'c, 'b) op"

section \<open>One evaluation step\<close>

text \<open>
  \<open>process h now op\<close> is one call of \<open>process\<close>; \<open>now\<close> is the timestamp that \<open>now()\<close> reads.
  At most one leaf of \<open>op\<close> is evaluated per call, so the clock is read at most once. The result
  is \<open>None\<close> when the op is finished. \<open>now + secs\<close> wraps, as it does in the release profile.
\<close>

fun process :: "('d, 'c, 'b, 'e) handler \<Rightarrow> u64 \<Rightarrow> ('d, 'c, 'b) op
    \<Rightarrow> 'e queue_error + ('d, 'c, 'b) op option" where
  "process h now (Data d) = Inr None"
| "process h now (Call c) = bindE (h_call h c) (\<lambda>op. Inr (Some op))"
| "process h now (Defer until) =
     (if now < until then Inr (Some (Defer until)) else Inr None)"
| "process h now (DeferRelative secs) = Inr (Some (Defer (now + secs)))"
| "process h now (Seq []) = Inr None"
| "process h now (Seq (op # queue)) =
     bindE (process h now op) (\<lambda>r. case r of
       Some op' \<Rightarrow> Inr (Some (Seq (op' # queue)))
     | None \<Rightarrow> Inr (Some (Seq queue)))"
| "process h now (Conc []) = Inr None"
| "process h now (Conc (op # queue)) =
     bindE (process h now op) (\<lambda>r. case r of
       Some op' \<Rightarrow> Inr (Some (Conc (queue @ [op'])))
     | None \<Rightarrow> Inr (Some (Conc queue)))"
| "process h now (Promise [] data receiver) =
     bindE (h_callback h receiver data) (\<lambda>op. Inr (Some op))"
| "process h now (Promise (op # queue) data receiver) =
     (case op of
       Data d \<Rightarrow> Inr (Some (Promise queue (data @ [d]) receiver))
     | _ \<Rightarrow> bindE (process h now op) (\<lambda>r. case r of
         None \<Rightarrow> Inr (Some (Promise queue data receiver))
       | Some (Data d) \<Rightarrow> Inr (Some (Promise queue (data @ [d]) receiver))
       | Some m \<Rightarrow> Inr (Some (Promise (queue @ [m]) data receiver))))"
| "process h now (Void op) =
     bindE (process h now op) (\<lambda>r. Inr (map_option (\<lambda>op'. case op' of
       Data d \<Rightarrow> Noop
     | m \<Rightarrow> Void m) r))"
| "process h now Noop = Inr None"

section \<open>Normalisation\<close>

fun is_data :: "('d, 'c, 'b) op \<Rightarrow> bool" where
  "is_data (Data d) = True"
| "is_data _ = False"

fun into_data :: "('d, 'c, 'b) op \<Rightarrow> 'd option" where
  "into_data (Data d) = Some d"
| "into_data _ = None"

fun flatten_seq :: "('d, 'c, 'b) op \<Rightarrow> ('d, 'c, 'b) op list" where
  "flatten_seq (Seq ops) = ops"
| "flatten_seq op = [op]"

fun flatten_conc :: "('d, 'c, 'b) op \<Rightarrow> ('d, 'c, 'b) op list" where
  "flatten_conc (Conc ops) = ops"
| "flatten_conc op = [op]"

definition first_non_data_op_idx :: "('d, 'c, 'b) op list \<Rightarrow> nat" where
  "first_non_data_op_idx ops = length (takeWhile is_data ops)"

definition normalize_seq :: "('d, 'c, 'b) op list \<Rightarrow> ('d, 'c, 'b) op list" where
  "normalize_seq ops =
     (case ops of
       [] \<Rightarrow> []
     | [op] \<Rightarrow> [op]
     | _ \<Rightarrow>
       (let non_data_ops = drop (first_non_data_op_idx ops) ops;
            data_ops = take (first_non_data_op_idx ops) ops
        in if non_data_ops = [] then data_ops
           else data_ops @ [Seq (concat (map flatten_seq non_data_ops))]))"

definition normalize_conc :: "('d, 'c, 'b) op list \<Rightarrow> ('d, 'c, 'b) op list" where
  "normalize_conc ops =
     (let flat = concat (map flatten_conc ops);
          datas = filter is_data flat;
          rest = filter (\<lambda>op. \<not> is_data op) flat
      in datas @ (case rest of [] \<Rightarrow> [] | [op] \<Rightarrow> [op] | _ \<Rightarrow> [Conc rest]))"

fun go :: "('d, 'c, 'b) op \<Rightarrow> ('d, 'c, 'b) op list" where
  "go (Data d) = [Data d]"
| "go (Call c) = [Call c]"
| "go (Defer until) = [Defer until]"
| "go (DeferRelative secs) = [DeferRelative secs]"
| "go (Seq seq) = normalize_seq (concat (map go seq))"
| "go (Conc conc) = normalize_conc (concat (map go conc))"
| "go (Promise queue data receiver) = [Promise (concat (map go queue)) data receiver]"
| "go (Void op) = [Void op]"
| "go Noop = []"

definition normalize :: "('d, 'c, 'b) op \<Rightarrow> ('d, 'c, 'b) op list" where
  "normalize op = concat (map flatten_conc (go op))"

section \<open>The Visit traversal\<close>

text \<open>
  The default \<open>visit_op\<close> of the \<open>Visit\<close> trait: a visitor with state \<open>'s\<close> may rewrite every
  datum and every call, in the order in which the fields are stored; receivers are not visited.
\<close>

record ('d, 'c, 's) visitor =
  visit_data :: "'s \<Rightarrow> 'd \<Rightarrow> 's \<times> 'd"
  visit_call :: "'s \<Rightarrow> 'c \<Rightarrow> 's \<times> 'c"

fun visit_datas :: "('d, 'c, 's) visitor \<Rightarrow> 's \<Rightarrow> 'd list \<Rightarrow> 's \<times> 'd list" where
  "visit_datas v s [] = (s, [])"
| "visit_datas v s (d # ds) =
     (let (s1, d') = visit_data v s d; (s2, ds') = visit_datas v s1 ds in (s2, d' # ds'))"

fun visit_op :: "('d, 'c, 's) visitor \<Rightarrow> 's \<Rightarrow> ('d, 'c, 'b) op \<Rightarrow> 's \<times> ('d, 'c, 'b) op"
  and visit_ops :: "('d, 'c, 's) visitor \<Rightarrow> 's \<Rightarrow> ('d, 'c, 'b) op list
    \<Rightarrow> 's \<times> ('d, 'c, 'b) op list" where
  "visit_op v s (Data d) = (let (s', d') = visit_data v s d in (s', Data d'))"
| "visit_op v s (Call c) = (let (s', c') = visit_call v s c in (s', Call c'))"
| "visit_op v s (Defer until) = (s, Defer until)"
| "visit_op v s (DeferRelative secs) = (s, DeferRelative secs)"
| "visit_op v s Noop = (s, Noop)"
| "visit_op v s (Seq seq) = (let (s', seq') = visit_ops v s seq in (s', Seq seq'))"
| "visit_op v s (Conc conc) = (let (s', conc') = visit_ops v s conc in (s', Conc conc'))"
| "visit_op v s (Promise queue data receiver) =
     (let (s1, queue') = visit_ops v s queue; (s2, data') = visit_datas v s1 data
      in (s2, Promise queue' data' receiver))"
| "visit_op v s (Void op) = (let (s', op') = visit_op v s op in (s', Void op'))"
| "visit_ops v s [] = (s, [])"
| "visit_ops v s (op # ops) =
     (let (s1, op') = visit_op v s op; (s2, ops') = visit_ops v s1 ops in (s2, op' # ops'))"

end
