(* ===== verification/Vm_Normalize.thy ===== *)
theory Vm_Normalize
  imports Vm_Op
begin

text \<open>
  Correctness of \<open>normalize\<close>. The meaning of an op is the set of instruction traces it allows:
  a \<open>Seq\<close> concatenates the traces of its members, a \<open>Conc\<close> shuffles them, a \<open>Promise\<close> runs its
  queue concurrently and its callback last. Normalisation keeps that set, keeps the multiset of
  everything an op carries, and produces ops in a normal form in which the virtual machine never
  reaches a datum outside of an aggregation.
\<close>

section \<open>Shuffle products\<close>

definition seq_set :: "'a list set \<Rightarrow> 'a list set \<Rightarrow> 'a list set" where
  "seq_set A B = {a @ b | a b. a \<in> A \<and> b \<in> B}"

definition shuffle_set :: "'a list set \<Rightarrow> 'a list set \<Rightarrow> 'a list set" where
  "shuffle_set A B = {w. \<exists>a\<in>A. \<exists>b\<in>B. w \<in> shuffles a b}"

lemma seq_set_Nil [simp]: "seq_set {[]} A = A" "seq_set A {[]} = A"
  by (auto simp: seq_set_def)

lemma seq_set_assoc: "seq_set (seq_set A B) C = seq_set A (seq_set B C)"
  by (auto simp: seq_set_def) (metis append_assoc)+

lemma shuffle_set_Nil [simp]: "shuffle_set {[]} A = A" "shuffle_set A {[]} = A"
  by (auto simp: shuffle_set_def)

lemma Cons_in_shuffles_cases:
  "(\<exists>zs \<in> shuffles xs ys. zs \<noteq> [] \<and> hd zs = z \<and> P (tl zs)) \<longleftrightarrow>
   (xs \<noteq> [] \<and> hd xs = z \<and> (\<exists>zs \<in> shuffles (tl xs) ys. P zs)) \<or>
   (ys \<noteq> [] \<and> hd ys = z \<and> (\<exists>zs \<in> shuffles xs (tl ys). P zs))"
  (is "?L \<longleftrightarrow> ?R")
proof
  assume ?L
  then obtain zs where "z # zs \<in> shuffles xs ys" "P zs"
    by (metis list.collapse)
  then show ?R by (auto simp: Cons_in_shuffles_iff)
next
  assume ?R
  then obtain zs where "z # zs \<in> shuffles xs ys" "P zs"
    by (auto simp: Cons_in_shuffles_iff)
  then show ?L by force
qed

lemma shuffles_assoc:
  "(\<exists>zs \<in> shuffles xs ys. w \<in> shuffles zs us) \<longleftrightarrow> (\<exists>zs \<in> shuffles ys us. w \<in> shuffles xs zs)"
proof (induction w arbitrary: xs ys us)
  case Nil
  then show ?case by auto
next
  case (Cons z w)
  have "(\<exists>zs \<in> shuffles xs ys. z # w \<in> shuffles zs us) \<longleftrightarrow>
      (\<exists>zs \<in> shuffles xs ys. zs \<noteq> [] \<and> hd zs = z \<and> w \<in> shuffles (tl zs) us) \<or>
      (us \<noteq> [] \<and> hd us = z \<and> (\<exists>zs \<in> shuffles xs ys. w \<in> shuffles zs (tl us)))"
    by (auto simp: Cons_in_shuffles_iff)
  also have "\<dots> \<longleftrightarrow>
      (\<exists>zs \<in> shuffles ys us. zs \<noteq> [] \<and> hd zs = z \<and> w \<in> shuffles xs (tl zs)) \<or>
      (xs \<noteq> [] \<and> hd xs = z \<and> (\<exists>zs \<in> shuffles ys us. w \<in> shuffles (tl xs) zs))"
    unfolding Cons_in_shuffles_cases [of xs ys z "\<lambda>zs. w \<in> shuffles zs us"]
      Cons_in_shuffles_cases [of ys us z "\<lambda>zs. w \<in> shuffles xs zs"] Cons.IH
    by (rule iffI; elim disjE; simp only: simp_thms)
  also have "\<dots> \<longleftrightarrow> (\<exists>zs \<in> shuffles ys us. z # w \<in> shuffles xs zs)"
    by (auto simp: Cons_in_shuffles_iff)
  finally show ?case .
qed

lemma shuffle_set_assoc: "shuffle_set (shuffle_set A B) C = shuffle_set A (shuffle_set B C)"
  unfolding shuffle_set_def by (auto; metis shuffles_assoc)

section \<open>The meaning of an op\<close>

datatype ('c, 'b) instr =
    ICall 'c
  | IDefer u64
  | IDeferRelative u64
  | ICallback 'b
  | IVoid "('c, 'b) instr"

fun traces :: "('d, 'c, 'b) op \<Rightarrow> ('c, 'b) instr list set" where
  "traces (Data d) = {[]}"
| "traces (Call c) = {[ICall c]}"
| "traces (Defer until) = {[IDefer until]}"
| "traces (DeferRelative secs) = {[IDeferRelative secs]}"
| "traces (Seq ops) = foldr seq_set (map traces ops) {[]}"
| "traces (Conc ops) = foldr shuffle_set (map traces ops) {[]}"
| "traces (Promise queue data receiver) =
     seq_set (foldr shuffle_set (map traces queue) {[]}) {[ICallback receiver]}"
| "traces (Void op) = map IVoid ` traces op"
| "traces Noop = {[]}"

definition seq_traces :: "('d, 'c, 'b) op list \<Rightarrow> ('c, 'b) instr list set" where
  "seq_traces ops = foldr seq_set (map traces ops) {[]}"

definition conc_traces :: "('d, 'c, 'b) op list \<Rightarrow> ('c, 'b) instr list set" where
  "conc_traces ops = foldr shuffle_set (map traces ops) {[]}"

lemma seq_traces_simps [simp]:
  "seq_traces [] = {[]}"
  "seq_traces (op # ops) = seq_set (traces op) (seq_traces ops)"
  by (simp_all add: seq_traces_def)

lemma conc_traces_simps [simp]:
  "conc_traces [] = {[]}"
  "conc_traces (op # ops) = shuffle_set (traces op) (conc_traces ops)"
  by (simp_all add: conc_traces_def)

lemma seq_traces_append: "seq_traces (xs @ ys) = seq_set (seq_traces xs) (seq_traces ys)"
  by (induction xs) (simp_all add: seq_set_assoc)

lemma conc_traces_append: "conc_traces (xs @ ys) = shuffle_set (conc_traces xs) (conc_traces ys)"
  by (induction xs) (simp_all add: shuffle_set_assoc)

lemma traces_is_data: "is_data op \<Longrightarrow> traces op = {[]}"
  by (cases op) simp_all

lemma traces_all_data:
  assumes "\<forall>op \<in> set ops. is_data op"
  shows "seq_traces ops = {[]}" "conc_traces ops = {[]}"
  using assms by (induction ops) (simp_all add: traces_is_data)

lemma conc_traces_filter: "conc_traces (filter (\<lambda>op. \<not> is_data op) ops) = conc_traces ops"
  by (induction ops) (simp_all add: traces_is_data)

section \<open>The shape of go: data first, then at most one instruction\<close>

definition lifted :: "('d, 'c, 'b) op list \<Rightarrow> bool" where
  "lifted ops \<longleftrightarrow> length (dropWhile is_data ops) \<le> 1"

lemma lifted_traces: "lifted ops \<Longrightarrow> conc_traces ops = seq_traces ops"
proof -
  assume l: "lifted ops"
  have split: "ops = takeWhile is_data ops @ dropWhile is_data ops" by simp
  have d: "\<forall>op \<in> set (takeWhile is_data ops). is_data op" by (auto dest: set_takeWhileD)
  have "conc_traces (dropWhile is_data ops) = seq_traces (dropWhile is_data ops)"
    using l by (cases "dropWhile is_data ops") (simp_all add: lifted_def del: dropWhile_eq_Nil_conv)
  then show ?thesis
    using traces_all_data [OF d] seq_traces_append conc_traces_append split
    by (metis seq_set_Nil(1) shuffle_set_Nil(1))
qed

lemma normalize_seq_cases:
  "normalize_seq ops =
     (if length ops \<le> 1 then ops
      else if dropWhile is_data ops = [] then takeWhile is_data ops
      else takeWhile is_data ops @ [Seq (concat (map flatten_seq (dropWhile is_data ops)))])"
  unfolding normalize_seq_def first_non_data_op_idx_def Let_def case_list_le1
    drop_length_takeWhile take_length_takeWhile ..

lemma normalize_conc_cases:
  "normalize_conc ops =
     (let flat = concat (map flatten_conc ops);
          rest = filter (\<lambda>op. \<not> is_data op) flat
      in filter is_data flat @ (if length rest \<le> 1 then rest else [Conc rest]))"
  unfolding normalize_conc_def Let_def case_list_le1 ..

lemma dropWhile_data_append:
  "\<forall>op \<in> set ds. is_data op \<Longrightarrow> dropWhile is_data (ds @ ops) = dropWhile is_data ops"
  by (induction ds) auto

lemma lifted_data_append:
  "\<forall>op \<in> set ds. is_data op \<Longrightarrow> length ops \<le> 1 \<Longrightarrow> lifted (ds @ ops)"
  by (simp add: lifted_def dropWhile_data_append le_trans [OF length_dropWhile_le])

lemma lifted_normalize_seq: "lifted (normalize_seq ops)"
proof (cases "length ops \<le> 1")
  case True
  then show ?thesis
    using lifted_data_append [of "[]" ops] by (simp add: normalize_seq_cases)
next
  case False
  have "\<forall>op \<in> set (takeWhile is_data ops). is_data op" by (auto dest: set_takeWhileD)
  then show ?thesis
    using False lifted_data_append [of "takeWhile is_data ops" "[]"]
    by (auto simp: normalize_seq_cases intro!: lifted_data_append)
qed

lemma lifted_normalize_conc: "lifted (normalize_conc ops)"
  by (auto simp: normalize_conc_cases Let_def intro!: lifted_data_append)

lemma lifted_go: "lifted (go op)"
  by (cases op) (simp_all add: lifted_normalize_seq lifted_normalize_conc, simp_all add: lifted_def)

section \<open>Normalisation keeps the traces\<close>

lemma seq_traces_flatten: "seq_traces (concat (map flatten_seq ops)) = seq_traces ops"
proof (induction ops)
  case (Cons op ops)
  then show ?case by (cases op) (simp_all add: seq_traces_append, simp_all add: seq_traces_def)
qed simp

lemma conc_traces_flatten: "conc_traces (concat (map flatten_conc ops)) = conc_traces ops"
proof (induction ops)
  case (Cons op ops)
  then show ?case by (cases op) (simp_all add: conc_traces_append, simp_all add: conc_traces_def)
qed simp

lemma traces_Seq_eq: "traces (Seq ops) = seq_traces ops"
  by (simp add: seq_traces_def)

lemma traces_Conc_eq: "traces (Conc ops) = conc_traces ops"
  by (simp add: conc_traces_def)

lemma seq_traces_normalize_seq: "seq_traces (normalize_seq ops) = seq_traces ops"
proof -
  have d: "\<forall>op \<in> set (takeWhile is_data ops). is_data op" by (auto dest: set_takeWhileD)
  have "seq_traces ops = seq_set (seq_traces (takeWhile is_data ops)) (seq_traces (dropWhile is_data ops))"
    by (simp flip: seq_traces_append)
  then show ?thesis
    using traces_all_data [OF d]
    by (auto simp: normalize_seq_cases seq_traces_append traces_Seq_eq seq_traces_flatten
        simp del: traces.simps dropWhile_eq_Nil_conv)
qed

lemma conc_traces_normalize_conc: "conc_traces (normalize_conc ops) = conc_traces ops"
proof -
  let ?flat = "concat (map flatten_conc ops)"
  let ?rest = "filter (\<lambda>op. \<not> is_data op) ?flat"
  have "conc_traces (filter is_data ?flat) = {[]}"
    by (rule traces_all_data) auto
  moreover have "conc_traces ?rest = conc_traces ops"
    by (simp add: conc_traces_filter conc_traces_flatten)
  moreover have "conc_traces [Conc ?rest] = conc_traces ?rest"
    by (simp add: traces_Conc_eq del: traces.simps)
  ultimately show ?thesis
    by (simp add: normalize_conc_cases Let_def conc_traces_append del: conc_traces_simps)
qed

lemma traces_concat_go:
  assumes "\<And>op. op \<in> set ops \<Longrightarrow> seq_traces (go op) = traces op"
  shows "seq_traces (concat (map go ops)) = seq_traces ops"
    and "conc_traces (concat (map go ops)) = conc_traces ops"
  using assms
  by (induction ops) (simp_all add: seq_traces_append conc_traces_append lifted_traces [OF lifted_go])

lemma seq_traces_go: "seq_traces (go op) = traces op"
proof (induction op)
  case (Seq ops)
  then show ?case
    using traces_concat_go(1) [of ops]
    by (simp add: seq_traces_normalize_seq traces_Seq_eq del: traces.simps)
next
  case (Conc ops)
  have "seq_traces (go (Conc ops)) = conc_traces (go (Conc ops))"
    by (simp only: lifted_traces [OF lifted_go])
  also have "\<dots> = conc_traces ops"
    using traces_concat_go(2) [of ops] Conc by (simp add: conc_traces_normalize_conc)
  finally show ?case by (simp add: traces_Conc_eq del: traces.simps)
next
  case (Promise queue data receiver)
  then show ?case
    using traces_concat_go(2) [of queue] by (simp flip: conc_traces_def)
qed simp_all

lemma conc_traces_normalize: "conc_traces (normalize op) = traces op"
  using lifted_go [of op]
  by (simp add: normalize_def conc_traces_flatten lifted_traces seq_traces_go)

section \<open>Normalisation keeps the contents\<close>

datatype ('d, 'c, 'b) leaf =
    LData 'd
  | LResolved 'd
  | LCall 'c
  | LDefer u64
  | LDeferRelative u64
  | LReceiver 'b
  | LVoid

fun leaves :: "('d, 'c, 'b) op \<Rightarrow> ('d, 'c, 'b) leaf multiset" where
  "leaves (Data d) = {#LData d#}"
| "leaves (Call c) = {#LCall c#}"
| "leaves (Defer until) = {#LDefer until#}"
| "leaves (DeferRelative secs) = {#LDeferRelative secs#}"
| "leaves (Seq ops) = sum_list (map leaves ops)"
| "leaves (Conc ops) = sum_list (map leaves ops)"
| "leaves (Promise queue data receiver) =
     sum_list (map leaves queue) + mset (map LResolved data) + {#LReceiver receiver#}"
| "leaves (Void op) = {#LVoid#} + leaves op"
| "leaves Noop = {#}"

definition leaves_of :: "('d, 'c, 'b) op list \<Rightarrow> ('d, 'c, 'b) leaf multiset" where
  "leaves_of ops = sum_list (map leaves ops)"

lemma leaves_of_simps [simp]:
  "leaves_of [] = {#}"
  "leaves_of (op # ops) = leaves op + leaves_of ops"
  "leaves_of (xs @ ys) = leaves_of xs + leaves_of ys"
  by (simp_all add: leaves_of_def)

lemma leaves_Seq_Conc:
  "leaves (Seq ops) = leaves_of ops"
  "leaves (Conc ops) = leaves_of ops"
  by (simp_all add: leaves_of_def)

lemma leaves_of_flatten1:
  "leaves_of (flatten_seq op) = leaves op"
  "leaves_of (flatten_conc op) = leaves op"
  by (cases op; simp add: leaves_of_def)+

lemma leaves_of_flatten:
  "leaves_of (concat (map flatten_seq ops)) = leaves_of ops"
  "leaves_of (concat (map flatten_conc ops)) = leaves_of ops"
  by (induction ops) (simp_all add: leaves_of_flatten1)

lemma leaves_of_partition:
  "leaves_of (filter P ops) + leaves_of (filter (\<lambda>op. \<not> P op) ops) = leaves_of ops"
  by (induction ops) (auto simp: ac_simps)

lemma leaves_of_normalize_seq: "leaves_of (normalize_seq ops) = leaves_of ops"
proof -
  have "leaves_of (takeWhile is_data ops) + leaves_of (dropWhile is_data ops) = leaves_of ops"
    by (simp flip: leaves_of_simps(3))
  then show ?thesis
    by (auto simp: normalize_seq_cases leaves_Seq_Conc leaves_of_flatten
        simp del: leaves.simps dropWhile_eq_Nil_conv)
qed

lemma leaves_of_normalize_conc: "leaves_of (normalize_conc ops) = leaves_of ops"
  using leaves_of_partition [of is_data "concat (map flatten_conc ops)"]
  by (simp add: normalize_conc_cases Let_def leaves_Seq_Conc leaves_of_flatten del: leaves.simps)

lemma leaves_of_concat_go:
  assumes "\<And>op. op \<in> set ops \<Longrightarrow> leaves_of (go op) = leaves op"
  shows "leaves_of (concat (map go ops)) = leaves_of ops"
  using assms by (induction ops) simp_all

lemma leaves_of_go: "leaves_of (go op) = leaves op"
proof (induction op)
  case (Seq ops)
  then show ?case
    using leaves_of_concat_go [of ops]
    by (simp add: leaves_of_normalize_seq leaves_Seq_Conc del: leaves.simps)
next
  case (Conc ops)
  then show ?case
    using leaves_of_concat_go [of ops]
    by (simp add: leaves_of_normalize_conc leaves_Seq_Conc del: leaves.simps)
next
  case (Promise queue data receiver)
  then show ?case
    using leaves_of_concat_go [of queue] by (simp flip: leaves_of_def)
qed simp_all

lemma leaves_of_normalize: "leaves_of (normalize op) = leaves op"
  by (simp add: normalize_def leaves_of_flatten leaves_of_go)

section \<open>The normal form\<close>

fun is_seq :: "('d, 'c, 'b) op \<Rightarrow> bool" where
  "is_seq (Seq ops) = True"
| "is_seq _ = False"

fun is_conc :: "('d, 'c, 'b) op \<Rightarrow> bool" where
  "is_conc (Conc ops) = True"
| "is_conc _ = False"

text \<open>
  \<open>normal k op\<close>: no \<open>Noop\<close>, a \<open>Seq\<close> starts with an instruction, has at least \<open>k\<close> members and no
  direct \<open>Seq\<close> among them, a \<open>Conc\<close> has at least two members, none of them a datum or a \<open>Conc\<close>.
\<close>

fun normal :: "nat \<Rightarrow> ('d, 'c, 'b) op \<Rightarrow> bool" where
  "normal k (Seq ops) =
     (k \<le> length ops \<and> ops \<noteq> [] \<and> \<not> is_data (hd ops) \<and> (\<forall>op \<in> set ops. normal k op \<and> \<not> is_seq op))"
| "normal k (Conc ops) =
     (2 \<le> length ops \<and> (\<forall>op \<in> set ops. normal k op \<and> \<not> is_data op \<and> \<not> is_conc op))"
| "normal k (Promise queue data receiver) = (\<forall>op \<in> set queue. normal k op)"
| "normal k Noop = False"
| "normal k _ = True"

lemma is_data_normal: "is_data op \<Longrightarrow> normal k op"
  by (cases op) simp_all

lemma flatten_seq_normal:
  "normal k op \<Longrightarrow> \<forall>x \<in> set (flatten_seq op). normal k x \<and> \<not> is_seq x"
  by (cases op) auto

lemma flatten_conc_normal:
  "normal k op \<Longrightarrow> \<forall>x \<in> set (flatten_conc op). normal k x \<and> \<not> is_conc x"
  by (cases op) auto

lemma hd_flatten_seq:
  assumes "ops \<noteq> []" "\<not> is_data (hd ops)" "normal k (hd ops)"
  shows "concat (map flatten_seq ops) \<noteq> [] \<and> \<not> is_data (hd (concat (map flatten_seq ops)))"
  using assms by (cases ops; cases "hd ops") (auto simp: hd_append)

lemma normal_normalize_seq:
  assumes n: "\<forall>op \<in> set ops. normal 1 op"
  shows "\<forall>op \<in> set (normalize_seq ops). normal 1 op"
proof -
  let ?nd = "dropWhile is_data ops"
  have "normal 1 (Seq (concat (map flatten_seq ?nd)))" if "?nd \<noteq> []"
  proof -
    have hd: "\<not> is_data (hd ?nd)" "normal 1 (hd ?nd)"
      using that n hd_dropWhile [of is_data ops] set_dropWhileD [of "hd ?nd" is_data ops] by auto
    have "\<forall>x \<in> set (concat (map flatten_seq ?nd)). normal 1 x \<and> \<not> is_seq x"
      using n flatten_seq_normal by (force dest: set_dropWhileD)
    then show ?thesis
      using hd_flatten_seq [OF that hd] by (simp add: Suc_le_eq)
  qed
  then show ?thesis
    using n by (auto simp: normalize_seq_cases simp del: dropWhile_eq_Nil_conv normal.simps
        dest!: set_takeWhileD split: if_splits)
qed

lemma normal_normalize_conc:
  assumes n: "\<forall>op \<in> set ops. normal k op"
  shows "\<forall>op \<in> set (normalize_conc ops). normal k op"
proof -
  have "\<forall>x \<in> set (concat (map flatten_conc ops)). normal k x \<and> \<not> is_conc x"
    using n flatten_conc_normal by force
  then show ?thesis by (auto simp: normalize_conc_cases Let_def)
qed

lemma normal_go: "x \<in> set (go op) \<Longrightarrow> normal 1 x"
proof (induction op arbitrary: x)
  case (Seq ops)
  then have "\<forall>y \<in> set (concat (map go ops)). normal 1 y" by auto
  from normal_normalize_seq [OF this] show ?case using Seq.prems by simp
next
  case (Conc ops)
  then have "\<forall>y \<in> set (concat (map go ops)). normal 1 y" by auto
  from normal_normalize_conc [OF this] show ?case using Conc.prems by simp
next
  case (Promise queue data receiver)
  then show ?case by auto
qed simp_all

lemma normal_normalize:
  assumes "x \<in> set (normalize op)"
  shows "normal 1 x \<and> \<not> is_conc x"
proof -
  obtain y where "y \<in> set (go op)" "x \<in> set (flatten_conc y)"
    using assms by (auto simp: normalize_def)
  then show ?thesis
    using normal_go [of y op] flatten_conc_normal [of 1 y] by simp
qed

section \<open>Two passes reach a fixed point\<close>

lemma go_strict:
  assumes "normal 2 op"
  shows "go op = [op]"
  using assms
proof (induction op)
  case (Seq ops)
  have "map go ops = map (\<lambda>x. [x]) ops"
    using Seq by simp
  then have c: "concat (map go ops) = ops"
    by (simp only: concat_map_singleton map_ident)
  have "takeWhile is_data ops = []" "dropWhile is_data ops = ops"
    using Seq.prems by (cases ops; simp)+
  moreover have "concat (map flatten_seq ops) = ops"
  proof -
    have "flatten_seq x = [x]" if "x \<in> set ops" for x
      using Seq.prems that by (cases x) auto
    then have "map flatten_seq ops = map (\<lambda>x. [x]) ops" by simp
    then show ?thesis by (simp only: concat_map_singleton map_ident)
  qed
  ultimately show ?case
    using Seq.prems by (auto simp: c normalize_seq_cases)
next
  case (Conc ops)
  have "map go ops = map (\<lambda>x. [x]) ops"
    using Conc by simp
  then have c: "concat (map go ops) = ops"
    by (simp only: concat_map_singleton map_ident)
  have "concat (map flatten_conc ops) = ops"
  proof -
    have "flatten_conc x = [x]" if "x \<in> set ops" for x
      using Conc.prems that by (cases x) auto
    then have "map flatten_conc ops = map (\<lambda>x. [x]) ops" by simp
    then show ?thesis by (simp only: concat_map_singleton map_ident)
  qed
  moreover have "filter is_data ops = []" "filter (\<lambda>x. \<not> is_data x) ops = ops"
    using Conc.prems by (auto simp: filter_empty_conv filter_id_conv)
  ultimately show ?case
    using Conc.prems by (auto simp: c normalize_conc_cases Let_def)
next
  case (Promise queue data receiver)
  have "map go queue = map (\<lambda>x. [x]) queue"
    using Promise by simp
  then show ?case by (simp only: go.simps concat_map_singleton map_ident)
qed simp_all

definition one_step :: "('d, 'c, 'b) op \<Rightarrow> ('d, 'c, 'b) op \<Rightarrow> bool" where
  "one_step op x \<longleftrightarrow> go op = [x] \<and> normal 2 x \<and> (is_data x \<longleftrightarrow> is_data op) \<and> (is_seq x \<longrightarrow> is_seq op)"

lemma one_step_list:
  assumes "\<And>op. op \<in> set ops \<Longrightarrow> one_step op (hd (go op))"
  shows "concat (map go ops) = map (\<lambda>op. hd (go op)) ops"
proof -
  have "map go ops = map (\<lambda>op. [hd (go op)]) ops"
    using assms by (auto simp: one_step_def)
  then show ?thesis by (simp only: concat_map_singleton)
qed

lemma flatten_seq_id: "\<forall>x \<in> set xs. \<not> is_seq x \<Longrightarrow> concat (map flatten_seq xs) = xs"
proof (induction xs)
  case (Cons x xs)
  then show ?case by (cases x) simp_all
qed simp

lemma length_flatten_conc:
  "\<forall>x \<in> set xs. normal k x \<Longrightarrow> length xs \<le> length (concat (map flatten_conc xs))"
proof (induction xs)
  case (Cons x xs)
  then show ?case by (cases x) auto
qed simp

lemma normalize_seq_strict:
  assumes "xs \<noteq> []" "\<not> is_data (hd xs)" "\<forall>x \<in> set xs. normal 2 x \<and> \<not> is_seq x"
  shows "\<exists>x. normalize_seq xs = [x] \<and> normal 2 x \<and> \<not> is_data x \<and> (is_seq x \<longrightarrow> 2 \<le> length xs)"
proof -
  have "dropWhile is_data xs = xs" "takeWhile is_data xs = []"
    using assms(1,2) by (cases xs; simp)+
  then show ?thesis
    using assms flatten_seq_id [of xs]
    by (cases xs; cases "tl xs") (auto simp: normalize_seq_cases)
qed

lemma normalize_conc_strict:
  assumes "2 \<le> length xs" "\<forall>x \<in> set xs. normal 2 x \<and> \<not> is_data x"
  shows "\<exists>x. normalize_conc xs = [x] \<and> normal 2 x \<and> \<not> is_data x \<and> \<not> is_seq x"
proof -
  let ?flat = "concat (map flatten_conc xs)"
  have two: "2 \<le> length ?flat"
    using assms length_flatten_conc [of xs 2] by simp
  have "\<not> is_data y \<and> \<not> is_conc y \<and> normal 2 y" if "y \<in> set ?flat" for y
  proof -
    obtain x where x: "x \<in> set xs" "y \<in> set (flatten_conc x)" using \<open>y \<in> set ?flat\<close> by auto
    have "normal 2 x \<and> \<not> is_data x" using assms(2) x(1) by blast
    then show ?thesis using x(2) by (cases x) auto
  qed
  then have all: "\<forall>y \<in> set ?flat. \<not> is_data y \<and> \<not> is_conc y \<and> normal 2 y" by blast
  then have "filter is_data ?flat = []" "filter (\<lambda>y. \<not> is_data y) ?flat = ?flat"
    by (auto simp only: filter_empty_conv filter_id_conv)
  then have "normalize_conc xs = [Conc ?flat]"
    using two unfolding normalize_conc_cases Let_def by simp
  moreover have "normal 2 (Conc ?flat)"
    using two all by (simp only: normal.simps) blast
  ultimately show ?thesis by simp
qed

lemma one_step_go: "normal 1 op \<Longrightarrow> one_step op (hd (go op))"
proof (induction op)
  case (Seq ops)
  let ?os = "map (\<lambda>op. hd (go op)) ops"
  have IH: "one_step x (hd (go x))" if "x \<in> set ops" for x
    using Seq that by auto
  have "?os \<noteq> []" "\<not> is_data (hd ?os)" "\<forall>x \<in> set ?os. normal 2 x \<and> \<not> is_seq x"
    using Seq.prems IH by (auto simp: one_step_def hd_map)
  from normalize_seq_strict [OF this] one_step_list [OF IH] show ?case
    by (auto simp: one_step_def)
next
  case (Conc ops)
  let ?os = "map (\<lambda>op. hd (go op)) ops"
  have IH: "one_step x (hd (go x))" if "x \<in> set ops" for x
    using Conc that by auto
  have "2 \<le> length ?os" "\<forall>x \<in> set ?os. normal 2 x \<and> \<not> is_data x"
    using Conc.prems IH by (auto simp: one_step_def)
  from normalize_conc_strict [OF this] one_step_list [OF IH] show ?case
    by (auto simp: one_step_def)
next
  case (Promise queue data receiver)
  then have "one_step x (hd (go x))" if "x \<in> set queue" for x
    using that by auto
  from one_step_list [OF this] this show ?case
    by (auto simp: one_step_def)
qed (simp_all add: one_step_def)

lemma flatten_conc_strict: "normal 2 x \<Longrightarrow> \<forall>y \<in> set (flatten_conc x). normal 2 y \<and> \<not> is_conc y"
  by (rule flatten_conc_normal)

lemma normalize_strict: "normal 2 op \<Longrightarrow> \<not> is_conc op \<Longrightarrow> normalize op = [op]"
  by (cases op) (simp_all add: normalize_def go_strict del: go.simps)

lemma normalize_two_passes:
  assumes "x \<in> set (normalize op)" "y \<in> set (normalize x)"
  shows "normalize y = [y]"
proof -
  have "normal 1 x" using normal_normalize [OF assms(1)] by blast
  then have "go x = [hd (go x)]" "normal 2 (hd (go x))"
    using one_step_go unfolding one_step_def by blast+
  then have "y \<in> set (flatten_conc (hd (go x)))"
    using assms(2) unfolding normalize_def by (metis append_Nil2 concat.simps list.map)
  then have "normal 2 y \<and> \<not> is_conc y"
    using flatten_conc_strict \<open>normal 2 (hd (go x))\<close> by blast
  then show ?thesis by (simp add: normalize_strict)
qed

end
