(* ===== verification/Vm_Process.thy ===== *)
theory Vm_Process
  imports Vm_Normalize
begin

text \<open>
  What one evaluation step of the virtual machine does, and what a run of steps does: progress of
  every step that does not leave the machine, the order in which a \<open>Seq\<close> runs its members, the
  fairness of a \<open>Conc\<close>, the data a \<open>Promise\<close> hands to its callback, and that normalised ops never
  lose data.
\<close>

section \<open>Progress\<close>

text \<open>
  \<open>external now op\<close>: the next step calls the handler, or waits for the clock. Every other step is
  internal to the machine, and makes the op lighter.
\<close>

fun external :: "u64 \<Rightarrow> ('d, 'c, 'b) op \<Rightarrow> bool" where
  "external now (Call c) = True"
| "external now (Defer until) = (now < until)"
| "external now (Seq (op # ops)) = external now op"
| "external now (Conc (op # ops)) = external now op"
| "external now (Promise [] data receiver) = True"
| "external now (Promise (op # ops) data receiver) = external now op"
| "external now (Void op) = external now op"
| "external now _ = False"

fun weight :: "('d, 'c, 'b) op \<Rightarrow> nat" where
  "weight (DeferRelative secs) = 2"
| "weight (Seq ops) = 1 + sum_list (map weight ops)"
| "weight (Conc ops) = 1 + sum_list (map weight ops)"
| "weight (Promise queue data receiver) = 1 + sum_list (map weight queue)"
| "weight (Void op) = 1 + weight op"
| "weight _ = 1"

lemma weight_pos [simp]: "0 < weight op"
  by (cases op) simp_all

lemma weight_void: "weight (case op of Data d \<Rightarrow> Noop | m \<Rightarrow> Void m) \<le> Suc (weight op)"
  by (cases op) simp_all

lemma process_internal:
  "\<not> external now op \<Longrightarrow>
     \<exists>r. process h now op = Inr r \<and> (\<forall>op'. r = Some op' \<longrightarrow> weight op' < weight op)"
proof (induction h now op rule: process.induct)
  case (10 h now op queue data receiver)
  show ?case
  proof (cases "is_data op")
    case True
    then show ?thesis by (cases op) simp_all
  next
    case False
    have ex: "\<not> external now op" using 10 by simp
    from False 10(1-8) have "\<exists>r. process h now op = Inr r \<and> (\<forall>op'. r = Some op' \<longrightarrow> weight op' < weight op)"
      using ex by (cases op) simp_all
    then obtain r where r: "process h now op = Inr r" "\<And>op'. r = Some op' \<Longrightarrow> weight op' < weight op"
      by blast
    show ?thesis
    proof (cases r)
      case None
      with r False show ?thesis by (cases op) simp_all
    next
      case (Some op')
      with r False show ?thesis by (cases op; cases op') (force+)
    qed
  qed
next
  case (11 h now op)
  then obtain r where "process h now op = Inr r" "\<And>op'. r = Some op' \<Longrightarrow> weight op' < weight op"
    by auto
  then show ?case
    by (cases r) (auto intro: le_less_trans [OF weight_void])
qed (auto split: option.splits)

section \<open>Runs\<close>

text \<open>\<open>steps h now n op\<close>: \<open>n\<close> evaluation steps at time \<open>now\<close>; \<open>None\<close> once the op is finished.\<close>

fun steps :: "('d, 'c, 'b, 'e) handler \<Rightarrow> u64 \<Rightarrow> nat \<Rightarrow> ('d, 'c, 'b) op
    \<Rightarrow> 'e queue_error + ('d, 'c, 'b) op option" where
  "steps h now 0 op = Inr (Some op)"
| "steps h now (Suc n) op =
     bindE (process h now op) (\<lambda>r. case r of None \<Rightarrow> Inr None | Some op' \<Rightarrow> steps h now n op')"

fun machine_only :: "('d, 'c, 'b) op \<Rightarrow> bool" where
  "machine_only (Call c) = False"
| "machine_only (Defer until) = False"
| "machine_only (DeferRelative secs) = False"
| "machine_only (Seq ops) = (\<forall>op \<in> set ops. machine_only op)"
| "machine_only (Conc ops) = (\<forall>op \<in> set ops. machine_only op)"
| "machine_only (Promise queue data receiver) = False"
| "machine_only (Void op) = machine_only op"
| "machine_only _ = True"

lemma machine_only_internal: "machine_only op \<Longrightarrow> \<not> external now op"
proof (induction op)
  case (Seq ops)
  then show ?case by (cases ops) auto
next
  case (Conc ops)
  then show ?case by (cases ops) auto
qed auto

lemma machine_only_process:
  "machine_only op \<Longrightarrow> process h now op = Inr (Some op') \<Longrightarrow> machine_only op'"
proof (induction h now op arbitrary: op' rule: process.induct)
  case (6 h now op queue)
  obtain r where r: "process h now op = Inr r" using "6.prems"(2) by (auto simp: bindE_eq_Inr)
  with "6.IH" "6.prems" show ?case by (cases r) auto
next
  case (8 h now op queue)
  obtain r where r: "process h now op = Inr r" using "8.prems"(2) by (auto simp: bindE_eq_Inr)
  with "8.IH" "8.prems" show ?case by (cases r) auto
next
  case (10 h now op queue data receiver)
  from "10.prems"(1) show ?case by (simp only: machine_only.simps)
next
  case (11 h now op)
  then obtain r where r: "process h now op = Inr (Some r)" "op' = (case r of Data d \<Rightarrow> Noop | m \<Rightarrow> Void m)"
    by (auto simp: bindE_eq_Inr)
  with 11 have "machine_only r" by simp
  with r(2) show ?case by (cases r) simp_all
qed simp_all

lemma machine_only_steps: "machine_only op \<Longrightarrow> weight op \<le> n \<Longrightarrow> steps h now n op = Inr None"
proof (induction n arbitrary: op)
  case 0
  then show ?case using weight_pos [of op] by simp
next
  case (Suc n)
  obtain r where r: "process h now op = Inr r" "\<And>op'. r = Some op' \<Longrightarrow> weight op' < weight op"
    using process_internal [OF machine_only_internal [OF Suc.prems(1)]] by blast
  show ?case
  proof (cases r)
    case None
    with r show ?thesis by simp
  next
    case (Some op')
    then have "machine_only op'" "weight op' \<le> n"
      using machine_only_process Suc.prems r by fastforce+
    with r Some Suc.IH show ?thesis by simp
  qed
qed

lemma steps_Seq_cong:
  "steps h now n op = Inr (Some op') \<Longrightarrow> steps h now n (Seq (op # ops)) = Inr (Some (Seq (op' # ops)))"
proof (induction n arbitrary: op)
  case (Suc n)
  then show ?case by (cases "process h now op") (auto split: option.splits)
qed simp

lemma steps_Seq_next:
  "steps h now n op = Inr None \<Longrightarrow>
     \<exists>m \<le> n. steps h now m (Seq (op # ops)) = Inr (Some (Seq ops))"
proof (induction n arbitrary: op)
  case 0
  then show ?case by simp
next
  case (Suc n)
  then obtain r where r: "process h now op = Inr r" by (auto simp: result_simps)
  show ?case
  proof (cases r)
    case None
    with r have "steps h now (Suc 0) (Seq (op # ops)) = Inr (Some (Seq ops))" by simp
    then show ?thesis by (intro exI [of _ "Suc 0"]) simp
  next
    case (Some op')
    with r Suc.prems obtain m where "m \<le> n" "steps h now m (Seq (op' # ops)) = Inr (Some (Seq ops))"
      using Suc.IH by auto
    with r Some show ?thesis by (intro exI [of _ "Suc m"]) simp
  qed
qed

lemma steps_Conc_rotate:
  assumes "\<And>op. op \<in> set ops \<Longrightarrow> process h now op = Inr (Some (f op))"
  shows "steps h now (length ops) (Conc (ops @ rest)) = Inr (Some (Conc (rest @ map f ops)))"
  using assms by (induction ops arbitrary: rest) simp_all

definition resolves :: "('d, 'c, 'b, 'e) handler \<Rightarrow> u64 \<Rightarrow> ('d, 'c, 'b) op \<Rightarrow> 'd \<Rightarrow> bool" where
  "resolves h now op d \<longleftrightarrow> op = Data d \<or> \<not> is_data op \<and> process h now op = Inr (Some (Data d))"

lemma process_Promise_resolves:
  "resolves h now op d \<Longrightarrow>
     process h now (Promise (op # queue) data receiver) = Inr (Some (Promise queue (data @ [d]) receiver))"
  by (cases op) (auto simp: resolves_def)

lemma steps_Promise_resolves:
  "list_all2 (resolves h now) queue ds \<Longrightarrow>
     steps h now (length queue) (Promise queue data receiver) = Inr (Some (Promise [] (data @ ds) receiver))"
  by (induction queue ds arbitrary: data rule: list_all2_induct)
    (simp_all add: process_Promise_resolves del: process.simps(10))

lemma steps_Suc_last:
  "steps h now n op = Inr (Some op') \<Longrightarrow> steps h now (Suc n) op = process h now op'"
proof (induction n arbitrary: op)
  case 0
  then show ?case by (cases "process h now op") (auto split: option.splits)
next
  case (Suc n)
  then obtain r where "process h now op = Inr (Some r)" "steps h now n r = Inr (Some op')"
    by (auto simp: bindE_eq_Inr split: option.splits)
  with Suc.IH show ?case by (simp only: steps.simps(2) [of _ _ "Suc n"]) simp
qed

section \<open>Normalised ops do not lose data\<close>

fun data_in :: "('d, 'c, 'b) op \<Rightarrow> 'd multiset" where
  "data_in (Data d) = {#d#}"
| "data_in (Seq ops) = sum_list (map data_in ops)"
| "data_in (Conc ops) = sum_list (map data_in ops)"
| "data_in (Promise queue data receiver) = sum_list (map data_in queue) + mset data"
| "data_in (Void op) = data_in op"
| "data_in _ = {#}"

definition data_left :: "('d, 'c, 'b) op option \<Rightarrow> 'd multiset" where
  "data_left r = (case r of None \<Rightarrow> {#} | Some op \<Rightarrow> data_in op)"

lemma data_left_simps [simp]:
  "data_left None = {#}"
  "data_left (Some op) = data_in op"
  by (simp_all add: data_left_def)

fun void_free :: "('d, 'c, 'b) op \<Rightarrow> bool" where
  "void_free (Seq ops) = (\<forall>op \<in> set ops. void_free op)"
| "void_free (Conc ops) = (\<forall>op \<in> set ops. void_free op)"
| "void_free (Promise queue data receiver) = (\<forall>op \<in> set queue. void_free op)"
| "void_free (Void op) = False"
| "void_free _ = True"

text \<open>The next step runs a callback, which consumes the data its promise has gathered.\<close>

fun fires :: "('d, 'c, 'b) op \<Rightarrow> bool" where
  "fires (Seq (op # ops)) = fires op"
| "fires (Conc (op # ops)) = fires op"
| "fires (Promise [] data receiver) = True"
| "fires (Promise (op # ops) data receiver) = fires op"
| "fires _ = False"

text \<open>Where a promise puts the result of the op it has just processed.\<close>

fun promise_next :: "('d, 'c, 'b) op list \<Rightarrow> 'd list \<Rightarrow> 'b \<Rightarrow> ('d, 'c, 'b) op option \<Rightarrow> ('d, 'c, 'b) op" where
  "promise_next queue data receiver None = Promise queue data receiver"
| "promise_next queue data receiver (Some (Data d)) = Promise queue (data @ [d]) receiver"
| "promise_next queue data receiver (Some m) = Promise (queue @ [m]) data receiver"

lemma promise_next_eq:
  "(case r of None \<Rightarrow> Inr (Some (Promise queue data receiver))
     | Some (Data d) \<Rightarrow> Inr (Some (Promise queue (data @ [d]) receiver))
     | Some m \<Rightarrow> Inr (Some (Promise (queue @ [m]) data receiver))) =
   Inr (Some (promise_next queue data receiver r))"
  by (cases "(queue, data, receiver, r)" rule: promise_next.cases) simp_all

lemma process_Promise_step:
  assumes "\<not> is_data op"
  shows "process h now (Promise (op # queue) data receiver) =
    bindE (process h now op) (\<lambda>r. Inr (Some (promise_next queue data receiver r)))"
  using assms unfolding process.simps(10) promise_next_eq by (cases op) simp_all

lemma data_in_promise_next:
  "data_in (promise_next queue data receiver r) =
     sum_list (map data_in queue) + mset data + data_left r"
  by (cases "(queue, data, receiver, r)" rule: promise_next.cases) (simp_all add: ac_simps)

lemma process_keeps_data:
  assumes "process h now op = Inr r" "normal k op" "\<not> is_data op" "void_free op" "\<not> fires op"
  shows "data_in op \<subseteq># data_left r"
  using assms
proof (induction h now op arbitrary: r rule: process.induct)
  case (6 h now op queue)
  obtain q where q: "process h now op = Inr q" using "6.prems"(1) by (auto simp: bindE_eq_Inr)
  then have "data_in op \<subseteq># data_left q" using "6.IH" "6.prems" by simp
  with q "6.prems"(1) show ?case by (cases q) auto
next
  case (8 h now op queue)
  obtain q where q: "process h now op = Inr q" using "8.prems"(1) by (auto simp: bindE_eq_Inr)
  then have "data_in op \<subseteq># data_left q" using "8.IH" "8.prems" by simp
  with q "8.prems"(1) show ?case by (cases q) (auto simp: ac_simps)
next
  case (10 h now op queue data receiver)
  show ?case
  proof (cases "is_data op")
    case True
    with "10.prems"(1) show ?thesis by (cases op) auto
  next
    case False
    obtain q where q: "process h now op = Inr q" and r: "r = Some (promise_next queue data receiver q)"
      using "10.prems"(1) unfolding process_Promise_step [OF False] bindE_eq_Inr by blast
    have n: "normal k op" "void_free op" "\<not> fires op" using "10.prems"(2-) by simp_all
    note ih = "10.IH" [OF _ q n(1) False n(2,3)]
    from False have "data_in op \<subseteq># data_left q"
      by (cases op) (erule ih | simp)+
    then show ?thesis
      by (simp add: r data_in_promise_next ac_simps)
  qed
qed (simp_all split: if_splits)

section \<open>Properties\<close>

text \<open>C15: \<open>normalize\<close> preserves the ordering constraints of a message: running the ops it
  returns concurrently (which is what the queue does with them) admits exactly the instruction
  traces of the op it was given, where \<open>Seq\<close> concatenates, \<open>Conc\<close> interleaves and a \<open>Promise\<close>
  calls its receiver after everything in its queue.\<close>

theorem normalize_preserves_traces: "conc_traces (normalize op) = traces op"
  by (rule conc_traces_normalize)

text \<open>\<open>normalize\<close> neither drops nor duplicates anything a message carries: the multiset of
  data, calls, defers, promise receivers, resolved promise data and voids is the same before and
  after.\<close>

theorem normalize_preserves_leaves: "leaves_of (normalize op) = leaves op"
  by (rule leaves_of_normalize)

text \<open>C36: what \<open>normalize\<close> returns is in normal form: no \<open>Noop\<close> at any level outside of a
  \<open>Void\<close>, no top-level \<open>Conc\<close>, every \<open>Seq\<close> starts with an op that is not \<open>Data\<close> and contains no
  \<open>Seq\<close>, and every \<open>Conc\<close> has at least two members, none of them \<open>Data\<close> or \<open>Conc\<close>.\<close>

theorem normalize_normal_form:
  "list_all (\<lambda>x. normal 1 x \<and> \<not> is_conc x) (normalize op)"
  using normal_normalize by (auto simp: list_all_iff)

text \<open>Normalising the result of \<open>normalize\<close> once more reaches a fixed point: a third pass
  changes nothing.\<close>

theorem normalize_fixed_point:
  assumes "x \<in> set (normalize op)" "y \<in> set (normalize x)"
  shows "normalize y = [y]"
  using assms by (rule normalize_two_passes)

theorem normalize_fixed_point_witness:
  "Seq [Call (2::nat)] \<in> set (normalize (Seq [Data (1::nat), Call 2] :: (nat, nat, nat) op)) \<and>
   Call (2::nat) \<in> set (normalize (Seq [Call 2] :: (nat, nat, nat) op)) \<and>
   normalize (Call (2::nat) :: (nat, nat, nat) op) = [Call 2]"
proof -
  have a: "Seq [Call (2::nat)] \<in> set (normalize (Seq [Data (1::nat), Call 2] :: (nat, nat, nat) op))"
    by code_simp
  have b: "Call (2::nat) \<in> set (normalize (Seq [Call 2] :: (nat, nat, nat) op))"
    by code_simp
  from a b normalize_fixed_point [OF a b] show ?thesis by simp
qed

text \<open>One pass of \<open>normalize\<close> is not enough to reach the fixed point: a \<open>Seq\<close> of a datum
  and a call is split into the datum and a \<open>Seq\<close> with the call alone, which a second pass unwraps.\<close>

theorem normalize_needs_second_pass:
  "normalize (Seq [Data d, Call c]) = [Data d, Seq [Call c]] \<and> normalize (Seq [Call c]) = [Call c]"
  by (simp add: normalize_def normalize_seq_def first_non_data_op_idx_def)

text \<open>A step on a normalised op loses no data: unless the op is itself a datum, contains a
  \<open>Void\<close>, or the step runs a callback, every datum in the op is still there after the step, either
  in an op that is still to be processed or in the data gathered by a promise.\<close>

theorem normalized_process_keeps_data:
  assumes "op \<in> set (normalize m)" "\<not> is_data op" "void_free op" "\<not> fires op"
    and "process h now op = Inr r"
  shows "data_in op \<subseteq># data_left r"
  using assms normal_normalize [OF assms(1)] process_keeps_data by blast

theorem normalized_process_keeps_data_witness:
  "data_in (Promise [Seq [Call 1, Data 2]] [3] 0 :: (nat, nat, nat) op) \<subseteq>#
   data_left (Some (Promise [Seq [Data 1, Data 2]] [3] 0 :: (nat, nat, nat) op))"
proof (rule normalized_process_keeps_data)
  show "Promise [Seq [Call 1, Data 2]] [3] 0 \<in>
    set (normalize (Promise [Seq [Call 1, Data 2]] [3] 0 :: (nat, nat, nat) op))"
    by code_simp
  show "process \<lparr>h_call = (\<lambda>c. Inr (Data c)), h_callback = (\<lambda>b ds. Inr Noop)\<rparr> 0
      (Promise [Seq [Call 1, Data 2]] [3] 0 :: (nat, nat, nat) op) =
    (Inr (Some (Promise [Seq [Data 1, Data 2]] [3] 0)) :: nat queue_error + (nat, nat, nat) op option)"
    by simp
qed simp_all

text \<open>Every step that neither calls the handler nor waits for the clock succeeds, and
  makes the op strictly lighter: the machine cannot spin on its own bookkeeping.\<close>

theorem process_progress:
  assumes "\<not> external now op"
  shows "\<exists>r. process h now op = Inr r \<and> (\<forall>op'. r = Some op' \<longrightarrow> weight op' < weight op)"
  using assms by (rule process_internal)

theorem process_progress_witness:
  "\<exists>r. process \<lparr>h_call = (\<lambda>c::nat. Inl (Fatal (0::nat))), h_callback = (\<lambda>(b::nat) (ds::nat list). Inr Noop)\<rparr>
      7 (Conc [Noop, Call 1]) = Inr r \<and>
    (\<forall>op'. r = Some op' \<longrightarrow> weight op' < weight (Conc [Noop, Call 1] :: (nat, nat, nat) op))"
  by (rule process_progress) simp

text \<open>An op built from data, sequencing, concurrency, voiding and no-ops alone is finished
  after at most as many steps as its weight, whatever the handler and the clock.\<close>

theorem machine_only_terminates:
  assumes "machine_only op" "weight op \<le> n"
  shows "steps h now n op = Inr None"
  using assms by (rule machine_only_steps)

theorem machine_only_terminates_witness:
  "steps \<lparr>h_call = (\<lambda>c::nat. Inl (Fatal (0::nat))), h_callback = (\<lambda>(b::nat) (ds::nat list). Inr Noop)\<rparr>
     7 6 (Seq [Void (Data 1), Conc [Noop]] :: (nat, nat, nat) op) = Inr None"
  by (rule machine_only_terminates) simp_all

text \<open>A \<open>Seq\<close> runs its members in order: while the first member runs, the others are
  untouched, and once it is finished the \<open>Seq\<close> consists of exactly the others.\<close>

theorem seq_in_order:
  assumes "steps h now n op = Inr None"
  shows "(\<exists>m \<le> n. steps h now m (Seq (op # ops)) = Inr (Some (Seq ops))) \<and>
    (\<forall>j op'. steps h now j op = Inr (Some op') \<longrightarrow>
       steps h now j (Seq (op # ops)) = Inr (Some (Seq (op' # ops))))"
  using steps_Seq_next [OF assms] steps_Seq_cong by blast

theorem seq_in_order_witness:
  "(\<exists>m \<le> 2. steps \<lparr>h_call = (\<lambda>c::nat. Inr (Data c)), h_callback = (\<lambda>(b::nat) (ds::nat list). Inl (Fatal (0::nat)))\<rparr>
      7 m (Seq [Call 1, Call 2] :: (nat, nat, nat) op) = Inr (Some (Seq [Call 2]))) \<and>
   steps \<lparr>h_call = (\<lambda>c::nat. Inr (Data c)), h_callback = (\<lambda>(b::nat) (ds::nat list). Inl (Fatal (0::nat)))\<rparr>
      7 1 (Seq [Call 1, Call 2] :: (nat, nat, nat) op) = Inr (Some (Seq [Data 1, Call 2]))"
proof -
  let ?h = "\<lparr>h_call = (\<lambda>c::nat. Inr (Data c)), h_callback = (\<lambda>(b::nat) (ds::nat list). Inl (Fatal (0::nat)))\<rparr>"
  have "steps ?h 7 2 (Call 1 :: (nat, nat, nat) op) = Inr None" by (simp add: numeral_2_eq_2)
  note * = seq_in_order [OF this, of "[Call 2]"]
  have "steps ?h 7 1 (Call 1 :: (nat, nat, nat) op) = Inr (Some (Data 1))" by simp
  with * show ?thesis by blast
qed

text \<open>A \<open>Conc\<close> makes uniform progress: when no member finishes, as many steps as there are
  members process every member exactly once and leave them in their original order.\<close>

theorem conc_round_robin:
  assumes "\<And>op. op \<in> set ops \<Longrightarrow> process h now op = Inr (Some (f op))"
  shows "steps h now (length ops) (Conc ops) = Inr (Some (Conc (map f ops)))"
  using steps_Conc_rotate [of ops h now f "[]"] assms by simp

theorem conc_round_robin_witness:
  "steps \<lparr>h_call = (\<lambda>c::nat. Inr (Data c)), h_callback = (\<lambda>(b::nat) (ds::nat list). Inl (Fatal (0::nat)))\<rparr>
     7 (length ([Call 1, Defer 9] :: (nat, nat, nat) op list)) (Conc ([Call 1, Defer 9] :: (nat, nat, nat) op list)) =
   Inr (Some (Conc (map (\<lambda>op. case op of Call c \<Rightarrow> Data c | _ \<Rightarrow> op) ([Call 1, Defer 9] :: (nat, nat, nat) op list))))"
  by (rule conc_round_robin) auto

text \<open>A promise whose queued ops each resolve to a datum calls its receiver exactly once,
  after all of them, with the data it already held followed by the new data in queue order.\<close>

theorem promise_collects_data:
  assumes "list_all2 (resolves h now) queue ds"
  shows "steps h now (Suc (length queue)) (Promise queue data receiver) =
    bindE (h_callback h receiver (data @ ds)) (\<lambda>op. Inr (Some op))"
  using steps_Suc_last [OF steps_Promise_resolves [OF assms]] by simp

theorem promise_collects_data_witness:
  "steps \<lparr>h_call = (\<lambda>c::nat. Inr (Data (c + 1))), h_callback = (\<lambda>(b::nat) (ds::nat list). Inr (Call (sum_list ds)))\<rparr>
     7 (Suc (length ([Call 1, Data 5] :: (nat, nat, nat) op list))) (Promise [Call 1, Data 5] [3] 0 :: (nat, nat, nat) op) =
   bindE (h_callback \<lparr>h_call = (\<lambda>c::nat. Inr (Data (c + 1))),
       h_callback = (\<lambda>(b::nat) (ds::nat list). Inr (Call (sum_list ds)) :: nat queue_error + (nat, nat, nat) op)\<rparr>
     0 ([3] @ [2, 5])) (\<lambda>op. Inr (Some op))"
  by (rule promise_collects_data) (simp add: resolves_def)

end
