(* ===== verification/Btree.thy ===== *)
theory Btree
  imports Prelude
begin

text \<open>
  The part of Rust's \<open>BTreeMap\<close> that the sources use, as an association list with strictly
  ascending keys, and the contract its clients rely on as the locale \<open>ordered_map\<close>: lookups after
  insertions, and that \<open>pop_first\<close> returns the entry with the least key. The in-memory queue of
  the virtual machine is built on it.
\<close>

type_synonym ('k, 'v) btree = "('k \<times> 'v) list"

definition bt_inv :: "('k :: linorder, 'v) btree \<Rightarrow> bool" where
  "bt_inv t \<longleftrightarrow> sorted_wrt (<) (map fst t)"

definition bt_get :: "('k :: linorder, 'v) btree \<Rightarrow> 'k \<Rightarrow> 'v option" where
  "bt_get t = map_of t"

fun bt_insert :: "'k :: linorder \<Rightarrow> 'v \<Rightarrow> ('k, 'v) btree \<Rightarrow> ('k, 'v) btree" where
  "bt_insert k v [] = [(k, v)]"
| "bt_insert k v ((k', v') # t) =
     (if k < k' then (k, v) # (k', v') # t
      else if k = k' then (k, v) # t
      else (k', v') # bt_insert k v t)"

fun bt_pop_first :: "('k :: linorder, 'v) btree \<Rightarrow> (('k \<times> 'v) \<times> ('k, 'v) btree) option" where
  "bt_pop_first [] = None"
| "bt_pop_first (kv # t) = Some (kv, t)"

text \<open>\<open>bt_append t u\<close> moves all entries of \<open>u\<close> into \<open>t\<close>, overwriting equal keys.\<close>

definition bt_append :: "('k :: linorder, 'v) btree \<Rightarrow> ('k, 'v) btree \<Rightarrow> ('k, 'v) btree" where
  "bt_append t u = fold (\<lambda>(k, v). bt_insert k v) u t"

section \<open>The contract\<close>

locale ordered_map =
  fixes inv :: "'t \<Rightarrow> bool"
    and get :: "'t \<Rightarrow> 'k :: linorder \<Rightarrow> 'v option"
    and empty :: "'t"
    and ins :: "'k \<Rightarrow> 'v \<Rightarrow> 't \<Rightarrow> 't"
    and pop_first :: "'t \<Rightarrow> (('k \<times> 'v) \<times> 't) option"
  assumes inv_empty: "inv empty"
    and inv_ins: "inv t \<Longrightarrow> inv (ins k v t)"
    and inv_pop: "inv t \<Longrightarrow> pop_first t = Some (kv, t') \<Longrightarrow> inv t'"
    and get_empty: "get empty k = None"
    and get_ins: "inv t \<Longrightarrow> get (ins k v t) k' = (if k' = k then Some v else get t k')"
    and pop_None: "inv t \<Longrightarrow> pop_first t = None \<longleftrightarrow> dom (get t) = {}"
    and pop_Some: "inv t \<Longrightarrow> pop_first t = Some ((k, v), t') \<Longrightarrow>
          get t k = Some v \<and> (\<forall>k' \<in> dom (get t). k \<le> k') \<and> get t' = (get t)(k := None)"
begin

lemma get_fold_ins:
  "inv t \<Longrightarrow> inv (fold (\<lambda>(k, v). ins k v) kvs t) \<and>
     get (fold (\<lambda>(k, v). ins k v) kvs t) = get t ++ map_of (rev kvs)"
proof (induction kvs arbitrary: t)
  case Nil
  then show ?case by simp
next
  case (Cons kv kvs)
  obtain k v where kv: "kv = (k, v)" by fastforce
  have "get (ins k v t) = (get t)(k \<mapsto> v)"
    using get_ins [OF Cons.prems] by auto
  with kv Cons.IH [OF inv_ins [OF Cons.prems, of k v]] show ?case
    by (auto simp: map_add_def fun_eq_iff split: option.splits)
qed

lemma pop_dom:
  assumes "inv t" "pop_first t = Some ((k, v), t')"
  shows "dom (get t') = dom (get t) - {k}" "k \<in> dom (get t)"
  using pop_Some [OF assms] by auto

text \<open>Putting a popped entry back restores the map.\<close>

lemma ins_pop:
  assumes "inv t" "pop_first t = Some ((k, v), t')"
  shows "get (ins k v t') = get t"
  using pop_Some [OF assms] get_ins [OF inv_pop [OF assms]] by auto

text \<open>An entry put back is the next one out, if the entries added meanwhile have larger keys.\<close>

lemma pop_least:
  assumes "inv t" "get t k = Some v" "\<And>k'. k' \<in> dom (get t) \<Longrightarrow> k \<le> k'"
  shows "\<exists>t'. pop_first t = Some ((k, v), t')"
proof (cases "pop_first t")
  case None
  with pop_None [OF assms(1)] assms(2) show ?thesis by auto
next
  case (Some p)
  obtain k' v' t' where p: "p = ((k', v'), t')" by (metis surj_pair)
  with Some pop_Some [OF assms(1)] have *: "get t k' = Some v'" "k' \<le> k"
    using assms(2) by blast+
  then have "k' = k" using assms(3) [of k'] by auto
  with * assms(2) p Some show ?thesis by simp
qed

end

lemma bt_inv_simps [simp]:
  "bt_inv []"
  "bt_inv (kv # t) \<longleftrightarrow> (\<forall>kv' \<in> set t. fst kv < fst kv') \<and> bt_inv t"
  by (simp_all add: bt_inv_def)

lemma set_bt_insert:
  "bt_inv t \<Longrightarrow> set (bt_insert k v t) = insert (k, v) {kv \<in> set t. fst kv \<noteq> k}"
  by (induction k v t rule: bt_insert.induct) auto

lemma bt_inv_insert: "bt_inv t \<Longrightarrow> bt_inv (bt_insert k v t)"
  by (induction k v t rule: bt_insert.induct) (auto simp: set_bt_insert)

lemma bt_get_insert:
  "bt_inv t \<Longrightarrow> bt_get (bt_insert k v t) k' = (if k' = k then Some v else bt_get t k')"
  by (induction k v t rule: bt_insert.induct) (auto simp: bt_get_def)

lemma bt_get_None: "\<forall>kv \<in> set t. k < fst kv \<Longrightarrow> bt_get t k = None"
  by (auto simp: bt_get_def map_of_eq_None_iff)

lemma bt_pop_Some:
  assumes "bt_inv t" "bt_pop_first t = Some ((k, v), t')"
  shows "bt_get t k = Some v \<and> (\<forall>k' \<in> dom (bt_get t). k \<le> k') \<and> bt_get t' = (bt_get t)(k := None)"
proof -
  have t: "t = (k, v) # t'" using assms(2) by (cases t) auto
  with assms(1) have "bt_get t' k = None" using bt_get_None [of t' k] by simp
  moreover have "\<forall>k' \<in> dom (bt_get t'). k < k'"
    using t assms(1) by (auto simp: bt_get_def dom_map_of_conv_image_fst)
  ultimately show ?thesis using t by (auto simp: bt_get_def less_imp_le)
qed

interpretation bt: ordered_map bt_inv bt_get "[]" bt_insert bt_pop_first
proof unfold_locales
  show "bt_pop_first t = None \<longleftrightarrow> dom (bt_get t) = {}" for t :: "('a, 'b) btree"
    by (cases t) (auto simp: bt_get_def)
  show "bt_inv t \<Longrightarrow> bt_pop_first t = Some (kv, t') \<Longrightarrow> bt_inv t'" for t t' :: "('a, 'b) btree" and kv
    by (cases t) auto
qed (simp_all add: bt_inv_insert bt_get_insert bt_pop_Some, simp add: bt_get_def)

lemma bt_append_get:
  "bt_inv t \<Longrightarrow> bt_inv (bt_append t u) \<and> bt_get (bt_append t u) = bt_get t ++ map_of (rev u)"
  unfolding bt_append_def by (rule bt.get_fold_ins)

lemma map_of_rev_bt_inv: "bt_inv u \<Longrightarrow> map_of (rev u) = map_of u"
  by (subst map_of_inject_set) (simp_all add: bt_inv_def strict_sorted_iff rev_map [symmetric])

text \<open>Keys larger than every key present go to the end.\<close>

lemma bt_insert_last: "\<forall>kv \<in> set t. fst kv < k \<Longrightarrow> bt_insert k v t = t @ [(k, v)]"
  by (induction k v t rule: bt_insert.induct) auto

lemma bt_insert_first: "\<forall>kv \<in> set t. k < fst kv \<Longrightarrow> bt_insert k v t = (k, v) # t"
  by (cases t) auto

lemma set_dom_bt_get: "dom (bt_get t) = fst ` set t"
  by (simp add: bt_get_def dom_map_of_conv_image_fst)

end
