(* ===== verification/Vm_Queue.thy ===== *)
theory Vm_Queue
  imports Vm_Process Btree
begin

text \<open>
  The in-memory queue of the virtual machine (\<open>lib/voyager-vm/src/in_memory.rs\<close>), the interest
  filter and the optimisation pass it calls (\<open>filter.rs\<close>, \<open>pass.rs\<close>) and the engine that drives
  it (\<open>engine.rs\<close>). Critical sections are separate definitions (\<open>queue_take\<close>, \<open>queue_finish\<close>,
  \<open>optimize_take\<close>, \<open>optimize_finish\<close>), so that the interleavings of several workers are runs of
  a step relation. The locale \<open>task_queue\<close> is what the engine relies on.
\<close>

section \<open>Data\<close>

datatype filter_result = Interest "string list" bool | NoInterest

type_synonym ('d, 'c, 'b) interest_filter = "('d, 'c, 'b) op \<Rightarrow> filter_result"

definition unit_filter :: "('d, 'c, 'b) interest_filter" where
  "unit_filter op = NoInterest"

record ('d, 'c, 'b) pass_result =
  optimize_further :: "(nat list \<times> ('d, 'c, 'b) op \<times> string) list"
  pass_ready :: "(nat list \<times> ('d, 'c, 'b) op) list"

record ('d, 'c, 'b) item =
  parents :: "u32 list"
  item_op :: "('d, 'c, 'b) op"

record ('d, 'c, 'b) in_memory_queue =
  idx :: u32
  ready :: "(u32, ('d, 'c, 'b) item) btree"
  done_items :: "(u32, ('d, 'c, 'b) item) btree"
  optimizer_queue :: "string \<Rightarrow> (u32, ('d, 'c, 'b) item) btree option"

datatype panic = IndexOutOfBounds

datatype 'e optimize_error = PassError 'e | Panicked panic

definition queue_new :: "('d, 'c, 'b) in_memory_queue" where
  "queue_new = \<lparr>idx = 0, ready = [], done_items = [], optimizer_queue = (\<lambda>_. None)\<rparr>"

section \<open>Insertion\<close>

text \<open>Each insertion takes its key from \<open>idx.fetch_add(1)\<close>, which wraps.\<close>

definition insert_ready :: "u32 list \<Rightarrow> ('d, 'c, 'b) op \<Rightarrow> ('d, 'c, 'b) in_memory_queue
    \<Rightarrow> ('d, 'c, 'b) in_memory_queue" where
  "insert_ready ps op q =
     q\<lparr>idx := idx q + 1, ready := bt_insert (idx q) \<lparr>parents = ps, item_op = op\<rparr> (ready q)\<rparr>"

definition insert_tagged :: "u32 list \<Rightarrow> ('d, 'c, 'b) op \<Rightarrow> string \<Rightarrow> ('d, 'c, 'b) in_memory_queue
    \<Rightarrow> ('d, 'c, 'b) in_memory_queue" where
  "insert_tagged ps op tag q =
     (let t = (case optimizer_queue q tag of None \<Rightarrow> [] | Some t \<Rightarrow> t)
      in q\<lparr>idx := idx q + 1,
           optimizer_queue := (optimizer_queue q)(tag \<mapsto> bt_insert (idx q) \<lparr>parents = ps, item_op = op\<rparr> t)\<rparr>)"

definition insert_op :: "('d, 'c, 'b) interest_filter \<Rightarrow> ('d, 'c, 'b) op
    \<Rightarrow> ('d, 'c, 'b) in_memory_queue \<Rightarrow> ('d, 'c, 'b) in_memory_queue" where
  "insert_op filt op q =
     (case filt op of
       Interest tags remove \<Rightarrow>
         (let q1 = fold (insert_tagged [] op) tags q
          in if \<not> remove then insert_ready [] op q1 else q1)
     | NoInterest \<Rightarrow> insert_ready [] op q)"

definition enqueue :: "('d, 'c, 'b) interest_filter \<Rightarrow> ('d, 'c, 'b) op
    \<Rightarrow> ('d, 'c, 'b) in_memory_queue \<Rightarrow> ('d, 'c, 'b) in_memory_queue" where
  "enqueue filt op q = fold (insert_op filt) (normalize op) q"

section \<open>Processing\<close>

definition queue_take :: "('d, 'c, 'b) in_memory_queue
    \<Rightarrow> ((u32 \<times> ('d, 'c, 'b) item) \<times> ('d, 'c, 'b) in_memory_queue) option" where
  "queue_take q =
     (case bt_pop_first (ready q) of
       None \<Rightarrow> None
     | Some ((item_id, it), ready') \<Rightarrow>
         Some ((item_id, it), q\<lparr>ready := ready', done_items := bt_insert item_id it (done_items q)\<rparr>))"

fun queue_finish :: "('d, 'c, 'b) interest_filter \<Rightarrow> u32 \<Rightarrow> ('d, 'c, 'b) item
    \<Rightarrow> 'e queue_error + ('d, 'c, 'b) op list
    \<Rightarrow> ('d, 'c, 'b) in_memory_queue \<Rightarrow> ('d, 'c, 'b) in_memory_queue" where
  "queue_finish filt item_id it (Inr ops) q = fold (insert_op filt) (concat (map normalize ops)) q"
| "queue_finish filt item_id it (Inl (Fatal e)) q = q"
| "queue_finish filt item_id it (Inl (Unprocessable e)) q = q"
| "queue_finish filt item_id it (Inl (Retry e)) q = q\<lparr>ready := bt_insert item_id it (ready q)\<rparr>"

definition queue_process :: "('d, 'c, 'b) interest_filter
    \<Rightarrow> (('d, 'c, 'b) op \<Rightarrow> u32 \<Rightarrow> 'r \<times> ('e queue_error + ('d, 'c, 'b) op list))
    \<Rightarrow> ('d, 'c, 'b) in_memory_queue \<Rightarrow> 'r option \<times> ('d, 'c, 'b) in_memory_queue" where
  "queue_process filt f q =
     (case queue_take q of
       None \<Rightarrow> (None, q)
     | Some ((item_id, it), q1) \<Rightarrow>
         (let (r, res) = f (item_op it) item_id
          in (case res of Inr _ \<Rightarrow> Some r | Inl _ \<Rightarrow> None, queue_finish filt item_id it res q1)))"

section \<open>Optimisation\<close>

definition optimize_take :: "string \<Rightarrow> ('d, 'c, 'b) in_memory_queue
    \<Rightarrow> ((u32, ('d, 'c, 'b) item) btree \<times> ('d, 'c, 'b) in_memory_queue) option" where
  "optimize_take tag q =
     (case optimizer_queue q tag of
       None \<Rightarrow> None
     | Some t \<Rightarrow> Some (t, q\<lparr>optimizer_queue := (optimizer_queue q)(tag := None)\<rparr>))"

text \<open>\<open>ids[i]\<close> panics when a pass names a parent that it was not given.\<close>

definition parent_ids :: "u32 list \<Rightarrow> nat list \<Rightarrow> panic + u32 list" where
  "parent_ids ids idxs =
     (if \<forall>i \<in> set idxs. i < length ids then Inr (map (\<lambda>i. ids ! i) idxs) else Inl IndexOutOfBounds)"

text \<open>The loop \<open>'block: for op in normalized_ops\<close>, whose \<open>break 'block\<close> leaves the whole loop.\<close>

fun optimize_block :: "('d, 'c, 'b) interest_filter \<Rightarrow> u32 list \<Rightarrow> nat list \<Rightarrow> ('d, 'c, 'b) op list
    \<Rightarrow> ('d, 'c, 'b) in_memory_queue \<Rightarrow> panic + ('d, 'c, 'b) in_memory_queue" where
  "optimize_block filt ids idxs [] q = Inr q"
| "optimize_block filt ids idxs (op # ops) q =
     (case filt op of
       Interest tags remove \<Rightarrow>
         bindE (if tags = [] then Inr [] else parent_ids ids idxs) (\<lambda>ps.
         (let q1 = fold (insert_tagged ps op) tags q
          in if remove then Inr q1
             else bindE (parent_ids ids idxs) (\<lambda>ps.
               optimize_block filt ids idxs ops (insert_ready ps op q1))))
     | NoInterest \<Rightarrow>
         bindE (parent_ids ids idxs) (\<lambda>ps. optimize_block filt ids idxs ops (insert_ready ps op q)))"

fun optimize_ready :: "('d, 'c, 'b) interest_filter \<Rightarrow> u32 list \<Rightarrow> (nat list \<times> ('d, 'c, 'b) op) list
    \<Rightarrow> ('d, 'c, 'b) in_memory_queue \<Rightarrow> panic + ('d, 'c, 'b) in_memory_queue" where
  "optimize_ready filt ids [] q = Inr q"
| "optimize_ready filt ids ((idxs, op) # res) q =
     bindE (optimize_block filt ids idxs (normalize op) q) (optimize_ready filt ids res)"

fun optimize_rest :: "u32 list \<Rightarrow> (nat list \<times> ('d, 'c, 'b) op \<times> string) list
    \<Rightarrow> ('d, 'c, 'b) in_memory_queue \<Rightarrow> panic + ('d, 'c, 'b) in_memory_queue" where
  "optimize_rest ids [] q = Inr q"
| "optimize_rest ids ((idxs, op, tag) # res) q =
     bindE (parent_ids ids idxs) (\<lambda>ps. optimize_rest ids res (insert_tagged ps op tag q))"

definition optimize_finish :: "('d, 'c, 'b) interest_filter \<Rightarrow> (u32, ('d, 'c, 'b) item) btree
    \<Rightarrow> ('d, 'c, 'b) pass_result
    \<Rightarrow> ('d, 'c, 'b) in_memory_queue \<Rightarrow> panic + ('d, 'c, 'b) in_memory_queue" where
  "optimize_finish filt tagged res q =
     (let ids = map fst tagged; q1 = q\<lparr>done_items := bt_append (done_items q) tagged\<rparr>
      in bindE (optimize_ready filt ids (pass_ready res) q1) (optimize_rest ids (optimize_further res)))"

text \<open>A panic poisons the mutexes, so the state it leaves is not observable.\<close>

definition optimize :: "string \<Rightarrow> ('d, 'c, 'b) interest_filter
    \<Rightarrow> (('d, 'c, 'b) op list \<Rightarrow> 'e + ('d, 'c, 'b) pass_result)
    \<Rightarrow> ('d, 'c, 'b) in_memory_queue \<Rightarrow> ('e optimize_error + unit) \<times> ('d, 'c, 'b) in_memory_queue" where
  "optimize tag filt run_pass q =
     (case optimize_take tag q of
       None \<Rightarrow> (Inr (), q)
     | Some (tagged, q1) \<Rightarrow>
         (case run_pass (map (item_op \<circ> snd) tagged) of
           Inl e \<Rightarrow> (Inl (PassError e), q1)
         | Inr res \<Rightarrow>
             (case optimize_finish filt tagged res q1 of
               Inl p \<Rightarrow> (Inl (Panicked p), q1)
             | Inr q2 \<Rightarrow> (Inr (), q2))))"

section \<open>The engine\<close>

text \<open>
  \<open>Engine::step\<close>: process the first ready item with the virtual machine. \<open>hf\<close> is the handler
  factory, \<open>now\<close> the clock during this step.
\<close>

definition vm_callback :: "(u32 \<Rightarrow> ('d, 'c, 'b, 'e) handler) \<Rightarrow> u64 \<Rightarrow> ('d, 'c, 'b) op \<Rightarrow> u32
    \<Rightarrow> 'd option \<times> ('e queue_error + ('d, 'c, 'b) op list)" where
  "vm_callback hf now op item_id =
     (case process (hf item_id) now op of
       Inr r \<Rightarrow> (None, Inr (case r of None \<Rightarrow> [] | Some op' \<Rightarrow> [op']))
     | Inl err \<Rightarrow> (None, Inl err))"

definition engine_step :: "(u32 \<Rightarrow> ('d, 'c, 'b, 'e) handler) \<Rightarrow> ('d, 'c, 'b) interest_filter \<Rightarrow> u64
    \<Rightarrow> ('d, 'c, 'b) in_memory_queue \<Rightarrow> 'd option \<times> ('d, 'c, 'b) in_memory_queue" where
  "engine_step hf filt now q =
     (let (data, q') = queue_process filt (vm_callback hf now) q
      in (case data of None \<Rightarrow> None | Some d \<Rightarrow> d, q'))"

fun engine_run :: "(u32 \<Rightarrow> ('d, 'c, 'b, 'e) handler) \<Rightarrow> ('d, 'c, 'b) interest_filter \<Rightarrow> u64 list
    \<Rightarrow> ('d, 'c, 'b) in_memory_queue \<Rightarrow> 'd option list \<times> ('d, 'c, 'b) in_memory_queue" where
  "engine_run hf filt [] q = ([], q)"
| "engine_run hf filt (now # nows) q =
     (let (d, q1) = engine_step hf filt now q; (ds, q2) = engine_run hf filt nows q1
      in (d # ds, q2))"

end
