(* ===== verification/Vm_Engine.thy ===== *)
theory Vm_Engine
  imports Vm_Queue
begin

text \<open>
  Correctness of the queue and of the engine: the queue is first-in first-out, a retried item
  keeps its place, no item is ever handed to two workers at once whatever the interleaving, and the
  engine drains a queue of machine-only messages. The last section shows the two ways in which
  \<open>optimize\<close> loses messages.
\<close>

section \<open>Normalisation does not make a message heavier\<close>

abbreviation weights :: "('d, 'c, 'b) op list \<Rightarrow> nat" where
  "weights ops \<equiv> sum_list (map weight ops)"

lemma weights_flatten:
  "weights (flatten_seq op) \<le> weight op" "weights (flatten_conc op) \<le> weight op"
  by (cases op; simp)+

lemma weights_concat: "(\<And>x. x \<in> set xs \<Longrightarrow> weights (f x) \<le> weight x) \<Longrightarrow>
    weights (concat (map f xs)) \<le> weights xs"
  by (induction xs) (auto intro: add_mono)

lemma weights_normalize_seq: "weights (normalize_seq ops) \<le> Suc (weights ops)"
proof -
  let ?d = "take (first_non_data_op_idx ops) ops" and ?n = "drop (first_non_data_op_idx ops) ops"
  have s: "weights ?d + weights ?n = weights ops"
    by (metis append_take_drop_id map_append sum_list_append)
  have "weights (concat (map flatten_seq ?n)) \<le> weights ?n"
    by (rule weights_concat) (rule weights_flatten)
  with s show ?thesis
    unfolding normalize_seq_def case_list_le1 Let_def by simp
qed

lemma weights_filter: "weights (filter P xs) + weights (filter (\<lambda>x. \<not> P x) xs) = weights xs"
  by (induction xs) simp_all

lemma weights_normalize_conc: "weights (normalize_conc ops) \<le> Suc (weights ops)"
proof -
  let ?f = "concat (map flatten_conc ops)"
  have "weights ?f \<le> weights ops"
    by (rule weights_concat) (rule weights_flatten)
  then have "weights (filter is_data ?f) + weights (filter (\<lambda>op. \<not> is_data op) ?f) \<le> weights ops"
    by (simp only: weights_filter)
  then show ?thesis
    unfolding normalize_conc_def case_list_le1 Let_def by simp
qed

lemma weights_go: "weights (go op) \<le> weight op"
proof (induction op)
  case (Seq ops)
  then have "weights (concat (map go ops)) \<le> weights ops" by (rule weights_concat)
  then show ?case using weights_normalize_seq [of "concat (map go ops)"] by simp
next
  case (Conc ops)
  then have "weights (concat (map go ops)) \<le> weights ops" by (rule weights_concat)
  then show ?case using weights_normalize_conc [of "concat (map go ops)"] by simp
next
  case (Promise queue data receiver)
  then have "weights (concat (map go queue)) \<le> weights queue" by (intro weights_concat) simp
  then show ?case by simp
qed simp_all

lemma weights_normalize: "weights (normalize op) \<le> weight op"
  unfolding normalize_def
  by (rule order_trans [OF weights_concat weights_go]) (rule weights_flatten)

abbreviation machine_onlys :: "('d, 'c, 'b) op list \<Rightarrow> bool" where
  "machine_onlys ops \<equiv> list_all machine_only ops"

lemma machine_only_flatten:
  "machine_only op \<Longrightarrow> machine_onlys (flatten_seq op)" "machine_only op \<Longrightarrow> machine_onlys (flatten_conc op)"
  by (cases op; simp add: list_all_iff)+

lemma machine_only_concat:
  "(\<And>x. x \<in> set xs \<Longrightarrow> machine_onlys (f x)) \<Longrightarrow> machine_onlys (concat (map f xs))"
  by (induction xs) simp_all

lemma list_all_take_drop: "list_all P xs \<Longrightarrow> list_all P (take n xs) \<and> list_all P (drop n xs)"
  by (auto simp: list_all_iff dest: in_set_takeD in_set_dropD)

lemma list_all_filterI: "list_all P xs \<Longrightarrow> list_all P (filter Q xs)"
  by (simp add: list_all_iff)

lemma machine_only_normalize_seq:
  assumes "machine_onlys ops"
  shows "machine_onlys (normalize_seq ops)"
proof -
  let ?n = "drop (first_non_data_op_idx ops) ops"
  note td = list_all_take_drop [OF assms, of "first_non_data_op_idx ops"]
  have "machine_onlys (concat (map flatten_seq ?n))"
    using td by (intro machine_only_concat machine_only_flatten(1)) (simp add: list_all_iff)
  then have "machine_only (Seq (concat (map flatten_seq ?n)))"
    by (simp only: machine_only.simps list_all_iff)
  with td assms show ?thesis
    unfolding normalize_seq_def case_list_le1 Let_def by (simp only: list_all_append list.pred_inject if_split) simp
qed

lemma machine_only_normalize_conc:
  assumes "machine_onlys ops"
  shows "machine_onlys (normalize_conc ops)"
proof -
  let ?f = "concat (map flatten_conc ops)"
  have f: "machine_onlys ?f"
    using assms by (intro machine_only_concat machine_only_flatten(2)) (simp add: list_all_iff)
  then have "machine_only (Conc (filter (\<lambda>op. \<not> is_data op) ?f))"
    by (simp only: machine_only.simps list_all_iff [symmetric] list_all_filterI)
  with f show ?thesis unfolding normalize_conc_def case_list_le1 Let_def
    by (simp only: list_all_append list.pred_inject if_split list_all_filterI) simp
qed

lemma machine_only_go: "machine_only op \<Longrightarrow> machine_onlys (go op)"
proof (induction op)
  case (Seq ops)
  then show ?case by (simp only: go.simps machine_only.simps machine_only_normalize_seq machine_only_concat)
next
  case (Conc ops)
  then show ?case by (simp only: go.simps machine_only.simps machine_only_normalize_conc machine_only_concat)
qed simp_all

lemma machine_only_normalize: "machine_only op \<Longrightarrow> machine_onlys (normalize op)"
  using machine_only_go [of op] unfolding normalize_def
  by (intro machine_only_concat machine_only_flatten(2)) (simp add: list_all_iff)

section \<open>What the engine relies on\<close>

text \<open>
  \<open>pending q\<close> are the ops waiting in the queue. Processing takes one of them out and puts back
  at most what the callback returns, normalised.
\<close>

locale task_queue =
  fixes ok :: "'q \<Rightarrow> bool"
    and pending :: "'q \<Rightarrow> ('d, 'c, 'b) op multiset"
    and proc :: "(('d, 'c, 'b) op \<Rightarrow> u32 \<Rightarrow> 'r \<times> ('e queue_error + ('d, 'c, 'b) op list)) \<Rightarrow> 'q \<Rightarrow> 'r option \<times> 'q"
  assumes ok_proc: "ok q \<Longrightarrow> ok (snd (proc f q))"
    and proc_empty: "ok q \<Longrightarrow> pending q = {#} \<Longrightarrow> proc f q = (None, q)"
    and proc_step: "ok q \<Longrightarrow> pending q \<noteq> {#} \<Longrightarrow>
      \<exists>op id. op \<in># pending q \<and> (\<forall>ops. snd (f op id) = Inr ops \<longrightarrow>
        pending (snd (proc f q)) \<subseteq># pending q - {#op#} + mset (concat (map normalize ops)))"
begin

definition load :: "'q \<Rightarrow> nat" where
  "load q = sum_mset (image_mset weight (pending q))"

lemma load_0: "load q = 0 \<longleftrightarrow> pending q = {#}"
  by (auto simp: load_def) (metis gr_implies_not0 multiset_nonemptyE weight_pos)

definition internal_only :: "'q \<Rightarrow> bool" where
  "internal_only q \<longleftrightarrow> (\<forall>op \<in># pending q. machine_only op)"

text \<open>A callback that runs the virtual machine on the op.\<close>

definition runs_vm :: "u64 \<Rightarrow> (('d, 'c, 'b) op \<Rightarrow> u32 \<Rightarrow> 'r \<times> ('e queue_error + ('d, 'c, 'b) op list)) \<Rightarrow> bool" where
  "runs_vm now f \<longleftrightarrow> (\<exists>hf :: u32 \<Rightarrow> ('d, 'c, 'b, 'e) handler. \<forall>op id r. process (hf id) now op = Inr r \<longrightarrow>
     snd (f op id) = Inr (case r of None \<Rightarrow> [] | Some op' \<Rightarrow> [op']))"

lemma proc_lighter:
  assumes "ok q" "internal_only q" "pending q \<noteq> {#}" "runs_vm now f"
  shows "internal_only (snd (proc f q)) \<and> load (snd (proc f q)) < load q"
proof -
  let ?q = "snd (proc f q)"
  obtain op id where op: "op \<in># pending q" and
    sub: "\<And>ops. snd (f op id) = Inr ops \<Longrightarrow> pending ?q \<subseteq># pending q - {#op#} + mset (concat (map normalize ops))"
    using proc_step [OF assms(1,3), of f] by blast
  have mo: "machine_only op" using assms(2) op by (simp add: internal_only_def)
  obtain hf :: "u32 \<Rightarrow> ('d, 'c, 'b, 'e) handler" where hf: "\<And>op id r. process (hf id) now op = Inr r \<Longrightarrow>
     snd (f op id) = Inr (case r of None \<Rightarrow> [] | Some op' \<Rightarrow> [op'])"
    using assms(4) unfolding runs_vm_def by blast
  obtain r where r: "process (hf id) now op = Inr r" "\<And>op'. r = Some op' \<Longrightarrow> weight op' < weight op"
    using process_internal [OF machine_only_internal [OF mo], of "hf id" now] by blast
  define new where "new = (case r of None \<Rightarrow> [] | Some op' \<Rightarrow> normalize op')"
  have new: "machine_onlys new" "weights new < weight op"
    using machine_only_normalize machine_only_process [OF mo] r le_less_trans [OF weights_normalize]
    by (auto simp: new_def split: option.split)
  have sub': "pending ?q \<subseteq># pending q - {#op#} + mset new"
    using sub [OF hf [OF r(1)]] by (cases r) (simp_all add: new_def)
  have "internal_only ?q"
    using mset_subset_eqD [OF sub'] assms(2) new(1) in_diffD [of _ "pending q"]
    unfolding internal_only_def list_all_iff by (metis set_mset_mset union_iff)
  moreover have "load ?q \<le> sum_mset (image_mset weight (pending q - {#op#} + mset new))"
    using sub' by (auto simp: load_def mset_subset_eq_exists_conv simp del: image_mset_union)
      (simp only: image_mset_union sum_mset.union le_add1)
  moreover have "\<dots> + weight op = load q + weights new"
    using multi_member_split [OF op] by (auto simp: load_def simp flip: sum_mset_sum_list)
  ultimately show ?thesis using new(2) by linarith
qed

end

section \<open>The in-memory queue provides it\<close>

definition queue_pending :: "('d, 'c, 'b) in_memory_queue \<Rightarrow> ('d, 'c, 'b) op multiset" where
  "queue_pending q = mset (map (item_op \<circ> snd) (ready q))"

definition queue_ok :: "('d, 'c, 'b) in_memory_queue \<Rightarrow> bool" where
  "queue_ok q \<longleftrightarrow> bt_inv (ready q)"

lemma ready_insert_tagged [simp]: "ready (insert_tagged ps op tag q) = ready q"
  by (simp add: insert_tagged_def Let_def)

lemma ready_fold_tagged [simp]: "ready (fold (insert_tagged ps op) tags q) = ready q"
  by (induction tags arbitrary: q) simp_all

lemma mset_bt_insert:
  "mset (map (g \<circ> snd) (bt_insert k v t)) \<subseteq># add_mset (g v) (mset (map (g \<circ> snd) t))"
  by (induction k v t rule: bt_insert.induct) (auto simp: add_mset_commute)

lemma insert_ready_pending:
  "queue_pending (insert_ready ps op q) \<subseteq># add_mset op (queue_pending q)"
  using mset_bt_insert [of item_op "idx q" "\<lparr>parents = ps, item_op = op\<rparr>" "ready q"]
  by (simp add: queue_pending_def insert_ready_def)

lemma insert_ready_ok: "queue_ok q \<Longrightarrow> queue_ok (insert_ready ps op q)"
  by (simp add: queue_ok_def insert_ready_def bt_inv_insert)

lemma pending_cong: "ready q = ready q' \<Longrightarrow> queue_pending q = queue_pending q'"
  by (simp add: queue_pending_def)

lemma insert_op_pending: "queue_pending (insert_op filt op q) \<subseteq># add_mset op (queue_pending q)"
proof (cases "filt op")
  case (Interest tags remove)
  have "queue_pending (fold (insert_tagged [] op) tags q) = queue_pending q"
    by (rule pending_cong) simp
  with Interest insert_ready_pending [of "[]" op "fold (insert_tagged [] op) tags q"] show ?thesis
    by (simp add: insert_op_def Let_def subset_mset.le_add_same_cancel2 mset_subset_eq_add_right
        flip: add_mset_add_single)
next
  case NoInterest
  then show ?thesis by (simp add: insert_op_def insert_ready_pending)
qed

lemma insert_op_ok: "queue_ok q \<Longrightarrow> queue_ok (insert_op filt op q)"
  by (auto simp: insert_op_def Let_def insert_ready_ok split: filter_result.split)
    (auto simp: queue_ok_def insert_ready_def bt_inv_insert)

lemma fold_insert_op:
  "queue_pending (fold (insert_op filt) ops q) \<subseteq># queue_pending q + mset ops"
  "queue_ok q \<Longrightarrow> queue_ok (fold (insert_op filt) ops q)"
proof (induction ops arbitrary: q)
  case (Cons op ops)
  {
    case 1
    have "queue_pending (fold (insert_op filt) ops (insert_op filt op q)) \<subseteq>#
      queue_pending (insert_op filt op q) + mset ops"
      by (rule Cons.IH)
    also have "\<dots> \<subseteq># add_mset op (queue_pending q) + mset ops"
      by (rule subset_mset.add_right_mono) (rule insert_op_pending)
    finally show ?case by simp
  next
    case 2
    then show ?case by (simp add: Cons.IH insert_op_ok)
  }
qed simp_all

lemma queue_take_Some:
  assumes "queue_take q = Some ((item_id, it), q')"
  shows "ready q = (item_id, it) # ready q'" "idx q' = idx q" "optimizer_queue q' = optimizer_queue q"
    "done_items q' = bt_insert item_id it (done_items q)"
  using assms by (cases "ready q"; auto simp: queue_take_def)+

lemma queue_take_None: "queue_take q = None \<longleftrightarrow> ready q = []"
  by (cases "ready q") (auto simp: queue_take_def)

lemma queue_finish_ok: "queue_ok q \<Longrightarrow> queue_ok (queue_finish filt item_id it res q)"
  by (cases "(filt, item_id, it, res, q)" rule: queue_finish.cases)
    (simp_all add: fold_insert_op(2), simp add: queue_ok_def bt_inv_insert)

lemma queue_take_ok: "queue_ok q \<Longrightarrow> queue_take q = Some (x, q') \<Longrightarrow> queue_ok q'"
  using queue_take_Some(1) [of q "fst x" "snd x" q'] by (simp add: queue_ok_def)

lemma queue_process_Some:
  assumes "queue_take q = Some ((item_id, it), q1)"
  shows "queue_process filt f q =
    (case snd (f (item_op it) item_id) of Inr _ \<Rightarrow> Some (fst (f (item_op it) item_id)) | Inl _ \<Rightarrow> None,
     queue_finish filt item_id it (snd (f (item_op it) item_id)) q1)"
  using assms by (cases "f (item_op it) item_id") (simp add: queue_process_def split: sum.split)

lemma queue_process_None: "queue_take q = None \<Longrightarrow> queue_process filt f q = (None, q)"
  by (simp add: queue_process_def)

lemma queue_process_ok: "queue_ok q \<Longrightarrow> queue_ok (snd (queue_process filt f q))"
  using queue_take_ok [of q]
  by (cases "queue_take q") (auto simp: queue_process_Some queue_process_None intro!: queue_finish_ok)

lemma queue_process_pending:
  assumes "queue_pending q \<noteq> {#}"
  shows "\<exists>op id. op \<in># queue_pending q \<and> (\<forall>ops. snd (f op id) = Inr ops \<longrightarrow>
    queue_pending (snd (queue_process filt f q)) \<subseteq># queue_pending q - {#op#} + mset (concat (map normalize ops)))"
proof -
  obtain item_id it q1 where t: "queue_take q = Some ((item_id, it), q1)"
    using assms queue_take_None [of q] by (cases "queue_take q") (auto simp: queue_pending_def)
  then have p: "queue_pending q = add_mset (item_op it) (queue_pending q1)"
    by (simp add: queue_pending_def queue_take_Some(1))
  moreover have "queue_pending (snd (queue_process filt f q)) \<subseteq># queue_pending q1 + mset (concat (map normalize ops))"
    if "snd (f (item_op it) item_id) = Inr ops" for ops
    using that fold_insert_op(1) by (simp add: queue_process_Some [OF t])
  ultimately show ?thesis
    by (intro exI [of _ "item_op it"] exI [of _ item_id]) simp
qed

lemma queue_process_empty: "queue_pending q = {#} \<Longrightarrow> queue_process filt f q = (None, q)"
  by (simp add: queue_pending_def queue_process_None queue_take_None)

interpretation tq: task_queue queue_ok queue_pending "queue_process filt" for filt
  by unfold_locales (erule queue_process_ok queue_process_empty queue_process_pending)+

section \<open>Draining the queue\<close>

lemma snd_engine_step: "snd (engine_step hf filt now q) = snd (queue_process filt (vm_callback hf now) q)"
  by (simp add: engine_step_def case_prod_unfold Let_def)

lemma runs_vm_callback: "tq.runs_vm now (vm_callback hf now)"
  unfolding tq.runs_vm_def by (intro exI [of _ hf]) (simp add: vm_callback_def)

lemma fst_engine_step: "fst (engine_step hf filt now q) = None"
proof (cases "queue_take q")
  case None
  then show ?thesis by (simp add: engine_step_def queue_process_None)
next
  case (Some a)
  then obtain item_id it q1 where "queue_take q = Some ((item_id, it), q1)" by (metis surj_pair)
  then show ?thesis
    by (simp add: engine_step_def queue_process_Some vm_callback_def split: sum.split)
qed

lemma snd_engine_run_Cons:
  "snd (engine_run hf filt (now # nows) q) = snd (engine_run hf filt nows (snd (engine_step hf filt now q)))"
  by (simp add: case_prod_unfold Let_def)

definition queue_load :: "('d, 'c, 'b) in_memory_queue \<Rightarrow> nat" where
  "queue_load q = sum_list (map (weight \<circ> item_op \<circ> snd) (ready q))"

lemma queue_load: "queue_load q = tq.load q"
  unfolding queue_load_def tq.load_def queue_pending_def
  by (simp flip: sum_mset_sum_list add: image_mset.compositionality comp_assoc)

lemma engine_step_lighter:
  assumes "queue_ok q" "tq.internal_only q" "ready q \<noteq> []"
  shows "tq.internal_only (snd (engine_step hf filt now q)) \<and>
    queue_load (snd (engine_step hf filt now q)) < queue_load q"
  unfolding snd_engine_step queue_load
  by (rule tq.proc_lighter [OF assms(1,2) _ runs_vm_callback]) (simp add: queue_pending_def assms(3))

lemma engine_run_empty: "ready q = [] \<Longrightarrow> snd (engine_run hf filt nows q) = q"
proof (induction nows)
  case (Cons now nows)
  then have "snd (engine_step hf filt now q) = q"
    by (simp add: snd_engine_step queue_process_None queue_take_None)
  with Cons show ?case by (simp only: snd_engine_run_Cons)
qed simp

lemma engine_run_drains:
  assumes "queue_ok q" "tq.internal_only q" "queue_load q \<le> length nows"
  shows "ready (snd (engine_run hf filt nows q)) = []"
  using assms
proof (induction nows arbitrary: q)
  case Nil
  then show ?case
    using weight_pos [of "item_op (snd (hd (ready q)))"] by (cases "ready q") (auto simp: queue_load_def)
next
  case (Cons now nows)
  show ?case
  proof (cases "ready q = []")
    case True
    then show ?thesis by (simp only: engine_run_empty)
  next
    case False
    have "queue_ok (snd (engine_step hf filt now q))"
      unfolding snd_engine_step by (rule queue_process_ok) (rule Cons.prems(1))
    with engine_step_lighter [OF Cons.prems(1,2) False, of hf filt now] Cons.IH Cons.prems(3)
    show ?thesis by (simp only: snd_engine_run_Cons) simp
  qed
qed

section \<open>Several workers\<close>

text \<open>
  \<open>tickets\<close> counts how many identifiers an operation draws from \<open>idx\<close>. The step relation
  interleaves any number of workers: between taking an item and finishing it, other workers may
  enqueue, take, finish and optimise. \<open>issued\<close> is the number of identifiers drawn so far.
\<close>

definition tickets_op :: "('d, 'c, 'b) interest_filter \<Rightarrow> ('d, 'c, 'b) op \<Rightarrow> nat" where
  "tickets_op filt op = (case filt op of
     Interest tags remove \<Rightarrow> length tags + (if remove then 0 else 1) | NoInterest \<Rightarrow> 1)"

abbreviation tickets :: "('d, 'c, 'b) interest_filter \<Rightarrow> ('d, 'c, 'b) op list \<Rightarrow> nat" where
  "tickets filt ops \<equiv> sum_list (map (tickets_op filt) ops)"

fun tickets_finish :: "('d, 'c, 'b) interest_filter \<Rightarrow> 'e queue_error + ('d, 'c, 'b) op list \<Rightarrow> nat" where
  "tickets_finish filt (Inr ops) = tickets filt (concat (map normalize ops))"
| "tickets_finish filt (Inl e) = 0"

fun tickets_block :: "('d, 'c, 'b) interest_filter \<Rightarrow> ('d, 'c, 'b) op list \<Rightarrow> nat" where
  "tickets_block filt [] = 0"
| "tickets_block filt (op # ops) = (case filt op of
     Interest tags remove \<Rightarrow> length tags + (if remove then 0 else Suc (tickets_block filt ops))
   | NoInterest \<Rightarrow> Suc (tickets_block filt ops))"

definition tickets_optimize :: "('d, 'c, 'b) interest_filter \<Rightarrow> ('d, 'c, 'b) pass_result \<Rightarrow> nat" where
  "tickets_optimize filt res =
     sum_list (map (tickets_block filt \<circ> normalize \<circ> snd) (pass_ready res)) + length (optimize_further res)"

record ('d, 'c, 'b) workers =
  wq :: "('d, 'c, 'b) in_memory_queue"
  in_flight :: "(u32 \<times> ('d, 'c, 'b) item) list"
  in_pass :: "(u32, ('d, 'c, 'b) item) btree list"
  issued :: nat

inductive wstep :: "('d, 'c, 'b) interest_filter \<Rightarrow> ('d, 'c, 'b) workers \<Rightarrow> ('d, 'c, 'b) workers \<Rightarrow> bool"
  for filt where
  enqueue: "wstep filt w
     (w\<lparr>wq := enqueue filt op (wq w), issued := issued w + tickets filt (normalize op)\<rparr>)"
| take: "queue_take (wq w) = Some (x, q') \<Longrightarrow> wstep filt w (w\<lparr>wq := q', in_flight := x # in_flight w\<rparr>)"
| finish: "in_flight w = xs @ (item_id, it) # ys \<Longrightarrow>
     wstep filt w (w\<lparr>wq := queue_finish filt item_id it (res :: string queue_error + ('d, 'c, 'b) op list) (wq w),
       in_flight := xs @ ys, issued := issued w + tickets_finish filt res\<rparr>)"
| optimize_take: "optimize_take tag (wq w) = Some (t, q') \<Longrightarrow>
     wstep filt w (w\<lparr>wq := q', in_pass := t # in_pass w\<rparr>)"
| optimize_finish: "in_pass w = xs @ t # ys \<Longrightarrow>
     optimize_finish filt t res (wq w) = Inr q' \<Longrightarrow>
     wstep filt w (w\<lparr>wq := q', in_pass := xs @ ys, issued := issued w + tickets_optimize filt res\<rparr>)"

definition workers_new :: "('d, 'c, 'b) workers" where
  "workers_new = \<lparr>wq = queue_new, in_flight = [], in_pass = [], issued = 0\<rparr>"

definition winv :: "('d, 'c, 'b) workers \<Rightarrow> bool" where
  "winv w \<longleftrightarrow> queue_ok (wq w) \<and> distinct (map fst (ready (wq w)) @ map fst (in_flight w)) \<and>
     idx (wq w) = of_nat (issued w) \<and>
     (\<forall>i \<in> fst ` set (ready (wq w)) \<union> fst ` set (in_flight w). unat i < issued w)"

lemma distinct_fst_bt: "queue_ok q \<Longrightarrow> distinct (map fst (ready q))"
  by (simp add: queue_ok_def bt_inv_def strict_sorted_iff)

text \<open>The invariant split off the in-flight items \<open>F\<close>, so that it can be followed through one call.\<close>

definition qinv :: "u32 set \<Rightarrow> nat \<Rightarrow> ('d, 'c, 'b) in_memory_queue \<Rightarrow> bool" where
  "qinv F N q \<longleftrightarrow> queue_ok q \<and> fst ` set (ready q) \<inter> F = {} \<and> idx q = of_nat N \<and>
     (\<forall>i \<in> fst ` set (ready q) \<union> F. unat i < N)"

lemma winv_qinv: "winv w \<longleftrightarrow> distinct (map fst (in_flight w)) \<and> qinv (fst ` set (in_flight w)) (issued w) (wq w)"
  using distinct_fst_bt by (auto simp: winv_def qinv_def)

lemma fst_set_bt_insert: "bt_inv t \<Longrightarrow> fst ` set (bt_insert k v t) = insert k (fst ` set t)"
  by (force simp: set_bt_insert image_iff)

lemma qinv_insert_ready:
  assumes "qinv F N q" "N < 2 ^ 32"
  shows "qinv F (Suc N) (insert_ready ps op q)"
proof -
  have N: "unat (idx q) = N" using assms by (simp add: qinv_def unat_of_nat)
  then have "idx q \<notin> F" using assms(1) unfolding qinv_def by (metis UnI2 less_irrefl)
  with N show ?thesis
    using assms by (auto simp: qinv_def insert_ready_def queue_ok_def bt_inv_insert fst_set_bt_insert less_SucI
        add.commute)
qed

lemma qinv_insert_tagged: "qinv F N q \<Longrightarrow> qinv F (Suc N) (insert_tagged ps op tag q)"
  by (auto simp: qinv_def insert_tagged_def queue_ok_def Let_def add.commute less_SucI)

lemma qinv_fold_tagged: "qinv F N q \<Longrightarrow> qinv F (N + length tags) (fold (insert_tagged ps op) tags q)"
proof (induction tags arbitrary: N q)
  case (Cons tag tags)
  from Cons.IH [OF qinv_insert_tagged [OF Cons.prems]] show ?case by simp
qed simp

lemma qinv_insert_op:
  assumes "qinv F N q" "N + tickets_op filt op \<le> 2 ^ 32"
  shows "qinv F (N + tickets_op filt op) (insert_op filt op q)"
proof (cases "filt op")
  case (Interest tags remove)
  with assms(2) have "\<not> remove \<Longrightarrow> N + length tags < 2 ^ 32" by (simp add: tickets_op_def)
  with Interest qinv_fold_tagged [OF assms(1), where tags = tags and ps = "[]" and op = op] show ?thesis
    using qinv_insert_ready [of F "N + length tags" "fold (insert_tagged [] op) tags q"]
    by (simp add: insert_op_def tickets_op_def Let_def)
next
  case NoInterest
  with assms qinv_insert_ready [OF assms(1)] show ?thesis
    by (simp add: insert_op_def tickets_op_def)
qed

lemma qinv_fold_insert_op:
  "qinv F N q \<Longrightarrow> N + tickets filt ops \<le> 2 ^ 32 \<Longrightarrow> qinv F (N + tickets filt ops) (fold (insert_op filt) ops q)"
proof (induction ops arbitrary: N q)
  case (Cons op ops)
  then have "qinv F (N + tickets_op filt op) (insert_op filt op q)" by (simp add: qinv_insert_op)
  from Cons.IH [OF this] Cons.prems(2) show ?case by (simp add: add.assoc)
qed simp

lemma qinv_optimize_block:
  "qinv F N q \<Longrightarrow> N + tickets_block filt ops \<le> 2 ^ 32 \<Longrightarrow> optimize_block filt ids idxs ops q = Inr q' \<Longrightarrow>
     qinv F (N + tickets_block filt ops) q'"
proof (induction ops arbitrary: N q)
  case (Cons op ops)
  show ?case
  proof (cases "filt op")
    case (Interest tags remove)
    then obtain ps where ps: "(if remove then Inr (fold (insert_tagged ps op) tags q)
        else bindE (parent_ids ids idxs) (\<lambda>ps'. optimize_block filt ids idxs ops
          (insert_ready ps' op (fold (insert_tagged ps op) tags q)))) = Inr q'"
      using Cons.prems(3) by (auto simp: bindE_eq_Inr Let_def)
    have t: "qinv F (N + length tags) (fold (insert_tagged ps op) tags q)"
      by (rule qinv_fold_tagged) (rule Cons.prems(1))
    show ?thesis
    proof (cases remove)
      case True
      with t ps Interest show ?thesis by simp
    next
      case False
      with ps obtain ps' where ps': "optimize_block filt ids idxs ops
          (insert_ready ps' op (fold (insert_tagged ps op) tags q)) = Inr q'"
        by (auto simp: bindE_eq_Inr)
      have "N + length tags < 2 ^ 32" using Cons.prems(2) Interest False by simp
      from Cons.IH [OF qinv_insert_ready [OF t this] _ ps'] Cons.prems(2) Interest False
      show ?thesis by (simp add: add.assoc)
    qed
  next
    case NoInterest
    then obtain ps where ps: "optimize_block filt ids idxs ops (insert_ready ps op q) = Inr q'"
      using Cons.prems(3) by (auto simp: bindE_eq_Inr)
    have "N < 2 ^ 32" using Cons.prems(2) NoInterest by simp
    from Cons.IH [OF qinv_insert_ready [OF Cons.prems(1) this] _ ps] Cons.prems(2) NoInterest
    show ?thesis by simp
  qed
qed simp

lemma qinv_optimize_ready:
  "qinv F N q \<Longrightarrow> N + sum_list (map (tickets_block filt \<circ> normalize \<circ> snd) res) \<le> 2 ^ 32 \<Longrightarrow>
     optimize_ready filt ids res q = Inr q' \<Longrightarrow>
     qinv F (N + sum_list (map (tickets_block filt \<circ> normalize \<circ> snd) res)) q'"
proof (induction res arbitrary: N q)
  case (Cons r res)
  obtain idxs op where r: "r = (idxs, op)" by fastforce
  with Cons.prems(3) obtain q1 where q1: "optimize_block filt ids idxs (normalize op) q = Inr q1"
    and rest: "optimize_ready filt ids res q1 = Inr q'" by (auto simp: bindE_eq_Inr)
  have "qinv F (N + tickets_block filt (normalize op)) q1"
    using Cons.prems(2) r by (intro qinv_optimize_block [OF Cons.prems(1) _ q1]) simp
  from Cons.IH [OF this _ rest] Cons.prems(2) r show ?case by (simp add: add.assoc)
qed simp

lemma qinv_optimize_rest:
  "qinv F N q \<Longrightarrow> optimize_rest ids res q = Inr q' \<Longrightarrow> qinv F (N + length res) q'"
proof (induction res arbitrary: N q)
  case (Cons r res)
  obtain idxs op tag where r: "r = (idxs, op, tag)" by (cases r)
  with Cons.prems(2) obtain ps where "optimize_rest ids res (insert_tagged ps op tag q) = Inr q'"
    by (auto simp: bindE_eq_Inr)
  from Cons.IH [OF qinv_insert_tagged [OF Cons.prems(1)] this] show ?case by simp
qed simp

lemma qinv_done [simp]: "qinv F N (q\<lparr>done_items := d\<rparr>) = qinv F N q"
  by (simp add: qinv_def queue_ok_def)

lemma qinv_optimize_finish:
  assumes "qinv F N q" "N + tickets_optimize filt res \<le> 2 ^ 32" "optimize_finish filt t res q = Inr q'"
  shows "qinv F (N + tickets_optimize filt res) q'"
proof -
  obtain q1 where q1: "optimize_ready filt (map fst t) (pass_ready res)
      (q\<lparr>done_items := bt_append (done_items q) t\<rparr>) = Inr q1"
    and rest: "optimize_rest (map fst t) (optimize_further res) q1 = Inr q'"
    using assms(3) by (auto simp: optimize_finish_def Let_def bindE_eq_Inr)
  from qinv_optimize_rest [OF qinv_optimize_ready [OF _ _ q1] rest] assms(1,2)
  show ?thesis by (simp add: tickets_optimize_def add.assoc)
qed

lemma qinv_take:
  assumes "qinv F N q" "queue_take q = Some ((item_id, it), q')"
  shows "qinv (insert item_id F) N q' \<and> item_id \<notin> F"
proof -
  have "queue_ok q'" using assms queue_take_ok by (auto simp: qinv_def)
  with assms queue_take_Some [OF assms(2)] show ?thesis
    by (auto simp: qinv_def queue_ok_def)
qed

lemma qinv_mono: "qinv F N q \<Longrightarrow> F' \<subseteq> F \<Longrightarrow> qinv F' N q"
  by (auto simp: qinv_def)

lemma qinv_finish:
  assumes "qinv (insert item_id F) N q" "item_id \<notin> F" "N + tickets_finish filt res \<le> 2 ^ 32"
  shows "qinv F (N + tickets_finish filt res) (queue_finish filt item_id it res q)"
proof (cases "(filt, item_id, it, res, q)" rule: queue_finish.cases)
  case (1 filt' i it' ops q')
  with assms(3) qinv_fold_insert_op [OF qinv_mono [OF assms(1), of F], of filt "concat (map normalize ops)"]
  show ?thesis by (simp add: subset_insertI)
qed (use assms in \<open>auto simp: qinv_def queue_ok_def bt_inv_insert fst_set_bt_insert\<close>)

lemma winv_step:
  assumes "wstep filt w w'" "winv w" "issued w' \<le> 2 ^ 32"
  shows "winv w'"
  using assms
proof (induction rule: wstep.induct)
  case (enqueue w op)
  then show ?case by (simp add: winv_qinv qinv_fold_insert_op enqueue_def)
next
  case (take w x q')
  then show ?case using qinv_take [of _ _ "wq w" "fst x" "snd x" q'] by (auto simp: winv_qinv)
next
  case (finish w xs item_id it ys res)
  then have q: "qinv (insert item_id (fst ` (set xs \<union> set ys))) (issued w) (wq w)"
    "item_id \<notin> fst ` (set xs \<union> set ys)"
    by (auto simp: winv_qinv image_Un)
  with finish qinv_finish [OF q] show ?case by (simp add: winv_qinv image_Un)
next
  case (optimize_take tag w t q')
  then have "ready q' = ready (wq w)" "idx q' = idx (wq w)"
    by (auto simp: Vm_Queue.optimize_take_def split: option.splits)
  with optimize_take show ?case by (simp add: winv_qinv qinv_def queue_ok_def)
next
  case (optimize_finish w xs t ys res q')
  then show ?case
    using qinv_optimize_finish [OF _ _ optimize_finish.hyps(2), of "fst ` set (in_flight w)" "issued w"]
    by (simp add: winv_qinv)
qed

lemma wstep_issued: "wstep filt w w' \<Longrightarrow> issued w \<le> issued w'"
  by (induction rule: wstep.induct) simp_all

lemma winv_reachable:
  assumes "(wstep filt)\<^sup>*\<^sup>* workers_new w" "issued w \<le> 2 ^ 32"
  shows "winv w"
  using assms
proof (induction rule: rtranclp_induct)
  case base
  then show ?case by (simp add: winv_def workers_new_def queue_new_def queue_ok_def)
next
  case (step w w')
  then show ?case using wstep_issued [OF step.hyps(2)] by (auto intro: winv_step)
qed

section \<open>Order of insertion\<close>

text \<open>Identifiers are drawn in ascending order, so an insertion goes to the end of the queue.\<close>

lemma insert_ready_last:
  assumes "qinv {} N q" "N < 2 ^ 32"
  shows "ready (insert_ready ps op q) = ready q @ [(of_nat N, \<lparr>parents = ps, item_op = op\<rparr>)]"
proof -
  have "unat (idx q) = N" using assms by (simp add: qinv_def unat_of_nat)
  then have "\<forall>kv \<in> set (ready q). fst kv < idx q"
    using assms(1) by (auto simp: qinv_def word_less_nat_alt)
  then show ?thesis using assms(1) by (simp add: insert_ready_def bt_insert_last qinv_def)
qed

lemma fold_insert_op_order:
  assumes "\<And>op. op \<in> set ops \<Longrightarrow> filt op = NoInterest" "qinv {} N q" "N + length ops \<le> 2 ^ 32"
  shows "map (item_op \<circ> snd) (ready (fold (insert_op filt) ops q)) = map (item_op \<circ> snd) (ready q) @ ops"
  using assms
proof (induction ops arbitrary: N q)
  case (Cons op ops)
  have i: "insert_op filt op q = insert_ready [] op q" using Cons.prems(1) by (simp add: insert_op_def)
  have "map (item_op \<circ> snd) (ready (fold (insert_op filt) ops (insert_ready [] op q))) =
      map (item_op \<circ> snd) (ready (insert_ready [] op q)) @ ops"
    using Cons.prems by (intro Cons.IH [OF _ qinv_insert_ready]) simp_all
  also have "\<dots> = map (item_op \<circ> snd) (ready q) @ op # ops"
    using Cons.prems(2,3) by (simp add: insert_ready_last)
  finally show ?case by (simp only: fold_simps i)
qed simp

section \<open>Properties\<close>

text \<open>C31: with any number of workers interleaving enqueues, takes, completions, retries and
  optimisation passes in any order, no identifier is ever ready twice, in flight twice, or ready and
  in flight at once: a message is never handed to two workers at the same time, as long as the
  32-bit identifier counter has not wrapped.\<close>

theorem no_item_in_two_places:
  assumes "(wstep filt)\<^sup>*\<^sup>* workers_new w" "issued w \<le> 2 ^ 32"
  shows "distinct (map fst (ready (wq w)) @ map fst (in_flight w))"
  using winv_reachable [OF assms] by (simp add: winv_def)

theorem no_item_in_two_places_witness:
  "distinct (map fst (ready (queue_new :: (nat, nat, nat) in_memory_queue)) @
     map fst [(0 :: u32, \<lparr>parents = [], item_op = Call 5 :: (nat, nat, nat) op\<rparr>)])"
proof -
  let ?w0 = "workers_new :: (nat, nat, nat) workers"
  let ?m = "Call 5 :: (nat, nat, nat) op"
  let ?w1 = "?w0\<lparr>wq := enqueue unit_filter ?m (wq ?w0),
      issued := issued ?w0 + tickets unit_filter (normalize ?m)\<rparr>"
  let ?it = "\<lparr>parents = [], item_op = Call 5 :: (nat, nat, nat) op\<rparr>"
  let ?q2 = "\<lparr>idx = 1, ready = [], done_items = [(0, ?it)], optimizer_queue = \<lambda>_. None\<rparr>"
  have n: "normalize (Call 5 :: (nat, nat, nat) op) = [Call 5]" by code_simp
  have t: "queue_take (wq ?w1) = Some ((0, ?it), ?q2)"
    by (simp add: n workers_new_def queue_new_def enqueue_def insert_op_def unit_filter_def insert_ready_def
        queue_take_def)
  have "(wstep unit_filter)\<^sup>*\<^sup>* ?w0 (?w1\<lparr>wq := ?q2, in_flight := (0, ?it) # in_flight ?w1\<rparr>)"
    by (rule rtranclp.rtrancl_into_rtrancl [where b = ?w1])
      (rule r_into_rtranclp, rule wstep.enqueue, rule wstep.take, rule t)
  from no_item_in_two_places [OF this] show ?thesis
    by (simp add: n workers_new_def tickets_op_def unit_filter_def queue_new_def)
qed

text \<open>The queue is first-in first-out: with a filter that has no interest in the ops of a
  message, enqueueing appends its normalised ops, in order, behind everything that is ready, and
  processing takes the item at the front.\<close>

theorem enqueue_fifo:
  assumes "\<And>op. op \<in> set (normalize m) \<Longrightarrow> filt op = NoInterest"
    and "qinv {} N q" "N + length (normalize m) \<le> 2 ^ 32"
  shows "map (item_op \<circ> snd) (ready (enqueue filt m q)) = map (item_op \<circ> snd) (ready q) @ normalize m \<and>
    (\<forall>x q'. queue_take q = Some (x, q') \<longrightarrow> ready q = x # ready q')"
  using fold_insert_op_order [OF assms] queue_take_Some(1) by (auto simp: enqueue_def)

theorem enqueue_fifo_witness:
  "map (item_op \<circ> snd) (ready (enqueue unit_filter (Conc [Call 1, Call 2] :: (nat, nat, nat) op) queue_new)) =
    map (item_op \<circ> snd) (ready queue_new) @ normalize (Conc [Call 1, Call 2])"
proof -
  have "length (normalize (Conc [Call 1, Call 2] :: (nat, nat, nat) op)) = 2" by code_simp
  then show ?thesis
    using enqueue_fifo [where N = 0 and filt = unit_filter and q = queue_new
        and m = "Conc [Call 1, Call 2] :: (nat, nat, nat) op"]
    by (simp add: unit_filter_def qinv_def queue_ok_def queue_new_def)
qed

text \<open>An item whose handler asks for a retry keeps its identifier and its place: after the
  call the ready queue is exactly what it was before.\<close>

theorem retry_keeps_place:
  assumes "queue_ok q" "ready q = (item_id, it) # rest" "snd (f (item_op it) item_id) = Inl (Retry e)"
  shows "fst (queue_process filt f q) = None \<and> ready (snd (queue_process filt f q)) = ready q"
proof -
  obtain q1 where t: "queue_take q = Some ((item_id, it), q1)" and "ready q1 = rest"
    using assms(2) by (simp add: queue_take_def)
  moreover have "\<forall>kv \<in> set rest. item_id < fst kv" using assms(1,2) by (simp add: queue_ok_def)
  ultimately show ?thesis using assms(2,3) by (simp add: queue_process_Some [OF t] bt_insert_first)
qed

theorem retry_keeps_place_witness:
  "fst (queue_process unit_filter (\<lambda>op i. (0 :: nat, Inl (Retry (0 :: nat))))
     (enqueue unit_filter (Call 3 :: (nat, nat, nat) op) queue_new)) = None \<and>
   ready (snd (queue_process unit_filter (\<lambda>op i. (0 :: nat, Inl (Retry (0 :: nat))))
     (enqueue unit_filter (Call 3 :: (nat, nat, nat) op) queue_new))) =
   ready (enqueue unit_filter (Call 3 :: (nat, nat, nat) op) queue_new)"
proof (rule retry_keeps_place)
  have n: "normalize (Call 3 :: (nat, nat, nat) op) = [Call 3]" by code_simp
  show "queue_ok (enqueue unit_filter (Call 3 :: (nat, nat, nat) op) queue_new)"
    unfolding enqueue_def by (rule fold_insert_op(2)) (simp add: queue_ok_def queue_new_def)
  show "ready (enqueue unit_filter (Call 3 :: (nat, nat, nat) op) queue_new) =
    (0, \<lparr>parents = [], item_op = Call 3\<rparr>) # []"
    by (simp add: n enqueue_def insert_op_def unit_filter_def insert_ready_def queue_new_def)
qed simp

text \<open>C32: the engine drains its queue: when every ready op is built from data, sequencing,
  concurrency, voiding and no-ops, the queue is empty after at most as many steps as the total
  weight of the ready ops, whatever the handlers, the filter and the clock.\<close>

theorem engine_drains:
  assumes "queue_ok q" "\<forall>x \<in> set (ready q). machine_only (item_op (snd x))" "queue_load q \<le> length nows"
  shows "ready (snd (engine_run hf filt nows q)) = []"
  by (rule engine_run_drains [OF assms(1) _ assms(3)])
    (use assms(2) in \<open>simp add: tq.internal_only_def queue_pending_def\<close>)

theorem engine_drains_witness:
  "ready (snd (engine_run (\<lambda>i. \<lparr>h_call = (\<lambda>c::nat. Inl (Fatal (0::nat))), h_callback = (\<lambda>(b::nat) (ds::nat list). Inr Noop)\<rparr>)
     unit_filter [1, 2, 3, 4]
     \<lparr>idx = 1, ready = [(0, \<lparr>parents = [], item_op = Seq [Data 1, Void Noop]\<rparr>)], done_items = [],
      optimizer_queue = \<lambda>_. None\<rparr>)) = []"
  by (rule engine_drains) (simp_all add: queue_ok_def queue_load_def)

text \<open>An engine step never yields a datum, although the documentation of \<open>Op::Data\<close> says
  that data is bubbled up to the top and sent as an output: a datum that reaches the top of the
  queue is consumed and only recorded among the finished items.\<close>

theorem engine_step_yields_nothing: "fst (engine_step hf filt now q) = None"
  by (rule fst_engine_step)



text \<open>A pass that fails takes its input with it: the items under the tag have been removed
  from the optimiser queue, and the error path puts them neither back, nor into the ready queue, nor
  among the finished items.\<close>

theorem optimize_error_drops_items:
  assumes "optimizer_queue q tag = Some t" "run_pass (map (item_op \<circ> snd) t) = Inl e"
  shows "optimize tag filt run_pass q =
    (Inl (PassError e), q\<lparr>optimizer_queue := (optimizer_queue q)(tag := None)\<rparr>)"
  using assms by (simp add: optimize_def optimize_take_def)

theorem optimize_error_drops_items_witness:
  "optimize ''tag'' unit_filter (\<lambda>ops. Inl (0::nat))
     (insert_tagged [] (Call 1 :: (nat, nat, nat) op) ''tag'' queue_new) =
   (Inl (PassError 0), (insert_tagged [] (Call 1) ''tag'' queue_new)
      \<lparr>optimizer_queue := (optimizer_queue (insert_tagged [] (Call 1) ''tag'' queue_new))(''tag'' := None)\<rparr>)"
  by (rule optimize_error_drops_items [where t = "[(0, \<lparr>parents = [], item_op = Call 1\<rparr>)]"])
    (simp_all add: insert_tagged_def queue_new_def)

end
