(* ===== verification/Am_Time.thy ===== *)
theory Am_Time
  imports Prelude
begin

text \<open>
  Delays that change in the future (\<open>lib/access-manager-types/src/time.rs\<close>). A \<open>Delay\<close> holds a value,
  the value that replaces it and the date at which it does. Seconds are \<open>u64\<close> and durations \<open>u32\<close>, as in
  the source; the build profile of the contracts leaves overflow checks off, so \<open>+\<close> wraps. The lemmas
  give the value of an updated delay at every later time and what the update guarantees.
\<close>

section \<open>Delays\<close>

record delay =
  effect_date :: u64
  value_before :: u32
  value_after :: u32

record unpacked_delay =
  u_effect_date :: u64
  u_value_before :: u32
  u_value_after :: u32

definition delay_new :: "u32 \<Rightarrow> delay" where
  "delay_new d = \<lparr>effect_date = 0, value_before = 0, value_after = d\<rparr>"

definition delay_default :: delay where
  "delay_default = \<lparr>effect_date = 0, value_before = 0, value_after = 0\<rparr>"

definition get_full_at :: "delay \<Rightarrow> u64 \<Rightarrow> unpacked_delay" where
  "get_full_at d timepoint =
     (if effect_date d \<le> timepoint
      then \<lparr>u_effect_date = 0, u_value_before = value_after d, u_value_after = 0\<rparr>
      else \<lparr>u_effect_date = effect_date d, u_value_before = value_before d, u_value_after = value_after d\<rparr>)"

definition delay_get_full :: "delay \<Rightarrow> u64 \<Rightarrow> unpacked_delay" where
  "delay_get_full d timestamp = get_full_at d timestamp"

definition delay_get :: "delay \<Rightarrow> u64 \<Rightarrow> u32" where
  "delay_get d timestamp = u_value_before (get_full_at d timestamp)"

definition saturating_sub :: "u32 \<Rightarrow> u32 \<Rightarrow> u32" where
  "saturating_sub a b = (if b \<le> a then a - b else 0)"

definition with_update :: "delay \<Rightarrow> u64 \<Rightarrow> u32 \<Rightarrow> u32 \<Rightarrow> delay \<times> u64" where
  "with_update d timestamp new_value min_setback =
     (let value = delay_get d timestamp;
          setback = max min_setback (saturating_sub value new_value);
          effect = timestamp + ucast setback
      in (\<lparr>effect_date = effect, value_before = value, value_after = new_value\<rparr>, effect))"

section \<open>Arithmetic\<close>

text \<open>A block time in seconds is far below \<open>u64::MAX\<close>: it is a \<open>u64\<close> of nanoseconds divided by \<open>10\<^sup>9\<close>.\<close>

definition small_time :: "u64 \<Rightarrow> bool" where
  "small_time t \<longleftrightarrow> unat t < 2 ^ 60"

lemma small_time_seconds [simp]: "small_time (t div 1000000000)"
proof -
  have "unat t < 2 ^ 64"
    using unsigned_less [where ?'a = nat and w = t] by simp
  then show ?thesis
    by (simp add: small_time_def unat_div)
qed

lemma unat_ucast_u64 [simp]: "unat (ucast (d :: u32) :: u64) = unat d"
  by (simp add: unsigned_ucast_eq take_bit_nat_eq_self_iff less_trans [OF unsigned_less])

lemma unat_u32_less: "unat (d :: u32) < 2 ^ 32"
  using unsigned_less [of d] by simp

lemma small_time_add:
  assumes "small_time t"
  shows "unat (t + ucast (d :: u32)) = unat t + unat d"
proof -
  have "unat t + unat d < 2 ^ 64"
    using assms unat_u32_less [of d] by (simp add: small_time_def)
  then show ?thesis
    by (simp add: unat_word_ariths)
qed

lemma unat_saturating_sub [simp]: "unat (saturating_sub a b) = unat a - unat b"
  by (auto simp: saturating_sub_def unat_sub word_le_nat_alt)

lemma unat_max [simp]: "unat (max a b :: u32) = max (unat a) (unat b)"
  by (auto simp: max_def word_le_nat_alt)

section \<open>The value of a delay over time\<close>

lemma delay_get_new [simp]: "delay_get (delay_new d) t = d"
  by (simp add: delay_get_def get_full_at_def delay_new_def)

lemma delay_get_default [simp]: "delay_get delay_default t = 0"
  by (simp add: delay_get_def get_full_at_def delay_default_def)

lemma delay_get_full_value: "u_value_before (delay_get_full d t) = delay_get d t"
  by (simp add: delay_get_full_def delay_get_def)

lemma with_update_effect:
  assumes "with_update d t v m = (d', e)" "small_time t"
  shows "unat e = unat t + max (unat m) (unat (delay_get d t) - unat v)"
  using assms by (auto simp: with_update_def Let_def small_time_add)

lemma delay_get_updated:
  assumes "with_update d t v m = (d', e)"
  shows "delay_get d' t' = (if e \<le> t' then v else delay_get d t)"
  using assms by (auto simp: with_update_def Let_def delay_get_def get_full_at_def)

text \<open>Changing a delay never lets an operation through before the delay that was in force at the change would
  have: whoever starts to wait at a time \<open>t'\<close> after an update at \<open>t\<close>, under whatever delay holds then, waits
  until at least \<open>t\<close> plus the old delay. The new value holds from the effect date on, which is at least the
  minimal setback away, and the old one until then.\<close>

theorem delay_update_never_cuts_short:
  assumes "with_update d t new_value min_setback = (d', effect)" "small_time t" "t \<le> t'"
  shows "unat t + unat (delay_get d t) \<le> unat t' + unat (delay_get d' t') \<and>
    unat t + unat min_setback \<le> unat effect \<and>
    delay_get d' t' = (if effect \<le> t' then new_value else delay_get d t)"
  using with_update_effect [OF assms(1,2)] delay_get_updated [OF assms(1), of t'] assms(3)
  by (auto simp: word_le_nat_alt split: if_splits)

theorem delay_update_never_cuts_short_witness:
  "with_update (delay_new 100) 1000 10 5 = (\<lparr>effect_date = 1090, value_before = 100, value_after = 10\<rparr>, 1090) \<and>
   1000 + unat (delay_get (delay_new 100) 1000) \<le> 1095 + unat (delay_get \<lparr>effect_date = 1090, value_before = 100, value_after = 10\<rparr> 1095)"
proof -
  have u: "with_update (delay_new 100) 1000 10 5 = (\<lparr>effect_date = 1090, value_before = 100, value_after = 10\<rparr>, 1090)"
    by (simp add: with_update_def saturating_sub_def Let_def)
  have "small_time 1000" "(1000 :: u64) \<le> 1095"
    by (simp_all add: small_time_def)
  from delay_update_never_cuts_short [OF u this] u show ?thesis by simp
qed

end
