(* ===== verification/Ibc_Types.thy ===== *)
theory Ibc_Types
  imports Prelude
begin

text \<open>
  The data of the IBC Union protocol (\<open>lib/ibc-union-spec/src/types.rs\<close> and \<open>types/\<close>,
  \<open>lib/consensus-primitives\<close>): identifiers, client status, timestamps, connections, channels and
  packets, and the conversion of the last three to and from the tuples that are ABI-encoded. The
  byte encoding of such a tuple is code of the \<open>alloy\<close> crates and stays a parameter.
\<close>

section \<open>Identifiers\<close>

text \<open>\<open>ClientId\<close>, \<open>ConnectionId\<close> and \<open>ChannelId\<close> wrap a \<open>NonZeroU32\<close>.\<close>

type_synonym client_id = u32
type_synonym connection_id = u32
type_synonym channel_id = u32
type_synonym addr = string
type_synonym h256 = "256 word"

definition id_from_raw :: "u32 \<Rightarrow> u32 option" where
  "id_from_raw raw = (if raw = 0 then None else Some raw)"

definition id_checked_add :: "u32 \<Rightarrow> u32 \<Rightarrow> u32 option" where
  "id_checked_add i rhs = (if unat i + unat rhs < 2 ^ 32 then Some (i + rhs) else None)"

lemma id_checked_add_Some:
  assumes "id_checked_add i rhs = Some j"
  shows "unat j = unat i + unat rhs"
  using assms by (auto simp: id_checked_add_def unat_word_ariths split: if_splits)

lemma id_checked_add_one:
  assumes "id_checked_add i 1 = Some j"
  shows "unat j = Suc (unat i)" "i < j" "j \<noteq> 0"
  using id_checked_add_Some [OF assms] by (auto simp: word_less_nat_alt)

datatype status = Active | Expired | Frozen

section \<open>Timestamps\<close>

text \<open>Nanoseconds in a \<open>u64\<close>; the multiplications wrap.\<close>

type_synonym timestamp = u64

definition timestamp_from_nanos :: "u64 \<Rightarrow> timestamp" where
  "timestamp_from_nanos nanos = nanos"

definition timestamp_from_millis :: "u64 \<Rightarrow> timestamp" where
  "timestamp_from_millis millis = millis * 1000000"

definition timestamp_from_secs :: "u64 \<Rightarrow> timestamp" where
  "timestamp_from_secs secs = secs * 1000000000"

definition timestamp_as_millis :: "timestamp \<Rightarrow> u64" where
  "timestamp_as_millis t = t div 1000000"

definition timestamp_as_secs :: "timestamp \<Rightarrow> u64" where
  "timestamp_as_secs t = t div 1000000000"

definition timestamp_is_zero :: "timestamp \<Rightarrow> bool" where
  "timestamp_is_zero t \<longleftrightarrow> t = 0"

definition timestamp_plus_duration :: "timestamp \<Rightarrow> u64 \<Rightarrow> timestamp option" where
  "timestamp_plus_duration t d = (if unat t + unat d < 2 ^ 64 then Some (t + d) else None)"

section \<open>Connections, channels and packets\<close>

datatype connection_state = ConnInit | ConnTryOpen | ConnOpen

datatype channel_state = ChanInit | ChanTryOpen | ChanOpen | ChanClosed

fun connection_state_as_u8 :: "connection_state \<Rightarrow> u8" where
  "connection_state_as_u8 ConnInit = 1"
| "connection_state_as_u8 ConnTryOpen = 2"
| "connection_state_as_u8 ConnOpen = 3"

definition connection_state_try_from :: "u8 \<Rightarrow> u8 + connection_state" where
  "connection_state_try_from v =
     (if v = 1 then Inr ConnInit else if v = 2 then Inr ConnTryOpen else if v = 3 then Inr ConnOpen else Inl v)"

fun channel_state_as_u8 :: "channel_state \<Rightarrow> u8" where
  "channel_state_as_u8 ChanInit = 1"
| "channel_state_as_u8 ChanTryOpen = 2"
| "channel_state_as_u8 ChanOpen = 3"
| "channel_state_as_u8 ChanClosed = 4"

definition channel_state_try_from :: "u8 \<Rightarrow> u8 + channel_state" where
  "channel_state_try_from v =
     (if v = 1 then Inr ChanInit else if v = 2 then Inr ChanTryOpen else if v = 3 then Inr ChanOpen
      else if v = 4 then Inr ChanClosed else Inl v)"

record connection =
  co_state :: connection_state
  co_client_id :: client_id
  co_counterparty_client_id :: client_id
  co_counterparty_connection_id :: "connection_id option"

record channel =
  ch_state :: channel_state
  ch_connection_id :: connection_id
  ch_counterparty_channel_id :: "channel_id option"
  ch_counterparty_port_id :: bytes
  ch_version :: string

datatype must_be_zero = MustBeZero

record packet =
  source_channel_id :: channel_id
  destination_channel_id :: channel_id
  packet_data :: bytes
  timeout_height :: must_be_zero
  timeout_timestamp :: timestamp

section \<open>ABI tuples\<close>

type_synonym connection_tokens = "u8 \<times> u32 \<times> u32 \<times> u32"
type_synonym channel_tokens = "u8 \<times> u32 \<times> u32 \<times> bytes \<times> string"
type_synonym packet_tokens = "u32 \<times> u32 \<times> bytes \<times> u64 \<times> u64"

definition connection_to_tokens :: "connection \<Rightarrow> connection_tokens" where
  "connection_to_tokens c =
     (connection_state_as_u8 (co_state c), co_client_id c, co_counterparty_client_id c,
      case co_counterparty_connection_id c of None \<Rightarrow> 0 | Some i \<Rightarrow> i)"

fun connection_valid_token :: "connection_tokens \<Rightarrow> bool" where
  "connection_valid_token (st, cl, ccl, cco) \<longleftrightarrow>
     (\<exists>x \<in> {ConnInit, ConnTryOpen, ConnOpen}. connection_state_try_from st = Inr x) \<and> 0 < cl \<and> 0 < ccl"

fun connection_detokenize :: "connection_tokens \<Rightarrow> connection option" where
  "connection_detokenize (st, cl, ccl, cco) =
     (case (connection_state_try_from st, id_from_raw cl, id_from_raw ccl) of
       (Inr st, Some cl, Some ccl) \<Rightarrow>
         Some \<lparr>co_state = st, co_client_id = cl, co_counterparty_client_id = ccl,
               co_counterparty_connection_id = id_from_raw cco\<rparr>
     | _ \<Rightarrow> None)"

definition channel_to_tokens :: "channel \<Rightarrow> channel_tokens" where
  "channel_to_tokens c =
     (channel_state_as_u8 (ch_state c), ch_connection_id c,
      case ch_counterparty_channel_id c of None \<Rightarrow> 0 | Some i \<Rightarrow> i,
      ch_counterparty_port_id c, ch_version c)"

fun channel_valid_token :: "channel_tokens \<Rightarrow> bool" where
  "channel_valid_token (st, co, cch, port, ver) \<longleftrightarrow>
     (\<exists>x \<in> {ChanInit, ChanTryOpen, ChanOpen, ChanClosed}. channel_state_try_from st = Inr x) \<and> 0 < co"

fun channel_detokenize :: "channel_tokens \<Rightarrow> channel option" where
  "channel_detokenize (st, co, cch, port, ver) =
     (case (channel_state_try_from st, id_from_raw co) of
       (Inr st, Some co) \<Rightarrow>
         Some \<lparr>ch_state = st, ch_connection_id = co, ch_counterparty_channel_id = id_from_raw cch,
               ch_counterparty_port_id = port, ch_version = ver\<rparr>
     | _ \<Rightarrow> None)"

definition packet_to_tokens :: "packet \<Rightarrow> packet_tokens" where
  "packet_to_tokens p =
     (source_channel_id p, destination_channel_id p, packet_data p, 0, timeout_timestamp p)"

fun packet_valid_token :: "packet_tokens \<Rightarrow> bool" where
  "packet_valid_token (src, dst, dat, th, tt) \<longleftrightarrow> 0 < src \<and> 0 < dst \<and> th = 0"

fun packet_detokenize :: "packet_tokens \<Rightarrow> packet option" where
  "packet_detokenize (src, dst, dat, th, tt) =
     (case (id_from_raw src, id_from_raw dst) of
       (Some src, Some dst) \<Rightarrow>
         Some \<lparr>source_channel_id = src, destination_channel_id = dst, packet_data = dat,
               timeout_height = MustBeZero, timeout_timestamp = tt\<rparr>
     | _ \<Rightarrow> None)"

section \<open>Well-formed values and round trips\<close>

text \<open>Identifiers inside of a value of the source are non-zero by their type.\<close>

definition wf_connection :: "connection \<Rightarrow> bool" where
  "wf_connection c \<longleftrightarrow> co_client_id c \<noteq> 0 \<and> co_counterparty_client_id c \<noteq> 0 \<and>
     co_counterparty_connection_id c \<noteq> Some 0"

definition wf_channel :: "channel \<Rightarrow> bool" where
  "wf_channel c \<longleftrightarrow> ch_connection_id c \<noteq> 0 \<and> ch_counterparty_channel_id c \<noteq> Some 0"

definition wf_packet :: "packet \<Rightarrow> bool" where
  "wf_packet p \<longleftrightarrow> source_channel_id p \<noteq> 0 \<and> destination_channel_id p \<noteq> 0"

lemma id_from_raw_of_option [simp]:
  "x \<noteq> Some 0 \<Longrightarrow> id_from_raw (case x of None \<Rightarrow> 0 | Some i \<Rightarrow> i) = x"
  by (auto simp: id_from_raw_def split: option.split)

lemma connection_state_roundtrip [simp]: "connection_state_try_from (connection_state_as_u8 s) = Inr s"
  by (cases s) (simp_all add: connection_state_try_from_def)

lemma channel_state_roundtrip [simp]: "channel_state_try_from (channel_state_as_u8 s) = Inr s"
  by (cases s) (simp_all add: channel_state_try_from_def)

lemma must_be_zero_unique: "(x :: must_be_zero) = y"
  by (metis must_be_zero.exhaust)

lemma connection_tokens_roundtrip:
  "wf_connection c \<Longrightarrow> connection_valid_token (connection_to_tokens c) \<and>
     connection_detokenize (connection_to_tokens c) = Some c"
  by (cases "co_state c")
    (auto simp: connection_to_tokens_def wf_connection_def id_from_raw_def word_gt_0
      simp flip: connection_state_as_u8.simps split: option.splits)

lemma channel_tokens_roundtrip:
  "wf_channel c \<Longrightarrow> channel_valid_token (channel_to_tokens c) \<and>
     channel_detokenize (channel_to_tokens c) = Some c"
  by (cases "ch_state c")
    (auto simp: channel_to_tokens_def wf_channel_def id_from_raw_def word_gt_0
      simp flip: channel_state_as_u8.simps split: option.splits)

lemma packet_tokens_roundtrip:
  "wf_packet p \<Longrightarrow> packet_valid_token (packet_to_tokens p) \<and> packet_detokenize (packet_to_tokens p) = Some p"
  using must_be_zero_unique
  by (cases p) (simp add: packet_to_tokens_def wf_packet_def id_from_raw_def word_gt_0)

lemma packet_to_tokens_inj: "packet_to_tokens p = packet_to_tokens q \<longleftrightarrow> p = q"
  using must_be_zero_unique by (cases p; cases q) (auto simp: packet_to_tokens_def)

text \<open>What the decoder accepts is well-formed, so the \<open>expect\<close>s in \<open>detokenize\<close> cannot fail.\<close>

lemma connection_valid_detokenize:
  assumes "connection_valid_token t"
  shows "\<exists>c. connection_detokenize t = Some c \<and> wf_connection c"
  using assms by (cases t) (auto simp: wf_connection_def id_from_raw_def)

lemma channel_valid_detokenize:
  assumes "channel_valid_token t"
  shows "\<exists>c. channel_detokenize t = Some c \<and> wf_channel c"
  using assms by (cases t) (auto simp: wf_channel_def id_from_raw_def)

lemma packet_valid_detokenize:
  assumes "packet_valid_token t"
  shows "\<exists>p. packet_detokenize t = Some p \<and> wf_packet p \<and> packet_to_tokens p = t"
  using assms by (cases t) (auto simp: wf_packet_def id_from_raw_def packet_to_tokens_def)

end
