(* ===== verification/Ibc_Path.thy ===== *)
theory Ibc_Path
  imports Ibc_Types
begin

text \<open>
  Commitment paths (\<open>lib/ibc-union-spec/src/path.rs\<close>). \<open>Keccak256\<close> and the ABI encoders are code
  of other crates: they are the fields of the record \<open>crypto\<close>, a parameter of every definition that
  hashes. What is proved here is what holds of the paths whatever the hash: two different paths
  never hash the same bytes.
\<close>

section \<open>The hash and the encoders\<close>

record crypto =
  keccak256 :: "bytes \<Rightarrow> h256"
  abi_packets :: "packet_tokens list \<Rightarrow> bytes"
  abi_packet :: "packet_tokens \<Rightarrow> bytes"
  abi_channel :: "channel_tokens \<Rightarrow> bytes"
  abi_connection :: "connection_tokens \<Rightarrow> bytes"
  abi_acks :: "bytes list \<Rightarrow> bytes"

text \<open>An \<open>H256\<close> is the word with the given big-endian bytes.\<close>

definition h256_bytes :: "h256 \<Rightarrow> bytes" where
  "h256_bytes h = to_be_bytes 32 (unat h)"

definition h256_of_bytes :: "bytes \<Rightarrow> h256" where
  "h256_of_bytes bs = word_of_nat (from_be_bytes bs)"

definition COMMITMENT_MAGIC :: h256 where
  "COMMITMENT_MAGIC = h256_of_bytes ((replicate 32 0)[0 := 1])"

definition COMMITMENT_MAGIC_ACK :: h256 where
  "COMMITMENT_MAGIC_ACK = h256_of_bytes ((replicate 32 0)[0 := 2])"

definition NON_MEMBERSHIP_COMMITMENT_VALUE :: h256 where
  "NON_MEMBERSHIP_COMMITMENT_VALUE = h256_of_bytes ((replicate 32 0)[31 := 1])"

section \<open>Paths and their keys\<close>

datatype store_path =
    ClientState client_id
  | ConsensusState client_id u64
  | Connection connection_id
  | Channel channel_id
  | BatchReceipts h256
  | BatchPackets h256
  | MembershipProof client_id u64 bytes
  | NonMembershipProof client_id u64 bytes
  | BatchTimeouts h256

definition u256_be :: "nat \<Rightarrow> bytes" where
  "u256_be x = to_be_bytes 32 x"

fun path_tag :: "store_path \<Rightarrow> nat" where
  "path_tag (ClientState _) = 0"
| "path_tag (ConsensusState _ _) = 1"
| "path_tag (Connection _) = 2"
| "path_tag (Channel _) = 3"
| "path_tag (BatchPackets _) = 4"
| "path_tag (BatchReceipts _) = 5"
| "path_tag (MembershipProof _ _ _) = 6"
| "path_tag (NonMembershipProof _ _ _) = 7"
| "path_tag (BatchTimeouts _) = 8"

fun path_body :: "store_path \<Rightarrow> bytes" where
  "path_body (ClientState cl) = u256_be (unat cl)"
| "path_body (ConsensusState cl h) = u256_be (unat cl) @ u256_be (unat h)"
| "path_body (Connection co) = u256_be (unat co)"
| "path_body (Channel ch) = u256_be (unat ch)"
| "path_body (BatchPackets b) = h256_bytes b"
| "path_body (BatchReceipts b) = h256_bytes b"
| "path_body (MembershipProof cl h path) = u256_be (unat cl) @ u256_be (unat h) @ path"
| "path_body (NonMembershipProof cl h path) = u256_be (unat cl) @ u256_be (unat h) @ path"
| "path_body (BatchTimeouts b) = h256_bytes b"

text \<open>The bytes that \<open>key\<close> feeds to the hash, in the order of its \<open>chain_update\<close> calls.\<close>

definition path_preimage :: "store_path \<Rightarrow> bytes" where
  "path_preimage p = u256_be (path_tag p) @ path_body p"

definition path_key :: "'z crypto_scheme \<Rightarrow> store_path \<Rightarrow> h256" where
  "path_key K p = keccak256 K (path_preimage p)"

section \<open>Batches\<close>

definition commit_packets :: "'z crypto_scheme \<Rightarrow> packet list \<Rightarrow> h256" where
  "commit_packets K packets = keccak256 K (abi_packets K (map packet_to_tokens packets))"

definition packet_hash :: "'z crypto_scheme \<Rightarrow> packet \<Rightarrow> h256" where
  "packet_hash K p = keccak256 K (abi_packets K (map packet_to_tokens [p]))"

definition batch_packets_path :: "'z crypto_scheme \<Rightarrow> packet list \<Rightarrow> store_path" where
  "batch_packets_path K packets = BatchPackets (keccak256 K (abi_packets K (map packet_to_tokens packets)))"

definition batch_receipts_path :: "'z crypto_scheme \<Rightarrow> packet list \<Rightarrow> store_path" where
  "batch_receipts_path K packets = BatchReceipts (commit_packets K packets)"

definition batch_timeouts_path :: "'z crypto_scheme \<Rightarrow> packet \<Rightarrow> store_path" where
  "batch_timeouts_path K p = BatchTimeouts (keccak256 K (abi_packet K (packet_to_tokens p)))"

section \<open>Different paths have different preimages\<close>

lemma length_u256_be [simp]: "length (u256_be x) = 32"
  by (simp add: u256_be_def)

lemma length_h256_bytes [simp]: "length (h256_bytes h) = 32"
  by (simp add: h256_bytes_def)

lemma u256_be_inj: "x < 2 ^ 256 \<Longrightarrow> y < 2 ^ 256 \<Longrightarrow> u256_be x = u256_be y \<longleftrightarrow> x = y"
  unfolding u256_be_def by (rule to_be_bytes_inj) simp_all

lemma u256_be_word_inj:
  assumes "LENGTH('a) \<le> 256"
  shows "u256_be (unat (x :: 'a :: len word)) = u256_be (unat y) \<longleftrightarrow> x = y"
proof -
  have "unat x < 2 ^ 256" "unat y < 2 ^ 256"
    by (rule less_le_trans [OF unsigned_less power_increasing [OF assms]], simp)+
  then show ?thesis by (simp only: u256_be_inj word_unat_eq_iff)
qed

lemma h256_bytes_inj [simp]: "h256_bytes x = h256_bytes y \<longleftrightarrow> x = y"
  using u256_be_word_inj [of x y] by (simp add: h256_bytes_def u256_be_def)

lemma u32_be_inj [simp]: "u256_be (unat (x :: u32)) = u256_be (unat y) \<longleftrightarrow> x = y"
  by (rule u256_be_word_inj) simp

lemma u64_be_inj [simp]: "u256_be (unat (x :: u64)) = u256_be (unat y) \<longleftrightarrow> x = y"
  by (rule u256_be_word_inj) simp

lemma path_tag_le: "path_tag p \<le> 8"
  by (cases p) simp_all

lemma path_tag_inj:
  assumes "u256_be (path_tag p) = u256_be (path_tag q)"
  shows "path_tag p = path_tag q"
  using assms path_tag_le [of p] path_tag_le [of q] by (subst (asm) u256_be_inj) auto

lemma path_body_inj: "path_tag p = path_tag q \<Longrightarrow> path_body p = path_body q \<Longrightarrow> p = q"
  by (cases p) (cases q; simp)+

lemma path_preimage_inj: "path_preimage p = path_preimage q \<longleftrightarrow> p = q"
proof
  assume "path_preimage p = path_preimage q"
  then have "u256_be (path_tag p) = u256_be (path_tag q) \<and> path_body p = path_body q"
    unfolding path_preimage_def by (subst (asm) append_eq_append_same_length) simp_all
  then show "p = q" using path_tag_inj path_body_inj by blast
qed simp

section \<open>Freedom from collisions, one key at a time\<close>

text \<open>
  No function into 256 bits is injective, so what the protocol relies on is stated of one key at a
  time: nothing else that is hashed collides with this one.
\<close>

definition key_unique :: "'z crypto_scheme \<Rightarrow> store_path \<Rightarrow> bool" where
  "key_unique K p \<longleftrightarrow> (\<forall>q. path_key K q = path_key K p \<longrightarrow> q = p)"

definition batch_unique :: "'z crypto_scheme \<Rightarrow> packet list \<Rightarrow> bool" where
  "batch_unique K ps \<longleftrightarrow> (\<forall>qs. commit_packets K qs = commit_packets K ps \<longrightarrow> qs = ps)"

lemma key_uniqueD: "key_unique K p \<Longrightarrow> path_key K q = path_key K p \<longleftrightarrow> q = p"
  by (auto simp: key_unique_def)

lemma batch_uniqueD: "batch_unique K ps \<Longrightarrow> commit_packets K qs = commit_packets K ps \<longleftrightarrow> qs = ps"
  by (auto simp: batch_unique_def)

lemma batch_packets_path_eq:
  "batch_packets_path K ps = BatchPackets (commit_packets K ps)"
  "packet_hash K p = commit_packets K [p]"
  by (simp_all add: batch_packets_path_def commit_packets_def packet_hash_def)

text \<open>
  A hash that is free of collisions at the preimage \<open>bs\<close>, for use in concrete instances: it maps
  \<open>bs\<close> to one value and everything else to another.
\<close>

definition spot_hash :: "bytes \<Rightarrow> bytes \<Rightarrow> h256" where
  "spot_hash bs x = (if x = bs then 1 else 0)"

lemma key_unique_if_hash:
  "(\<And>x. keccak256 K x = keccak256 K (path_preimage p) \<Longrightarrow> x = path_preimage p) \<Longrightarrow> key_unique K p"
  unfolding key_unique_def path_key_def by (metis path_preimage_inj)

lemma h256_of_bytes_inj:
  assumes "length bs = 32" "length cs = 32"
  shows "h256_of_bytes bs = h256_of_bytes cs \<longleftrightarrow> bs = cs"
proof
  assume "h256_of_bytes bs = h256_of_bytes cs"
  then have "unat (word_of_nat (from_be_bytes bs) :: h256) = unat (word_of_nat (from_be_bytes cs) :: h256)"
    by (simp add: h256_of_bytes_def)
  moreover have "from_be_bytes bs < 2 ^ 256" "from_be_bytes cs < 2 ^ 256"
    using from_be_bytes_less [of bs] from_be_bytes_less [of cs] assms by simp_all
  ultimately have "from_be_bytes bs = from_be_bytes cs" by (simp add: unat_of_nat)
  then show "bs = cs" using to_from_be_bytes [of bs] to_from_be_bytes [of cs] assms by metis
qed simp

lemma h256_of_to_bytes [simp]: "h256_of_bytes (h256_bytes h) = h"
proof -
  have "unat h < 256 ^ 32" using unsigned_less [of h] by simp
  then show ?thesis by (simp add: h256_of_bytes_def h256_bytes_def from_to_be_bytes)
qed

lemma h256_to_of_bytes: "length bs = 32 \<Longrightarrow> h256_bytes (h256_of_bytes bs) = bs"
  by (metis h256_of_bytes_inj h256_of_to_bytes length_h256_bytes)

lemma magic_values [simp]:
  "COMMITMENT_MAGIC \<noteq> COMMITMENT_MAGIC_ACK"
  "COMMITMENT_MAGIC \<noteq> NON_MEMBERSHIP_COMMITMENT_VALUE"
  "COMMITMENT_MAGIC_ACK \<noteq> NON_MEMBERSHIP_COMMITMENT_VALUE"
  unfolding COMMITMENT_MAGIC_def COMMITMENT_MAGIC_ACK_def NON_MEMBERSHIP_COMMITMENT_VALUE_def
  by (simp_all add: h256_of_bytes_inj list_eq_iff_nth_eq exI [of _ 0])

lemmas magic_values_sym [simp] = magic_values [symmetric]

end
