(* ===== verification/Depolama.thy ===== *)
theory Depolama
  imports Ibc_Path
begin

text \<open>
  The storage layer of the contracts (\<open>lib/depolama/src\<close>): typed stores over one flat map from byte
  strings to byte strings, kept apart by a prefix and a separator byte. A store is a record of its
  prefix and codecs; the locale \<open>lawful_store\<close> is what the contracts rely on, and the codecs of the
  IBC core contract (\<open>cosmwasm/core/src/state.rs\<close>) are modelled here and interpreted in it.
\<close>

section \<open>Errors of the CosmWasm standard library\<close>

datatype std_error =
    GenericErr string
  | OverflowErr
  | InvalidAddr string
  | QuerierErr string

section \<open>Prefixes and stores\<close>

datatype store_prefix = Unprefixed | Prefixed bytes

definition SEPARATOR :: u8 where
  "SEPARATOR = 0"

text \<open>\<open>Prefix::new\<close> panics (at compile time) on a prefix that contains the separator.\<close>

definition prefix_new :: "bytes \<Rightarrow> store_prefix option" where
  "prefix_new p = (if SEPARATOR \<in> set p then None else Some (Prefixed p))"

fun prefix_len :: "store_prefix \<Rightarrow> nat" where
  "prefix_len Unprefixed = 0"
| "prefix_len (Prefixed p) = length p"

fun iter_with_separator :: "store_prefix \<Rightarrow> bytes" where
  "iter_with_separator Unprefixed = []"
| "iter_with_separator (Prefixed p) = p @ [SEPARATOR]"

record ('k, 'v) store =
  PREFIX :: store_prefix
  encode_key :: "'k \<Rightarrow> bytes"
  decode_key :: "bytes \<Rightarrow> std_error + 'k"
  encode_value :: "'v \<Rightarrow> bytes"
  decode_value :: "bytes \<Rightarrow> std_error + 'v"

definition raw_key :: "('k, 'v) store \<Rightarrow> 'k \<Rightarrow> bytes" where
  "raw_key S k = iter_with_separator (PREFIX S) @ encode_key S k"

type_synonym storage = "bytes \<Rightarrow> bytes option"

definition maybe_read :: "('k, 'v) store \<Rightarrow> storage \<Rightarrow> 'k \<Rightarrow> std_error + 'v option" where
  "maybe_read S st k =
     (case st (raw_key S k) of
       Some v \<Rightarrow> bindE (decode_value S v) (\<lambda>x. Inr (Some x))
     | None \<Rightarrow> Inr None)"

definition read_store :: "('k, 'v) store \<Rightarrow> storage \<Rightarrow> 'k \<Rightarrow> std_error + 'v" where
  "read_store S st k = bindE (maybe_read S st k) (ok_or (GenericErr ''key not present''))"

definition write_store :: "('k, 'v) store \<Rightarrow> 'k \<Rightarrow> 'v \<Rightarrow> storage \<Rightarrow> storage" where
  "write_store S k v st = st(raw_key S k \<mapsto> encode_value S v)"

definition delete_store :: "('k, 'v) store \<Rightarrow> 'k \<Rightarrow> storage \<Rightarrow> storage" where
  "delete_store S k st = st(raw_key S k := None)"

definition take_store :: "('k, 'v) store \<Rightarrow> 'k \<Rightarrow> storage \<Rightarrow> std_error + ('v option \<times> storage)" where
  "take_store S k st =
     bindE (maybe_read S st k) (\<lambda>v.
       Inr (v, if v \<noteq> None then st(raw_key S k := None) else st))"

definition upsert :: "('k, 'v) store \<Rightarrow> (std_error \<Rightarrow> 'e) \<Rightarrow> 'k \<Rightarrow> ('v option \<Rightarrow> 'e + 'v) \<Rightarrow> storage
    \<Rightarrow> 'e + ('v \<times> storage)" where
  "upsert S from_std k f st =
     bindE (map_err from_std (maybe_read S st k)) (\<lambda>value.
     bindE (f value) (\<lambda>v. Inr (v, write_store S k v st)))"

definition update_store :: "('k, 'v) store \<Rightarrow> (std_error \<Rightarrow> 'e) \<Rightarrow> 'k \<Rightarrow> ('v \<Rightarrow> 'e + ('r \<times> 'v)) \<Rightarrow> storage
    \<Rightarrow> 'e + ('r \<times> storage)" where
  "update_store S from_std k f st =
     bindE (map_err from_std (read_store S st k)) (\<lambda>v.
     bindE (f v) (\<lambda>(r, v'). Inr (r, write_store S k v' st)))"

text \<open>\<open>increment_item\<close>; \<open>add1\<close> is the \<open>checked_add\<close> of one on the value type.\<close>

definition increment_item :: "(unit, 'v) store \<Rightarrow> ('v \<Rightarrow> 'v option) \<Rightarrow> storage \<Rightarrow> std_error + ('v \<times> storage)" where
  "increment_item S add1 st =
     bindE (read_store S st ()) (\<lambda>value.
     bindE (ok_or OverflowErr (add1 value)) (\<lambda>v. Inr (v, write_store S () v st)))"

section \<open>Iteration\<close>

text \<open>Byte strings are ordered lexicographically by the database.\<close>

fun bytes_less :: "bytes \<Rightarrow> bytes \<Rightarrow> bool" where
  "bytes_less _ [] = False"
| "bytes_less [] (y # ys) = True"
| "bytes_less (x # xs) (y # ys) \<longleftrightarrow> x < y \<or> x = y \<and> bytes_less xs ys"

text \<open>The loop of \<open>key_plus_one\<close>, on the reversed key; the flag says whether it broke out.\<close>

fun increment_rev :: "bytes \<Rightarrow> bool \<times> bytes" where
  "increment_rev [] = (False, [])"
| "increment_rev (b # bs) =
     (if b = 255 then (let (brk, bs') = increment_rev bs in (brk, 0 # bs')) else (True, (b + 1) # bs))"

definition key_plus_one :: "bytes \<Rightarrow> bytes" where
  "key_plus_one raw =
     (let (brk, bs) = increment_rev (rev raw) in if brk then rev bs else rev bs @ [0])"

datatype 'k key_bound = Included 'k | Excluded 'k | Unbounded

fun range_from :: "('k, 'v) store \<Rightarrow> 'k key_bound \<Rightarrow> bytes" where
  "range_from S (Included k) = raw_key S k"
| "range_from S (Excluded k) = key_plus_one (raw_key S k)"
| "range_from S Unbounded = iter_with_separator (PREFIX S)"

fun range_to :: "('k, 'v) store \<Rightarrow> 'k key_bound \<Rightarrow> bytes" where
  "range_to S (Included k) = key_plus_one (raw_key S k)"
| "range_to S (Excluded k) = raw_key S k"
| "range_to S Unbounded = key_plus_one (iter_with_separator (PREFIX S))"

text \<open>Is the raw key one of those that \<open>iter_range\<close> visits?\<close>

definition in_range :: "('k, 'v) store \<Rightarrow> 'k key_bound \<Rightarrow> 'k key_bound \<Rightarrow> bytes \<Rightarrow> bool" where
  "in_range S lo hi raw \<longleftrightarrow> \<not> bytes_less raw (range_from S lo) \<and> bytes_less raw (range_to S hi)"

definition iter_entry :: "('k, 'v) store \<Rightarrow> bytes \<times> bytes \<Rightarrow> std_error + ('k \<times> 'v)" where
  "iter_entry S kv =
     (case kv of (k, v) \<Rightarrow>
       bindE (if prefix_len (PREFIX S) + 1 \<le> length k then Inr (drop (prefix_len (PREFIX S) + 1) k)
              else Inl (GenericErr ''unable to decode key, missing prefix bytes'')) (\<lambda>key.
       bindE (decode_key S key) (\<lambda>k'.
       bindE (decode_value S v) (\<lambda>v'. Inr (k', v')))))"

section \<open>What the contracts rely on\<close>

lemma prefixed_key_eq:
  assumes "SEPARATOR \<notin> set p" "SEPARATOR \<notin> set q"
  shows "p @ SEPARATOR # xs = q @ SEPARATOR # ys \<longleftrightarrow> p = q \<and> xs = ys"
  using assms
proof (induction p arbitrary: q)
  case Nil
  then show ?case by (cases q) auto
next
  case (Cons a p)
  then show ?case by (cases q) auto
qed

locale lawful_store =
  fixes S :: "('k, 'v) store"
    and prefix :: bytes
    and valid_key :: "'k \<Rightarrow> bool"
    and valid_value :: "'v \<Rightarrow> bool"
  assumes prefix: "PREFIX S = Prefixed prefix"
    and prefix_zero_free: "SEPARATOR \<notin> set prefix"
    and key_roundtrip: "valid_key k \<Longrightarrow> decode_key S (encode_key S k) = Inr k"
    and value_roundtrip: "valid_value v \<Longrightarrow> decode_value S (encode_value S v) = Inr v"
begin

lemma raw_key: "raw_key S k = prefix @ SEPARATOR # encode_key S k"
  by (simp add: raw_key_def prefix)

lemma raw_key_inj: "valid_key k \<Longrightarrow> valid_key k' \<Longrightarrow> raw_key S k = raw_key S k' \<longleftrightarrow> k = k'"
  using key_roundtrip by (metis (no_types) Inr_inject append_same_eq list.inject raw_key same_append_eq)

lemma read_write:
  assumes "valid_key k" "valid_key k'" "valid_value v"
  shows "maybe_read S (write_store S k v st) k' = (if k' = k then Inr (Some v) else maybe_read S st k')"
  using raw_key_inj [OF assms(2,1)] by (simp add: maybe_read_def write_store_def value_roundtrip [OF assms(3)])

lemma read_delete:
  assumes "valid_key k" "valid_key k'"
  shows "maybe_read S (delete_store S k st) k' = (if k' = k then Inr None else maybe_read S st k')"
  using raw_key_inj [OF assms(2,1)] by (simp add: maybe_read_def delete_store_def)

lemma upsert_read:
  assumes "valid_key k" "upsert S from_std k f st = Inr (v, st')" "valid_value v"
  shows "maybe_read S st' k = Inr (Some v)"
  using assms read_write [OF assms(1,1,3)] by (auto simp: upsert_def bindE_eq_Inr)

text \<open>A write to one store is invisible in every store with another prefix.\<close>

lemma other_store:
  assumes "PREFIX T = Prefixed q" "SEPARATOR \<notin> set q" "q \<noteq> prefix"
  shows "maybe_read T (write_store S k v st) k' = maybe_read T st k'"
proof -
  have "raw_key T k' \<noteq> raw_key S k"
    using assms prefixed_key_eq [OF assms(2) prefix_zero_free] by (simp add: raw_key_def prefix)
  then show ?thesis by (simp add: maybe_read_def write_store_def)
qed

end

end
