(* ===== verification/Core_Codec.thy ===== *)
theory Core_Codec
  imports Depolama
begin

text \<open>
  The stores of the IBC core contract (\<open>cosmwasm/core/src/state.rs\<close>, \<open>access-managed/src/state.rs\<close>):
  their prefixes and the key and value codecs that are written in the contract. Values that are
  encoded by the \<open>bincode\<close> crate, and the validity check of UTF-8 strings, are not modelled here.
\<close>

section \<open>Codecs\<close>

definition u32_to_be :: "u32 \<Rightarrow> bytes" where
  "u32_to_be x = to_be_bytes 4 (unat x)"

definition u32_from_be :: "bytes \<Rightarrow> u32" where
  "u32_from_be bs = word_of_nat (from_be_bytes bs)"

definition u64_to_be :: "u64 \<Rightarrow> bytes" where
  "u64_to_be x = to_be_bytes 8 (unat x)"

definition u64_from_be :: "bytes \<Rightarrow> u64" where
  "u64_from_be bs = word_of_nat (from_be_bytes bs)"

definition read_fixed_bytes :: "nat \<Rightarrow> bytes \<Rightarrow> std_error + bytes" where
  "read_fixed_bytes n raw = (if length raw = n then Inr raw else Inl (GenericErr ''invalid key''))"

definition invalid_id :: std_error where
  "invalid_id = GenericErr ''invalid id, must be > 0''"

definition id_encode :: "u32 \<Rightarrow> bytes" where
  "id_encode i = u32_to_be i"

definition id_decode :: "bytes \<Rightarrow> std_error + u32" where
  "id_decode raw = bindE (read_fixed_bytes 4 raw) (\<lambda>bs. ok_or invalid_id (id_from_raw (u32_from_be bs)))"

definition unit_encode_key :: "unit \<Rightarrow> bytes" where
  "unit_encode_key u = []"

definition unit_decode_key :: "bytes \<Rightarrow> std_error + unit" where
  "unit_decode_key raw = Inr ()"

definition bytes_encode :: "bytes \<Rightarrow> bytes" where
  "bytes_encode v = v"

definition bytes_decode :: "bytes \<Rightarrow> std_error + bytes" where
  "bytes_decode raw = Inr raw"

definition consensus_encode_key :: "client_id \<times> u64 \<Rightarrow> bytes" where
  "consensus_encode_key k = u32_to_be (fst k) @ u64_to_be (snd k)"

definition consensus_decode_key :: "bytes \<Rightarrow> std_error + (client_id \<times> u64)" where
  "consensus_decode_key raw =
     bindE (read_fixed_bytes 12 raw) (\<lambda>arr.
     bindE (ok_or invalid_id (id_from_raw (u32_from_be (take 4 arr)))) (\<lambda>cl.
       Inr (cl, u64_from_be (take 8 (drop 4 arr)))))"

text \<open>\<open>ClientStore<S>\<close> nests the store \<open>S\<close> of a light client under its client identifier.\<close>

definition client_store_encode_key :: "('k, 'v) store \<Rightarrow> client_id \<times> 'k \<Rightarrow> bytes" where
  "client_store_encode_key S k = u32_to_be (fst k) @ iter_with_separator (PREFIX S) @ encode_key S (snd k)"

definition client_store_decode_key :: "('k, 'v) store \<Rightarrow> bytes \<Rightarrow> std_error + (client_id \<times> 'k)" where
  "client_store_decode_key S raw =
     (if 4 \<le> length raw then
        bindE (ok_or invalid_id (id_from_raw (u32_from_be (take 4 raw)))) (\<lambda>cl.
        bindE (decode_key S (drop 4 raw)) (\<lambda>k. Inr (cl, k)))
      else Inl (GenericErr ''invalid key''))"

definition raw_store :: "(bytes, bytes) store" where
  "raw_store = \<lparr>PREFIX = Unprefixed, encode_key = bytes_encode, decode_key = bytes_decode,
     encode_value = bytes_encode, decode_value = bytes_decode\<rparr>"

definition h256_encode :: "h256 \<Rightarrow> bytes" where
  "h256_encode h = h256_bytes h"

definition h256_decode :: "bytes \<Rightarrow> std_error + h256" where
  "h256_decode raw = bindE (read_fixed_bytes 32 raw) (\<lambda>bs. Inr (h256_of_bytes bs))"

text \<open>A \<open>BTreeSet\<close> of channel identifiers is stored as the concatenation of its elements.\<close>

definition channel_set_encode :: "u32 set \<Rightarrow> bytes" where
  "channel_set_encode s = concat (map u32_to_be (sorted_list_of_set s))"

fun chunks_exact4 :: "bytes \<Rightarrow> bytes list" where
  "chunks_exact4 (a # b # c # d # bs) = [a, b, c, d] # chunks_exact4 bs"
| "chunks_exact4 _ = []"

fun collect_ids :: "bytes list \<Rightarrow> std_error + u32 list" where
  "collect_ids [] = Inr []"
| "collect_ids (c # cs) =
     bindE (ok_or (GenericErr ''channel ids must be non-zero'') (id_from_raw (u32_from_be c))) (\<lambda>i.
     bindE (collect_ids cs) (\<lambda>is. Inr (i # is)))"

definition channel_set_decode :: "bytes \<Rightarrow> std_error + u32 set" where
  "channel_set_decode raw =
     (if length raw mod 4 \<noteq> 0 then Inl (GenericErr ''invalid length; expected multiple of 4 bytes'')
      else bindE (collect_ids (chunks_exact4 raw)) (\<lambda>is.
        if card (set is) \<noteq> length raw div 4 then Inl (GenericErr ''duplicate elements in set'')
        else Inr (set is)))"

section \<open>Stores\<close>

definition str_bytes :: "string \<Rightarrow> bytes" where
  "str_bytes s = map (\<lambda>c. word_of_nat (of_char c)) s"

definition client_states_store :: "(client_id, bytes) store" where
  "client_states_store = \<lparr>PREFIX = Prefixed (str_bytes ''client_states''),
     encode_key = id_encode, decode_key = id_decode, encode_value = bytes_encode, decode_value = bytes_decode\<rparr>"

definition client_consensus_states_store :: "(client_id \<times> u64, bytes) store" where
  "client_consensus_states_store = \<lparr>PREFIX = Prefixed (str_bytes ''client_consensus_states''),
     encode_key = consensus_encode_key, decode_key = consensus_decode_key,
     encode_value = bytes_encode, decode_value = bytes_decode\<rparr>"

definition client_store_store :: "(client_id \<times> bytes, bytes) store" where
  "client_store_store = \<lparr>PREFIX = Prefixed (str_bytes ''client_store''),
     encode_key = client_store_encode_key raw_store, decode_key = client_store_decode_key raw_store,
     encode_value = bytes_encode, decode_value = bytes_decode\<rparr>"

definition query_store_store :: "(unit, bytes) store" where
  "query_store_store = \<lparr>PREFIX = Prefixed (str_bytes ''query_store''),
     encode_key = unit_encode_key, decode_key = unit_decode_key, encode_value = bytes_encode, decode_value = bytes_decode\<rparr>"

definition next_id_store :: "string \<Rightarrow> (unit, u32) store" where
  "next_id_store name = \<lparr>PREFIX = Prefixed (str_bytes name),
     encode_key = unit_encode_key, decode_key = unit_decode_key, encode_value = id_encode, decode_value = id_decode\<rparr>"

definition commitments_store :: "(h256, h256) store" where
  "commitments_store = \<lparr>PREFIX = Prefixed (str_bytes ''''),
     encode_key = h256_encode, decode_key = h256_decode, encode_value = h256_encode, decode_value = h256_decode\<rparr>"

definition core_prefixes :: "bytes list" where
  "core_prefixes = map str_bytes
     [''query_store'', ''channel_owner'', ''channels'', ''contract_channels'', ''connections'', ''client_states'',
      ''client_consensus_states'', ''client_registry'', ''client_types'', ''client_impls'', ''client_store'',
      ''next_client_id'', ''next_connection_id'', ''next_channel_id'', '''', ''authority'', ''consuming_schedule'']"

section \<open>Round trips\<close>

lemma length_u32_to_be [simp]: "length (u32_to_be x) = 4"
  by (simp add: u32_to_be_def)

lemma length_u64_to_be [simp]: "length (u64_to_be x) = 8"
  by (simp add: u64_to_be_def)

lemma u32_from_to_be [simp]: "u32_from_be (u32_to_be x) = x"
proof -
  have "unat x < 256 ^ 4" using unsigned_less [of x] by simp
  then show ?thesis by (simp only: u32_from_be_def u32_to_be_def from_to_be_bytes of_nat_unat ucast_id)
qed

lemma u64_from_to_be [simp]: "u64_from_be (u64_to_be x) = x"
proof -
  have "unat x < 256 ^ 8" using unsigned_less [of x] by simp
  then show ?thesis by (simp only: u64_from_be_def u64_to_be_def from_to_be_bytes of_nat_unat ucast_id)
qed

lemma id_roundtrip: "i \<noteq> 0 \<Longrightarrow> id_decode (id_encode i) = Inr i"
  by (simp add: id_decode_def id_encode_def read_fixed_bytes_def id_from_raw_def)

lemma consensus_key_roundtrip: "fst k \<noteq> 0 \<Longrightarrow> consensus_decode_key (consensus_encode_key k) = Inr k"
  by (simp add: consensus_decode_key_def consensus_encode_key_def read_fixed_bytes_def id_from_raw_def)

lemma client_store_key_roundtrip:
  "fst k \<noteq> 0 \<Longrightarrow> client_store_decode_key raw_store (client_store_encode_key raw_store k) = Inr k"
  by (simp add: client_store_decode_key_def client_store_encode_key_def raw_store_def id_from_raw_def
      bytes_decode_def bytes_encode_def)

lemma h256_roundtrip: "h256_decode (h256_encode h) = Inr h"
  by (simp add: h256_decode_def h256_encode_def read_fixed_bytes_def)

lemma chunks_exact4_append: "length bs = 4 \<Longrightarrow> chunks_exact4 (bs @ cs) = bs # chunks_exact4 cs"
  by (auto simp: length_Suc_conv numeral_eq_Suc)

lemma collect_ids_encode:
  "0 \<notin> set is \<Longrightarrow> collect_ids (chunks_exact4 (concat (map u32_to_be is))) = Inr is"
  by (induction "is") (auto simp: chunks_exact4_append id_from_raw_def)

lemma length_concat_u32: "length (concat (map u32_to_be is)) = 4 * length is"
  by (induction "is") simp_all

lemma channel_set_roundtrip:
  assumes "0 \<notin> s"
  shows "channel_set_decode (channel_set_encode s) = Inr s"
proof -
  have s: "finite s" by (rule finite)
  then have "collect_ids (chunks_exact4 (concat (map u32_to_be (sorted_list_of_set s)))) =
      Inr (sorted_list_of_set s)"
    using assms by (intro collect_ids_encode) simp
  with s show ?thesis
    by (simp add: channel_set_decode_def channel_set_encode_def length_concat_u32)
qed

lemma collect_ids_length: "collect_ids cs = Inr is \<Longrightarrow> length is = length cs \<and> 0 \<notin> set is"
  by (induction cs arbitrary: "is") (auto simp: bindE_eq_Inr ok_or_eq_Inr id_from_raw_def split: if_splits)

lemma length_chunks: "length bs mod 4 = 0 \<Longrightarrow> length (chunks_exact4 bs) = length bs div 4"
proof (induction bs rule: chunks_exact4.induct)
  case (1 a b c d bs)
  then have "length bs mod 4 = 0" by (simp add: mod_Suc split: if_splits)
  with 1 show ?case by simp
qed simp_all

lemma zero_free_prefixes: "\<forall>p \<in> set core_prefixes. SEPARATOR \<notin> set p"
  by (simp add: core_prefixes_def str_bytes_def SEPARATOR_def)

lemma distinct_prefixes: "distinct core_prefixes"
  by (simp add: core_prefixes_def str_bytes_def)

section \<open>The stores are lawful\<close>

lemmas store_defs = client_states_store_def client_consensus_states_store_def client_store_store_def
  query_store_store_def next_id_store_def commitments_store_def

interpretation client_states: lawful_store client_states_store "str_bytes ''client_states''" "\<lambda>k. k \<noteq> 0" "\<lambda>_. True"
  by unfold_locales (simp_all add: store_defs id_roundtrip bytes_encode_def bytes_decode_def str_bytes_def SEPARATOR_def)

interpretation client_consensus_states: lawful_store client_consensus_states_store
  "str_bytes ''client_consensus_states''" "\<lambda>k. fst k \<noteq> 0" "\<lambda>_. True"
  by unfold_locales
    (simp_all add: store_defs consensus_key_roundtrip bytes_encode_def bytes_decode_def str_bytes_def SEPARATOR_def)

interpretation client_store: lawful_store client_store_store "str_bytes ''client_store''" "\<lambda>k. fst k \<noteq> 0" "\<lambda>_. True"
  by unfold_locales
    (simp_all add: store_defs client_store_key_roundtrip bytes_encode_def bytes_decode_def str_bytes_def SEPARATOR_def)

interpretation query_store: lawful_store query_store_store "str_bytes ''query_store''" "\<lambda>_. True" "\<lambda>_. True"
  by unfold_locales
    (simp_all add: store_defs unit_decode_key_def bytes_encode_def bytes_decode_def str_bytes_def SEPARATOR_def)

interpretation next_channel_id: lawful_store "next_id_store ''next_channel_id''" "str_bytes ''next_channel_id''"
  "\<lambda>_. True" "\<lambda>v. v \<noteq> 0"
  by unfold_locales (simp_all add: store_defs id_roundtrip unit_decode_key_def str_bytes_def SEPARATOR_def)

interpretation next_connection_id: lawful_store "next_id_store ''next_connection_id''"
  "str_bytes ''next_connection_id''" "\<lambda>_. True" "\<lambda>v. v \<noteq> 0"
  by unfold_locales (simp_all add: store_defs id_roundtrip unit_decode_key_def str_bytes_def SEPARATOR_def)

interpretation next_client_id: lawful_store "next_id_store ''next_client_id''" "str_bytes ''next_client_id''"
  "\<lambda>_. True" "\<lambda>v. v \<noteq> 0"
  by unfold_locales (simp_all add: store_defs id_roundtrip unit_decode_key_def str_bytes_def SEPARATOR_def)

interpretation commitments: lawful_store commitments_store "[]" "\<lambda>_. True" "\<lambda>_. True"
  by unfold_locales (simp_all add: store_defs h256_roundtrip str_bytes_def)

section \<open>Iteration over a whole store\<close>

text \<open>
  The interval from \<open>p @ [a]\<close> to \<open>p @ [b]\<close>, where \<open>b\<close> is the byte after \<open>a\<close>, holds exactly the
  keys that start with \<open>p @ [a]\<close>.
\<close>

lemma bytes_interval:
  assumes "\<And>c :: u8. \<not> c < a \<Longrightarrow> c < b \<Longrightarrow> c = a" "a < b"
  shows "\<not> bytes_less k (p @ [a]) \<and> bytes_less k (p @ [b]) \<longleftrightarrow> (\<exists>r. k = p @ a # r)"
proof (induction p arbitrary: k)
  case Nil
  show ?case using assms by (cases k) auto
next
  case (Cons x p)
  note ih = Cons.IH
  show ?case
  proof (cases k)
    case (Cons y ys)
    then show ?thesis using ih [of ys] by auto
  qed simp
qed

lemma key_plus_one_separator: "key_plus_one (p @ [SEPARATOR]) = p @ [1]"
  by (simp add: key_plus_one_def SEPARATOR_def)

section \<open>Properties\<close>

text \<open>The prefixes of the contract's stores are pairwise different and free of the separator
  byte, so a raw storage key belongs to one store and one key only: no two stores of the contract
  can overwrite each other.\<close>

theorem stores_do_not_overlap:
  assumes "i < length core_prefixes" "j < length core_prefixes"
    and "iter_with_separator (Prefixed (core_prefixes ! i)) @ k = iter_with_separator (Prefixed (core_prefixes ! j)) @ k'"
  shows "i = j \<and> k = k'"
  using assms zero_free_prefixes prefixed_key_eq [of "core_prefixes ! i" "core_prefixes ! j" k k']
    nth_eq_iff_index_eq [OF distinct_prefixes] by auto

theorem stores_do_not_overlap_witness:
  "(2 :: nat) = 2 \<and> [0, 0, 0, 1 :: u8] = [0, 0, 0, 1]"
  by (rule stores_do_not_overlap) (simp_all add: core_prefixes_def)

text \<open>The set of channels of a contract survives its encoding: decoding the stored bytes
  gives back the set, for every set of non-zero identifiers.\<close>

theorem contract_channels_roundtrip:
  assumes "0 \<notin> s"
  shows "channel_set_decode (channel_set_encode s) = Inr s"
  using assms by (rule channel_set_roundtrip)

theorem contract_channels_roundtrip_witness:
  "channel_set_decode (channel_set_encode {1, 2, 3}) = Inr {1, 2, 3}"
  by (rule contract_channels_roundtrip) simp

text \<open>The decoder of channel sets accepts only canonical data: whatever it accepts is a
  concatenation of four-byte blocks, as many as the set has elements, none of them zero.\<close>

theorem contract_channels_canonical:
  assumes "channel_set_decode raw = Inr s"
  shows "length raw = 4 * card s \<and> 0 \<notin> s"
  using assms collect_ids_length
  by (fastforce simp: channel_set_decode_def bindE_eq_Inr split: if_splits)

theorem contract_channels_canonical_witness:
  "length (channel_set_encode {1, 2}) = 4 * card {1, 2 :: u32} \<and> 0 \<notin> {1, 2 :: u32}"
  by (rule contract_channels_canonical) (rule channel_set_roundtrip, simp)

text \<open>An unbounded iteration over a prefixed store visits exactly the raw keys that start
  with the prefix and the separator: all entries of the store, and none of another.\<close>

theorem iterate_whole_store:
  assumes "PREFIX S = Prefixed p"
  shows "in_range S Unbounded Unbounded raw \<longleftrightarrow> (\<exists>k. raw = iter_with_separator (PREFIX S) @ k)"
proof -
  have "\<not> bytes_less raw (p @ [0]) \<and> bytes_less raw (p @ [1]) \<longleftrightarrow> (\<exists>r. raw = p @ 0 # r)"
    by (rule bytes_interval) (simp_all add: word_less_nat_alt word_unat_eq_iff)
  with assms show ?thesis
    by (simp add: in_range_def key_plus_one_separator) (simp add: SEPARATOR_def)
qed

theorem iterate_whole_store_witness:
  "in_range client_states_store Unbounded Unbounded (raw_key client_states_store 7) \<longleftrightarrow>
   (\<exists>k. raw_key client_states_store 7 = iter_with_separator (PREFIX client_states_store) @ k)"
  by (rule iterate_whole_store) (simp add: client_states_store_def)

text \<open>An unbounded iteration over an un-prefixed store such as \<open>RawStore\<close> visits at most the
  empty key, although the code means to include everything: the exclusive upper bound is the
  successor of the empty byte string.\<close>

theorem iterate_raw_store_empty: "in_range raw_store Unbounded Unbounded raw \<longleftrightarrow> raw = []"
  by (cases raw) (auto simp: in_range_def raw_store_def key_plus_one_def)

text \<open>\<open>ClientStore<S>\<close> does not decode the keys it encodes when \<open>S\<close> has a prefix: the
  prefix and its separator are encoded but not stripped before \<open>S::decode_key\<close> is called. Here
  \<open>S\<close> is the store of consensus states.\<close>

theorem client_store_prefix_not_stripped:
  "client_store_decode_key client_consensus_states_store
     (client_store_encode_key client_consensus_states_store (1, (2, 3))) = Inl (GenericErr ''invalid key'')"
  by (simp add: client_store_decode_key_def client_store_encode_key_def client_consensus_states_store_def
      consensus_decode_key_def consensus_encode_key_def read_fixed_bytes_def id_from_raw_def str_bytes_def)

end
