(* ===== verification/Frissitheto.thy ===== *)
theory Frissitheto
  imports Prelude
begin

text \<open>
  Versioned upgrades (\<open>lib/frissitheto\<close>). A contract keeps a state version under a reserved key;
  \<open>UpgradeMsg::run\<close> dispatches its \<open>migrate\<close> entry point to an initialisation or to a migration,
  depending on whether the version is there. The storage is a type parameter, the version is read
  and written through \<open>ver\<close> and \<open>put\<close>, and \<open>err\<close> embeds the errors of this crate in those of the
  contract. The locale \<open>versioned\<close> states what a contract has to provide and shows what it gets;
  the core contract and the access manager interpret it.
\<close>

datatype upgrade_error =
    AlreadyInitiated
  | NotInitiated
  | UnknownStateVersion u32
  | StateVersionMustIncreaseIfModified u32 u32

datatype 'i upgrade_msg = UpgradeInit 'i | UpgradeMigrate

definition upgrade_run :: "(upgrade_error \<Rightarrow> 'e) \<Rightarrow> ('s \<Rightarrow> u32 option) \<Rightarrow> (u32 \<Rightarrow> 's \<Rightarrow> 's) \<Rightarrow> 'i upgrade_msg
    \<Rightarrow> ('i \<Rightarrow> 's \<Rightarrow> 'e + (('r \<times> u32 option) \<times> 's)) \<Rightarrow> (u32 \<Rightarrow> 's \<Rightarrow> 'e + (('r \<times> u32 option) \<times> 's)) \<Rightarrow> 's \<Rightarrow> 'e + 'r \<times> 's"
  where
  "upgrade_run err ver put msg init_f migrate_f s =
     (case ver s of
       Some cur \<Rightarrow>
         (case msg of
           UpgradeInit _ \<Rightarrow> Inl (err AlreadyInitiated)
         | UpgradeMigrate \<Rightarrow>
             bindE (migrate_f cur s) (\<lambda>((res, new_version), s1).
             case new_version of
               Some v \<Rightarrow> if v \<le> cur then Inl (err (StateVersionMustIncreaseIfModified cur v))
                         else Inr (res, put v s1)
             | None \<Rightarrow> Inr (res, put cur s1)))
     | None \<Rightarrow>
         (case msg of
           UpgradeInit m \<Rightarrow>
             bindE (init_f m s) (\<lambda>((res, v), s1).
             Inr (res, put (case v of None \<Rightarrow> 1 | Some v \<Rightarrow> v) s1))
         | UpgradeMigrate \<Rightarrow> Inl (err NotInitiated)))"

text \<open>\<open>init_state_version\<close>; \<open>e\<close> is the embedding of \<open>InitStateVersionError::AlreadyInitiated\<close>.\<close>

definition init_state_version :: "'e \<Rightarrow> ('s \<Rightarrow> u32 option) \<Rightarrow> (u32 \<Rightarrow> 's \<Rightarrow> 's) \<Rightarrow> u32 \<Rightarrow> 's \<Rightarrow> 'e + 's" where
  "init_state_version e ver put v s = (if ver s \<noteq> None then Inl e else Inr (put v s))"

locale versioned =
  fixes err :: "upgrade_error \<Rightarrow> 'e"
    and ver :: "'s \<Rightarrow> u32 option"
    and put :: "u32 \<Rightarrow> 's \<Rightarrow> 's"
    and init_f :: "'i \<Rightarrow> 's \<Rightarrow> 'e + (('r \<times> u32 option) \<times> 's)"
    and migrate_f :: "u32 \<Rightarrow> 's \<Rightarrow> 'e + (('r \<times> u32 option) \<times> 's)"
  assumes ver_put: "ver (put v s) = Some v"
begin

lemma run_sets_version:
  assumes "upgrade_run err ver put msg init_f migrate_f s = Inr (r, s')"
  shows "ver s' \<noteq> None"
  using assms by (auto simp: upgrade_run_def ver_put bindE_eq_Inr split: option.splits upgrade_msg.splits if_splits)

lemma init_once:
  assumes "ver s \<noteq> None"
  shows "upgrade_run err ver put (UpgradeInit m) init_f migrate_f s = Inl (err AlreadyInitiated)"
  using assms by (auto simp: upgrade_run_def)

lemma version_grows:
  assumes "upgrade_run err ver put msg init_f migrate_f s = Inr (r, s')" "ver s = Some v"
  shows "\<exists>v'. ver s' = Some v' \<and> v \<le> v'"
  using assms by (auto simp: upgrade_run_def ver_put bindE_eq_Inr split: option.splits upgrade_msg.splits if_splits)

end

end
