(* ===== verification/Core_State.thy ===== *)
theory Core_State
  imports Core_Codec Frissitheto
begin

text \<open>
  The state, errors, events and messages of the IBC core contract (\<open>cosmwasm/core/src\<close> and
  \<open>cosmwasm/core/msg/src\<close>). Each typed store of \<open>state.rs\<close> is a map of the record \<open>core_state\<close>; a
  handler is a function from the state to an error or a response and a new state, so an error
  discards every write, as a failed CosmWasm call does. The chain around the contract (the hash and
  the encoders, address validation, queries to other contracts) is the record \<open>host\<close>, a parameter of
  every handler.
\<close>

section \<open>Light client queries\<close>

datatype light_client_query =
    GetTimestamp client_id u64
  | GetLatestHeight client_id
  | GetStatus client_id
  | VerifyCreation addr client_id addr
  | VerifyMembership client_id u64 bytes bytes bytes
  | VerifyNonMembership client_id u64 bytes bytes
  | UpdateState addr client_id addr
  | MisbehaviourQ addr client_id addr

datatype verify_creation_response_event = CreateLensClientEv client_id client_id string

type_synonym storage_writes = "(bytes \<times> bytes) list"

record verify_creation_response =
  vcr_counterparty_chain_id :: string
  vcr_client_state_bytes :: "bytes option"
  vcr_storage_writes :: storage_writes
  vcr_events :: "verify_creation_response_event list"

record update_state_response =
  usr_height :: u64
  usr_client_state_bytes :: "bytes option"
  usr_consensus_state_bytes :: bytes
  usr_storage_writes :: storage_writes

record misbehaviour_response =
  mr_client_state_bytes :: bytes

section \<open>Errors\<close>

datatype access_managed_error =
    AccessManagedUnauthorized addr
  | AccessManagedRequiredDelay addr u32
  | AccessManagedInvalidAuthority addr
  | AccessManagedStd std_error

datatype (plugins only: code) contract_error =
    Std std_error
  | AccessManagedErr access_managed_error
  | MigrateErr upgrade_error
  | ClientTypeAlreadyExists
  | ArithmeticOverflow
  | CounterpartyChannelIdInvalid
  | CounterpartyConnectionIdInvalid
  | ConnectionInvalidState connection_state connection_state
  | ChannelInvalidState channel_state channel_state
  | ReceivedTimedOutPacketHeight u64 u64
  | ReceivedTimedOutPacketTimestamp timestamp timestamp
  | Unauthorized channel_id addr addr
  | PacketNotReceived
  | AlreadyAcknowledged
  | TimeoutMustBeSet
  | TimeoutTimestampNotReached
  | ChannelNotExist u32
  | PacketAlreadyAcknowledged
  | PacketCommitmentNotFound
  | TimeoutProofTimestampNotFound
  | NotEnoughPackets
  | AcknowledgementIsEmpty
  | AcknowledgementMismatch h256 h256
  | PacketCommitmentAlreadyExist
  | UnauthorizedMigration client_id addr addr
  | CannotMigrateWithNoClientState client_id
  | CannotMigrateWithNoConsensusState client_id u64
  | CannotQueryLightClient addr light_client_query std_error
  | ClientNotActive client_id status
  | BatchSameChannelOnly
  | OnlyWhitelistedRelayer
  | OnlyRelayerAdmin
  | Panic string

section \<open>Events, messages and responses\<close>

datatype (plugins only: code) ibc_event =
    RegisterClientEv string addr
  | CreateClientEv client_id string string
  | UpdateClientEv client_id u64
  | ForceUpdateClientEv client_id u64
  | MisbehaviourEv client_id
  | ConnectionOpenInitEv connection_id client_id client_id
  | ConnectionOpenTryEv connection_id client_id client_id connection_id
  | ConnectionOpenAckEv connection_id client_id client_id connection_id
  | ConnectionOpenConfirmEv connection_id client_id client_id connection_id
  | ChannelOpenInitEv addr channel_id bytes connection_id string
  | ChannelOpenTryEv addr channel_id bytes channel_id connection_id string
  | ChannelOpenAckEv addr channel_id bytes channel_id connection_id
  | ChannelOpenConfirmEv addr channel_id bytes channel_id connection_id
  | ChannelCloseInitEv addr channel_id bytes channel_id
  | ChannelCloseConfirmEv addr channel_id bytes channel_id
  | PacketSendEv channel_id channel_id bytes u64 timestamp channel_id h256
  | BatchSendEv channel_id h256 h256
  | BatchAcksEv channel_id h256 h256
  | PacketRecvEv channel_id h256 addr bytes
  | IntentPacketRecvEv channel_id h256 addr bytes
  | PacketAckEv channel_id h256 bytes addr
  | WriteAckEv channel_id h256 bytes
  | TimeoutPacketEv channel_id h256 addr
  | CommitMembershipProofEv client_id u64 bytes bytes
  | CommitNonMembershipProofEv client_id u64 bytes
  | CreateLensClientEvent client_id client_id client_id string
  | AuthorityUpdatedEv addr
  | UpgradeEv u64 string

text \<open>\<open>IbcUnionMsg\<close>: the callbacks into the module (port) that owns a channel.\<close>

datatype (plugins only: code) ibc_union_msg =
    OnChannelOpenInit addr connection_id channel_id string addr
  | OnChannelOpenTry addr connection_id channel_id string string addr
  | OnChannelOpenAck addr channel_id channel_id string addr
  | OnChannelOpenConfirm addr channel_id addr
  | OnChannelCloseInit addr channel_id addr
  | OnChannelCloseConfirm addr channel_id addr
  | OnIntentRecvPacket addr packet addr bytes
  | OnRecvPacket addr packet addr bytes
  | OnAcknowledgementPacket addr packet bytes addr
  | OnTimeoutPacket addr packet addr

type_synonym coins = "(string \<times> nat) list"

record message_info =
  sender :: addr
  funds :: coins

record block_env =
  contract_address :: addr
  block_time :: timestamp

datatype upgradable = Upgrade u64 string

datatype (plugins only: code) restricted_msg =
    RegisterClient string string
  | CreateClient string bytes bytes string
  | UpdateClient client_id bytes string
  | ForceUpdateClient client_id bytes bytes
  | Misbehaviour client_id bytes string
  | ConnectionOpenInit client_id client_id
  | ConnectionOpenTry client_id connection_id client_id bytes u64
  | ForceConnectionOpenTry client_id connection_id client_id bytes u64
  | ConnectionOpenAck connection_id connection_id bytes u64
  | ForceConnectionOpenAck connection_id connection_id bytes u64
  | ConnectionOpenConfirm connection_id bytes u64
  | ForceConnectionOpenConfirm connection_id bytes u64
  | ChannelOpenInit string bytes connection_id string string
  | ChannelOpenTry string channel string bytes u64 string
  | ForceChannelOpenTry string channel string bytes u64 string
  | ChannelOpenAck channel_id string channel_id bytes u64 string
  | ForceChannelOpenAck channel_id string channel_id bytes u64 string
  | ChannelOpenConfirm channel_id bytes u64 string
  | ForceChannelOpenConfirm channel_id bytes u64 string
  | ChannelCloseInit channel_id string
  | ChannelCloseConfirm channel_id bytes u64 string
  | PacketRecv "packet list" "bytes list" string bytes u64
  | PacketAck "packet list" "bytes list" bytes u64 string
  | PacketTimeout packet bytes u64 string
  | IntentPacketRecv "packet list" "bytes list" string
  | BatchSend "packet list"
  | BatchAcks "packet list" "bytes list"
  | CommitMembershipProof client_id u64 bytes bytes bytes
  | CommitNonMembershipProof client_id u64 bytes bytes
  | Upgradable upgradable

datatype execute_msg =
    PacketSend channel_id timestamp bytes
  | WriteAcknowledgement packet bytes
  | MigrateState client_id bytes bytes u64
  | SetAuthority addr
  | Restricted restricted_msg

datatype wasm_msg =
    CallModule addr ibc_union_msg coins
  | Migrate addr u64 string

text \<open>The two submessages of a delayed call; the second asks for a reply on success.\<close>

datatype sub_msg =
    ConsumeScheduledOp addr addr restricted_msg
  | ExecuteSelf addr restricted_msg u64

record response =
  r_events :: "ibc_event list"
  r_messages :: "wasm_msg list"
  r_submessages :: "sub_msg list"
  r_data :: "packet option"

definition response_new :: response where
  "response_new = \<lparr>r_events = [], r_messages = [], r_submessages = [], r_data = None\<rparr>"

definition respond :: "ibc_event list \<Rightarrow> wasm_msg list \<Rightarrow> response" where
  "respond evs msgs = response_new\<lparr>r_events := evs, r_messages := msgs\<rparr>"

section \<open>State\<close>

record core_state =
  channel_owner :: "channel_id \<Rightarrow> addr option"
  channels :: "channel_id \<Rightarrow> channel option"
  contract_channels :: "addr \<Rightarrow> channel_id set option"
  connections :: "connection_id \<Rightarrow> connection option"
  client_states :: "client_id \<Rightarrow> bytes option"
  client_consensus_states :: "client_id \<times> u64 \<Rightarrow> bytes option"
  client_registry :: "string \<Rightarrow> addr option"
  client_types :: "client_id \<Rightarrow> string option"
  client_impls :: "client_id \<Rightarrow> addr option"
  client_store :: "client_id \<times> bytes \<Rightarrow> bytes option"
  next_client_id :: "client_id option"
  next_connection_id :: "connection_id option"
  next_channel_id :: "channel_id option"
  commitments :: "h256 \<Rightarrow> h256 option"
  query_store :: "bytes option"
  authority :: "addr option"
  consuming_schedule :: "bool option"
  state_version :: "u32 option"

type_synonym handler_result = "contract_error + response \<times> core_state"

datatype can_call = Immediate | NotAuthorized | WithDelay u32

text \<open>
  The chain: queries to a light client see the writes made so far in the call, so the state is an
  argument of each of them.
\<close>

record host = crypto +
  addr_validate :: "string \<Rightarrow> std_error + addr"
  q_timestamp :: "addr \<Rightarrow> core_state \<Rightarrow> light_client_query \<Rightarrow> std_error + timestamp"
  q_height :: "addr \<Rightarrow> core_state \<Rightarrow> light_client_query \<Rightarrow> std_error + u64"
  q_status :: "addr \<Rightarrow> core_state \<Rightarrow> light_client_query \<Rightarrow> std_error + status"
  q_unit :: "addr \<Rightarrow> core_state \<Rightarrow> light_client_query \<Rightarrow> std_error + unit"
  q_creation :: "addr \<Rightarrow> core_state \<Rightarrow> light_client_query \<Rightarrow> std_error + verify_creation_response"
  q_update :: "addr \<Rightarrow> core_state \<Rightarrow> light_client_query \<Rightarrow> std_error + update_state_response"
  q_misbehaviour :: "addr \<Rightarrow> core_state \<Rightarrow> light_client_query \<Rightarrow> std_error + misbehaviour_response"
  q_can_call :: "addr \<Rightarrow> string \<Rightarrow> addr \<Rightarrow> addr \<Rightarrow> std_error + can_call"
  q_contract_info :: "addr \<Rightarrow> std_error + unit"

section \<open>Storage access\<close>

definition not_present :: contract_error where
  "not_present = Std (GenericErr ''key not present'')"

definition sread :: "('k \<Rightarrow> 'v option) \<Rightarrow> 'k \<Rightarrow> contract_error + 'v" where
  "sread m k = ok_or not_present (m k)"

lemma sread_eq_Inr [result_simps]: "sread m k = Inr v \<longleftrightarrow> m k = Some v"
  by (simp add: sread_def ok_or_eq_Inr)

lemma sread_simps [simp]:
  "m k = Some v \<Longrightarrow> sread m k = Inr v"
  "m k = None \<Longrightarrow> sread m k = Inl not_present"
  by (simp_all add: sread_def)

definition validate :: "host \<Rightarrow> string \<Rightarrow> contract_error + addr" where
  "validate H a = map_err Std (addr_validate H a)"

definition query_light_client :: "(addr \<Rightarrow> core_state \<Rightarrow> light_client_query \<Rightarrow> std_error + 'r)
    \<Rightarrow> core_state \<Rightarrow> addr \<Rightarrow> light_client_query \<Rightarrow> contract_error + 'r" where
  "query_light_client f s impl q = map_err (CannotQueryLightClient impl q) (f impl s q)"

definition client_impl :: "core_state \<Rightarrow> client_id \<Rightarrow> contract_error + addr" where
  "client_impl s cl = sread (client_impls s) cl"

definition store_commit :: "h256 \<Rightarrow> h256 \<Rightarrow> core_state \<Rightarrow> core_state" where
  "store_commit key value s = s\<lparr>commitments := (commitments s)(key \<mapsto> value)\<rparr>"

definition read_commit :: "core_state \<Rightarrow> h256 \<Rightarrow> h256 option" where
  "read_commit s key = commitments s key"

section \<open>Commitments\<close>

definition commit :: "'z crypto_scheme \<Rightarrow> bytes \<Rightarrow> h256" where
  "commit H bs = keccak256 H bs"

definition merge_ack :: "h256 \<Rightarrow> h256" where
  "merge_ack ack = h256_of_bytes ((h256_bytes ack)[0 := 1])"

definition commit_acks :: "'z crypto_scheme \<Rightarrow> bytes list \<Rightarrow> h256" where
  "commit_acks H acks = merge_ack (commit H (abi_acks H acks))"

definition commit_ack :: "'z crypto_scheme \<Rightarrow> bytes \<Rightarrow> h256" where
  "commit_ack H ack = commit_acks H [ack]"

definition commit_connection :: "'z crypto_scheme \<Rightarrow> connection \<Rightarrow> h256" where
  "commit_connection H c = commit H (abi_connection H (connection_to_tokens c))"

definition commit_channel :: "'z crypto_scheme \<Rightarrow> channel \<Rightarrow> h256" where
  "commit_channel H c = commit H (abi_channel H (channel_to_tokens c))"

text \<open>The identifiers handed out next; ids start at one.\<close>

definition take_next_client_id :: "core_state \<Rightarrow> contract_error + (client_id \<times> core_state)" where
  "take_next_client_id s =
     bindE (ok_or not_present (next_client_id s)) (\<lambda>nxt.
     bindE (ok_or (Std OverflowErr) (id_checked_add nxt 1)) (\<lambda>v. Inr (nxt, s\<lparr>next_client_id := Some v\<rparr>)))"

definition take_next_connection_id :: "core_state \<Rightarrow> contract_error + (connection_id \<times> core_state)" where
  "take_next_connection_id s =
     bindE (ok_or not_present (next_connection_id s)) (\<lambda>nxt.
     bindE (ok_or (Std OverflowErr) (id_checked_add nxt 1)) (\<lambda>v. Inr (nxt, s\<lparr>next_connection_id := Some v\<rparr>)))"

definition take_next_channel_id :: "core_state \<Rightarrow> contract_error + (channel_id \<times> core_state)" where
  "take_next_channel_id s =
     bindE (ok_or not_present (next_channel_id s)) (\<lambda>nxt.
     bindE (ok_or (Std OverflowErr) (id_checked_add nxt 1)) (\<lambda>v. Inr (nxt, s\<lparr>next_channel_id := Some v\<rparr>)))"

end
