(* ===== verification/Am_State.thy ===== *)
theory Am_State
  imports Am_Time Core_State
begin

text \<open>
  The access manager (\<open>cosmwasm/access-manager\<close>, \<open>lib/access-manager-types\<close>): roles, selectors, errors,
  events, messages, storage and calling context. Each store of \<open>state.rs\<close> is a map of the record
  \<open>am_store\<close>; the context of a call, \<open>ExecCtx\<close>, is its constant part \<open>exec_ctx\<close> and the record \<open>am_exec\<close>,
  which extends the storage by the events emitted so far. The JSON parser and printer, SHA-256 and the
  query to the managed contract are the record \<open>am_host\<close>, a parameter of every operation.
\<close>

section \<open>Roles and selectors\<close>

type_synonym role_id = u64
type_synonym selector = string
type_synonym nonce = u32
type_synonym timepoint = u64

definition ADMIN_ROLE :: role_id where
  "ADMIN_ROLE = 0"

definition PUBLIC_ROLE :: role_id where
  "PUBLIC_ROLE = - 1"

lemma admin_not_public [simp]: "ADMIN_ROLE \<noteq> PUBLIC_ROLE" "PUBLIC_ROLE \<noteq> ADMIN_ROLE"
  by (simp_all add: ADMIN_ROLE_def PUBLIC_ROLE_def)

definition INTERNAL_PREFIX :: string where
  "INTERNAL_PREFIX = ''$$''"

definition is_internal :: "selector \<Rightarrow> bool" where
  "is_internal sel \<longleftrightarrow> take (length INTERNAL_PREFIX) sel = INTERNAL_PREFIX"

definition nonce_increment :: "nonce \<Rightarrow> nonce" where
  "nonce_increment n = n + 1"

section \<open>Stored data\<close>

record target_config =
  admin_delay :: delay
  target_closed :: bool

record access =
  access_since :: u64
  access_delay :: delay

record role =
  role_admin :: role_id
  role_guardian :: role_id
  grant_delay :: delay

record schedule =
  sched_timepoint :: "timepoint option"
  sched_nonce :: nonce

definition target_config_default :: target_config where
  "target_config_default = \<lparr>admin_delay = delay_default, target_closed = False\<rparr>"

definition access_default :: access where
  "access_default = \<lparr>access_since = 0, access_delay = delay_default\<rparr>"

definition role_default :: role where
  "role_default = \<lparr>role_admin = ADMIN_ROLE, role_guardian = ADMIN_ROLE, grant_delay = delay_default\<rparr>"

definition schedule_default :: schedule where
  "schedule_default = \<lparr>sched_timepoint = None, sched_nonce = 0\<rparr>"

definition unwrap_or :: "'a \<Rightarrow> 'a option \<Rightarrow> 'a" where
  "unwrap_or d x = (case x of None \<Rightarrow> d | Some a \<Rightarrow> a)"

lemma unwrap_or_simps [simp]: "unwrap_or d None = d" "unwrap_or d (Some a) = a"
  by (simp_all add: unwrap_or_def)

record am_store =
  targets :: "addr \<Rightarrow> target_config option"
  target_allowed_roles :: "addr \<times> selector \<Rightarrow> role_id option"
  roles :: "role_id \<Rightarrow> role option"
  role_members :: "role_id \<times> addr \<Rightarrow> access option"
  schedules :: "h256 \<Rightarrow> schedule option"
  execution_id_stack :: "h256 list option"
  role_labels :: "role_id \<Rightarrow> string option"
  am_state_version :: "u32 option"

section \<open>Errors and events\<close>

datatype access_manager_error =
    AlreadyScheduled h256
  | NotScheduled h256
  | NotReady h256
  | OperationExpired h256
  | LockedRole role_id
  | BadConfirmation
  | UnauthorizedAccount addr role_id
  | UnauthorizedCall addr addr selector
  | UnauthorizedConsume addr
  | UnauthorizedCancel addr addr addr selector
  | InternalSelector selector

datatype am_error =
    AmStd std_error
  | AmMigrate upgrade_error
  | AmInitStateVersion
  | AccessManager access_manager_error
  | AmPanic string

datatype am_event =
    OperationScheduled h256 nonce u64 addr addr string
  | OperationExecuted h256 nonce
  | OperationCanceled h256 nonce
  | RoleLabelEv role_id string
  | RoleGranted role_id addr u32 u64 bool
  | RoleRevoked role_id addr
  | RoleAdminChanged role_id role_id
  | RoleGuardianChanged role_id role_id
  | RoleGrantDelayChanged role_id u32 u64
  | TargetClosedEv addr bool
  | TargetFunctionRoleUpdated addr selector role_id
  | TargetAdminDelayUpdated addr u32 u64

section \<open>Messages\<close>

datatype am_execute_msg =
    LabelRole role_id string
  | GrantRole role_id addr u32
  | RevokeRole role_id addr
  | RenounceRole role_id addr
  | SetRoleAdmin role_id role_id
  | SetRoleGuardian role_id role_id
  | SetGrantDelay role_id u32
  | SetTargetAdminDelay addr u32
  | SetTargetClosed addr bool
  | SetTargetFunctionRole addr "selector list" role_id
  | UpdateAuthority addr addr
  | Schedule addr string u64
  | Cancel addr addr string
  | Execute addr string
  | ConsumeOp addr string

text \<open>
  The submessages: \<open>SetAuthority\<close> sent to a managed contract without a reply, and the data of an
  executed operation, sent with the attached funds, which asks for a reply on success.
\<close>

datatype am_sub_msg =
    CallSetAuthority addr addr
  | CallTarget addr string coins u64

datatype am_data = ScheduledData h256 nonce | NonceData nonce

record am_response =
  am_events :: "am_event list"
  am_messages :: "am_sub_msg list"
  am_response_data :: "am_data option"

datatype has_role_result = HasRoleNo | HasRoleYes "u32 option"

record full_access =
  fa_since :: u64
  fa_current_delay :: u32
  fa_pending_delay :: u32
  fa_effect :: u64

section \<open>Context\<close>

text \<open>
  \<open>json_keys\<close> gives the keys of the top-level object of a JSON text or the parser's error;
  \<open>from_json\<close> parses a message, \<open>to_json\<close> prints one.
\<close>

record am_host =
  sha256 :: "string \<Rightarrow> h256"
  json_keys :: "string \<Rightarrow> string + string list"
  from_json :: "string \<Rightarrow> am_execute_msg option"
  to_json :: "am_execute_msg \<Rightarrow> string"
  q_consuming :: "addr \<Rightarrow> std_error + selector"

record exec_ctx =
  ctx_env :: block_env
  ctx_info :: message_info
  ctx_data :: string

record am_exec = am_store +
  ctx_events :: "am_event list"

type_synonym 'a am_result = "am_error + 'a \<times> am_exec"

definition address_this :: "block_env \<Rightarrow> addr" where
  "address_this env = contract_address env"

definition am_timestamp :: "block_env \<Rightarrow> u64" where
  "am_timestamp env = block_time env div 1000000000"

definition msg_sender :: "exec_ctx \<Rightarrow> addr" where
  "msg_sender ctx = sender (ctx_info ctx)"

definition emit :: "am_event \<Rightarrow> am_exec \<Rightarrow> am_exec" where
  "emit ev s = s\<lparr>ctx_events := ctx_events s @ [ev]\<rparr>"

lemma small_time_block [simp]: "small_time (am_timestamp env)"
  by (simp add: am_timestamp_def)

lemma emit_simps [simp]:
  "targets (emit ev s) = targets s" "target_allowed_roles (emit ev s) = target_allowed_roles s"
  "roles (emit ev s) = roles s" "role_members (emit ev s) = role_members s" "schedules (emit ev s) = schedules s"
  "execution_id_stack (emit ev s) = execution_id_stack s" "role_labels (emit ev s) = role_labels s"
  "am_state_version (emit ev s) = am_state_version s" "ctx_events (emit ev s) = ctx_events s @ [ev]"
  by (simp_all add: emit_def)

text \<open>\<open>Selector::extract_from_data\<close>: the one key of a JSON object.\<close>

definition extract_from_data :: "am_host \<Rightarrow> string \<Rightarrow> string + selector" where
  "extract_from_data A data =
     bindE (json_keys A data) (\<lambda>keys.
     case keys of
       [] \<Rightarrow> Inl ''no key found''
     | [sel] \<Rightarrow> Inr sel
     | _ \<Rightarrow> Inl ''multiple keys found'')"

text \<open>\<open>Selector::extract_from_serialize\<close> of \<open>QueryMsg::IsConsumingScheduledOp {}\<close>.\<close>

definition CONSUMING_SELECTOR :: selector where
  "CONSUMING_SELECTOR = ''is_consuming_scheduled_op''"

end
