(* ===== verification/Am_Contract.thy ===== *)
theory Am_Contract
  imports Am_State
begin

text \<open>
  The operations of the access manager (\<open>cosmwasm/access-manager/src/contract.rs\<close> and \<open>lib.rs\<close>), one
  definition per function of the source. The functions with a leading underscore there, which skip the
  access check, are called \<open>internal_\<dots>\<close> here.
\<close>

section \<open>Queries\<close>

definition expiration :: u32 where
  "expiration = 7 * 24 * 60 * 60"

definition min_setback :: u32 where
  "min_setback = 5 * 24 * 60 * 60"

definition check_selector :: "am_host \<Rightarrow> string \<Rightarrow> am_error + selector" where
  "check_selector A data =
     map_err (\<lambda>e. AmStd (GenericErr (''error extracting selector: '' @ e))) (extract_from_data A data)"

definition hash_operation :: "am_host \<Rightarrow> addr \<Rightarrow> addr \<Rightarrow> string \<Rightarrow> h256" where
  "hash_operation A caller target data = sha256 A (caller @ ''/'' @ target @ ''/'' @ data)"

definition hash_execution_id :: "am_host \<Rightarrow> addr \<Rightarrow> selector \<Rightarrow> h256" where
  "hash_execution_id A target sel = sha256 A (target @ '':'' @ sel)"

definition is_expired :: "block_env \<Rightarrow> timepoint \<Rightarrow> bool" where
  "is_expired env tp \<longleftrightarrow> tp + ucast expiration \<le> am_timestamp env"

definition is_target_closed :: "'z am_store_scheme \<Rightarrow> addr \<Rightarrow> bool" where
  "is_target_closed s target = target_closed (unwrap_or target_config_default (targets s target))"

definition get_target_function_role :: "'z am_store_scheme \<Rightarrow> addr \<Rightarrow> selector \<Rightarrow> am_error + role_id" where
  "get_target_function_role s target sel =
     (if is_internal sel then Inl (AccessManager (InternalSelector sel))
      else Inr (unwrap_or ADMIN_ROLE (target_allowed_roles s (target, sel))))"

definition get_target_admin_delay :: "block_env \<Rightarrow> 'z am_store_scheme \<Rightarrow> addr \<Rightarrow> u32" where
  "get_target_admin_delay env s target =
     delay_get (admin_delay (unwrap_or target_config_default (targets s target))) (am_timestamp env)"

definition get_role_admin :: "'z am_store_scheme \<Rightarrow> role_id \<Rightarrow> role_id" where
  "get_role_admin s role_id = role_admin (unwrap_or role_default (roles s role_id))"

definition get_role_guardian :: "'z am_store_scheme \<Rightarrow> role_id \<Rightarrow> role_id" where
  "get_role_guardian s role_id = role_guardian (unwrap_or role_default (roles s role_id))"

definition get_role_grant_delay :: "block_env \<Rightarrow> 'z am_store_scheme \<Rightarrow> role_id \<Rightarrow> u32" where
  "get_role_grant_delay env s role_id =
     delay_get (grant_delay (unwrap_or role_default (roles s role_id))) (am_timestamp env)"

definition get_access :: "block_env \<Rightarrow> 'z am_store_scheme \<Rightarrow> role_id \<Rightarrow> addr \<Rightarrow> full_access" where
  "get_access env s role_id account =
     (let a = unwrap_or access_default (role_members s (role_id, account));
          u = delay_get_full (access_delay a) (am_timestamp env)
      in \<lparr>fa_since = access_since a, fa_current_delay = u_value_before u, fa_pending_delay = u_value_after u,
          fa_effect = u_effect_date u\<rparr>)"

definition nonzero :: "'a::zero \<Rightarrow> 'a option" where
  "nonzero x = (if x = 0 then None else Some x)"

definition has_role :: "block_env \<Rightarrow> 'z am_store_scheme \<Rightarrow> role_id \<Rightarrow> addr \<Rightarrow> has_role_result" where
  "has_role env s role_id account =
     (if role_id = PUBLIC_ROLE then HasRoleYes None
      else let fa = get_access env s role_id account in
        if fa_since fa \<noteq> 0 \<and> fa_since fa \<le> am_timestamp env then HasRoleYes (nonzero (fa_current_delay fa))
        else HasRoleNo)"

definition get_schedule :: "block_env \<Rightarrow> 'z am_store_scheme \<Rightarrow> h256 \<Rightarrow> timepoint option" where
  "get_schedule env s op =
     (case unwrap_or None (map_option sched_timepoint (schedules s op)) of
       None \<Rightarrow> None
     | Some tp \<Rightarrow> if is_expired env tp then None else Some tp)"

definition get_nonce :: "'z am_store_scheme \<Rightarrow> h256 \<Rightarrow> nonce" where
  "get_nonce s op = unwrap_or 0 (map_option sched_nonce (schedules s op))"

text \<open>The response is a \<open>BTreeMap\<close>: a map from the requested roles.\<close>

definition get_role_labels :: "'z am_store_scheme \<Rightarrow> role_id list \<Rightarrow> role_id \<Rightarrow> string option option" where
  "get_role_labels s role_ids = map_of (map (\<lambda>r. (r, role_labels s r)) role_ids)"

definition is_executing :: "am_host \<Rightarrow> 'z am_store_scheme \<Rightarrow> addr \<Rightarrow> selector \<Rightarrow> bool" where
  "is_executing A s target sel =
     (case execution_id_stack s of
       None \<Rightarrow> False
     | Some stack \<Rightarrow> stack \<noteq> [] \<and> last stack = hash_execution_id A target sel)"

definition am_can_call :: "am_host \<Rightarrow> block_env \<Rightarrow> 'z am_store_scheme \<Rightarrow> addr \<Rightarrow> addr \<Rightarrow> selector \<Rightarrow> am_error + can_call" where
  "am_can_call A env s caller target sel =
     (if is_internal sel then Inr Immediate
      else if is_target_closed s target then Inr NotAuthorized
      else if caller = address_this env then
        Inr (if is_executing A s target sel then Immediate else NotAuthorized)
      else bindE (get_target_function_role s target sel) (\<lambda>role_id.
        case has_role env s role_id caller of
          HasRoleNo \<Rightarrow> Inr NotAuthorized
        | HasRoleYes (Some d) \<Rightarrow> Inr (WithDelay d)
        | HasRoleYes None \<Rightarrow> Inr Immediate))"

section \<open>Restrictions on the functions of the manager\<close>

definition get_admin_restrictions :: "am_host \<Rightarrow> block_env \<Rightarrow> 'z am_store_scheme \<Rightarrow> string
    \<Rightarrow> am_error + bool \<times> role_id \<times> u32" where
  "get_admin_restrictions A env s data =
     (let otherwise = bindE (check_selector A data) (\<lambda>sel.
            bindE (get_target_function_role s (address_this env) sel) (\<lambda>r. Inr (False, r, 0)))
      in case from_json A data of
        Some (LabelRole _ _) \<Rightarrow> Inr (True, ADMIN_ROLE, 0)
      | Some (SetRoleAdmin _ _) \<Rightarrow> Inr (True, ADMIN_ROLE, 0)
      | Some (SetRoleGuardian _ _) \<Rightarrow> Inr (True, ADMIN_ROLE, 0)
      | Some (SetGrantDelay _ _) \<Rightarrow> Inr (True, ADMIN_ROLE, 0)
      | Some (SetTargetAdminDelay _ _) \<Rightarrow> Inr (True, ADMIN_ROLE, 0)
      | Some (UpdateAuthority target _) \<Rightarrow> Inr (True, ADMIN_ROLE, get_target_admin_delay env s target)
      | Some (SetTargetClosed target _) \<Rightarrow> Inr (True, ADMIN_ROLE, get_target_admin_delay env s target)
      | Some (SetTargetFunctionRole target _ _) \<Rightarrow> Inr (True, ADMIN_ROLE, get_target_admin_delay env s target)
      | Some (GrantRole role_id _ _) \<Rightarrow> Inr (True, get_role_admin s role_id, 0)
      | Some (RevokeRole role_id _) \<Rightarrow> Inr (True, get_role_admin s role_id, 0)
      | _ \<Rightarrow> otherwise)"

definition can_call_self :: "am_host \<Rightarrow> block_env \<Rightarrow> 'z am_store_scheme \<Rightarrow> addr \<Rightarrow> string \<Rightarrow> am_error + can_call" where
  "can_call_self A env s caller data =
     (if caller = address_this env then
        bindE (check_selector A data) (\<lambda>sel.
        Inr (if is_executing A s (address_this env) sel then Immediate else NotAuthorized))
      else
        bindE (get_admin_restrictions A env s data) (\<lambda>(admin_restricted, role_id, operation_delay).
        if \<not> admin_restricted \<and> is_target_closed s (address_this env) then Inr NotAuthorized
        else case has_role env s role_id caller of
          HasRoleNo \<Rightarrow> Inr NotAuthorized
        | HasRoleYes execution_delay \<Rightarrow>
            (case nonzero (max operation_delay (unwrap_or 0 execution_delay)) of
              Some d \<Rightarrow> Inr (WithDelay d)
            | None \<Rightarrow> Inr Immediate)))"

definition can_call_extended :: "am_host \<Rightarrow> block_env \<Rightarrow> 'z am_store_scheme \<Rightarrow> addr \<Rightarrow> addr \<Rightarrow> string \<Rightarrow> am_error + can_call" where
  "can_call_extended A env s caller target data =
     (if target = address_this env then can_call_self A env s caller data
      else bindE (check_selector A data) (\<lambda>sel. am_can_call A env s caller target sel))"

definition internal_consume_scheduled_op :: "exec_ctx \<Rightarrow> h256 \<Rightarrow> am_exec \<Rightarrow> nonce am_result" where
  "internal_consume_scheduled_op ctx op s =
     (let sch = unwrap_or schedule_default (schedules s op) in
      case sched_timepoint sch of
        None \<Rightarrow> Inl (AccessManager (NotScheduled op))
      | Some tp \<Rightarrow>
          if tp > am_timestamp (ctx_env ctx) then Inl (AccessManager (NotReady op))
          else if is_expired (ctx_env ctx) tp then Inl (AccessManager (OperationExpired op))
          else Inr (sched_nonce sch,
            emit (OperationExecuted op (sched_nonce sch))
              (s\<lparr>schedules := (schedules s)(op \<mapsto> \<lparr>sched_timepoint = None, sched_nonce = sched_nonce sch\<rparr>)\<rparr>)))"

definition only_authorized :: "am_host \<Rightarrow> exec_ctx \<Rightarrow> am_exec \<Rightarrow> unit am_result" where
  "only_authorized A ctx s =
     (let env = ctx_env ctx; data = ctx_data ctx in
      bindE (can_call_self A env s (msg_sender ctx) data) (\<lambda>can.
      case can of
        NotAuthorized \<Rightarrow>
          bindE (get_admin_restrictions A env s data) (\<lambda>(_, required_role, _).
          Inl (AccessManager (UnauthorizedAccount (msg_sender ctx) required_role)))
      | Immediate \<Rightarrow> Inr ((), s)
      | WithDelay _ \<Rightarrow>
          bindE (internal_consume_scheduled_op ctx (hash_operation A (msg_sender ctx) (address_this env) data) s)
            (\<lambda>(_, s1). Inr ((), s1))))"

section \<open>Role management\<close>

definition label_role :: "am_host \<Rightarrow> exec_ctx \<Rightarrow> role_id \<Rightarrow> string \<Rightarrow> am_exec \<Rightarrow> unit am_result" where
  "label_role A ctx role_id label s =
     bindE (only_authorized A ctx s) (\<lambda>(_, s).
     if role_id = ADMIN_ROLE \<or> role_id = PUBLIC_ROLE then Inl (AccessManager (LockedRole role_id))
     else Inr ((), emit (RoleLabelEv role_id label) (s\<lparr>role_labels := (role_labels s)(role_id \<mapsto> label)\<rparr>)))"

definition internal_grant_role :: "exec_ctx \<Rightarrow> role_id \<Rightarrow> addr \<Rightarrow> u32 \<Rightarrow> u32 \<Rightarrow> am_exec \<Rightarrow> bool am_result" where
  "internal_grant_role ctx role_id account granted_after execution_delay s =
     (if role_id = PUBLIC_ROLE then Inl (AccessManager (LockedRole role_id))
      else let now = am_timestamp (ctx_env ctx) in
        case role_members s (role_id, account) of
          None \<Rightarrow>
            let since = now + ucast granted_after in
            Inr (True, emit (RoleGranted role_id account execution_delay since True)
              (s\<lparr>role_members := (role_members s)((role_id, account) \<mapsto>
                 \<lparr>access_since = since, access_delay = delay_new execution_delay\<rparr>)\<rparr>))
        | Some a \<Rightarrow>
            let (new_delay, since) = with_update (access_delay a) now execution_delay 0 in
            Inr (False, emit (RoleGranted role_id account execution_delay since False)
              (s\<lparr>role_members := (role_members s)((role_id, account) \<mapsto> a\<lparr>access_delay := new_delay\<rparr>)\<rparr>)))"

definition grant_role :: "am_host \<Rightarrow> exec_ctx \<Rightarrow> role_id \<Rightarrow> addr \<Rightarrow> u32 \<Rightarrow> am_exec \<Rightarrow> unit am_result" where
  "grant_role A ctx role_id account execution_delay s =
     bindE (only_authorized A ctx s) (\<lambda>(_, s).
     bindE (internal_grant_role ctx role_id account (get_role_grant_delay (ctx_env ctx) s role_id) execution_delay s)
       (\<lambda>(_, s). Inr ((), s)))"

definition internal_revoke_role :: "role_id \<Rightarrow> addr \<Rightarrow> am_exec \<Rightarrow> bool am_result" where
  "internal_revoke_role role_id account s =
     (if role_id = PUBLIC_ROLE then Inl (AccessManager (LockedRole role_id))
      else case role_members s (role_id, account) of
        Some _ \<Rightarrow> Inr (True, emit (RoleRevoked role_id account)
                    (s\<lparr>role_members := (role_members s)((role_id, account) := None)\<rparr>))
      | None \<Rightarrow> Inr (False, s))"

definition revoke_role :: "am_host \<Rightarrow> exec_ctx \<Rightarrow> role_id \<Rightarrow> addr \<Rightarrow> am_exec \<Rightarrow> unit am_result" where
  "revoke_role A ctx role_id account s =
     bindE (only_authorized A ctx s) (\<lambda>(_, s).
     bindE (internal_revoke_role role_id account s) (\<lambda>(_, s). Inr ((), s)))"

definition renounce_role :: "exec_ctx \<Rightarrow> role_id \<Rightarrow> addr \<Rightarrow> am_exec \<Rightarrow> unit am_result" where
  "renounce_role ctx role_id caller_confirmation s =
     (if caller_confirmation = msg_sender ctx then
        bindE (internal_revoke_role role_id caller_confirmation s) (\<lambda>(_, s). Inr ((), s))
      else Inl (AccessManager BadConfirmation))"

definition internal_set_role_admin :: "role_id \<Rightarrow> role_id \<Rightarrow> am_exec \<Rightarrow> unit am_result" where
  "internal_set_role_admin role_id admin s =
     (if role_id = ADMIN_ROLE \<or> role_id = PUBLIC_ROLE then Inl (AccessManager (LockedRole role_id))
      else Inr ((), emit (RoleAdminChanged role_id admin)
        (s\<lparr>roles := (roles s)(role_id \<mapsto> (unwrap_or role_default (roles s role_id))\<lparr>role_admin := admin\<rparr>)\<rparr>)))"

definition set_role_admin :: "am_host \<Rightarrow> exec_ctx \<Rightarrow> role_id \<Rightarrow> role_id \<Rightarrow> am_exec \<Rightarrow> unit am_result" where
  "set_role_admin A ctx role_id admin s =
     bindE (only_authorized A ctx s) (\<lambda>(_, s). internal_set_role_admin role_id admin s)"

definition internal_set_role_guardian :: "role_id \<Rightarrow> role_id \<Rightarrow> am_exec \<Rightarrow> unit am_result" where
  "internal_set_role_guardian role_id guardian s =
     (if role_id = ADMIN_ROLE \<or> role_id = PUBLIC_ROLE then Inl (AccessManager (LockedRole role_id))
      else Inr ((), emit (RoleGuardianChanged role_id guardian)
        (s\<lparr>roles := (roles s)(role_id \<mapsto> (unwrap_or role_default (roles s role_id))\<lparr>role_guardian := guardian\<rparr>)\<rparr>)))"

definition set_role_guardian :: "am_host \<Rightarrow> exec_ctx \<Rightarrow> role_id \<Rightarrow> role_id \<Rightarrow> am_exec \<Rightarrow> unit am_result" where
  "set_role_guardian A ctx role_id guardian s =
     bindE (only_authorized A ctx s) (\<lambda>(_, s). internal_set_role_guardian role_id guardian s)"

definition internal_set_grant_delay :: "exec_ctx \<Rightarrow> role_id \<Rightarrow> u32 \<Rightarrow> am_exec \<Rightarrow> unit am_result" where
  "internal_set_grant_delay ctx role_id new_delay s =
     (if role_id = PUBLIC_ROLE then Inl (AccessManager (LockedRole role_id))
      else let role = unwrap_or role_default (roles s role_id);
               (new_grant_delay, effect) = with_update (grant_delay role) (am_timestamp (ctx_env ctx)) new_delay min_setback
        in Inr ((), emit (RoleGrantDelayChanged role_id new_delay effect)
             (s\<lparr>roles := (roles s)(role_id \<mapsto> role\<lparr>grant_delay := new_grant_delay\<rparr>)\<rparr>)))"

definition set_grant_delay :: "am_host \<Rightarrow> exec_ctx \<Rightarrow> role_id \<Rightarrow> u32 \<Rightarrow> am_exec \<Rightarrow> unit am_result" where
  "set_grant_delay A ctx role_id new_delay s =
     bindE (only_authorized A ctx s) (\<lambda>(_, s). internal_set_grant_delay ctx role_id new_delay s)"

section \<open>Function and mode management\<close>

definition internal_set_target_function_role :: "addr \<Rightarrow> selector \<Rightarrow> role_id \<Rightarrow> am_exec \<Rightarrow> unit am_result" where
  "internal_set_target_function_role target sel role_id s =
     (if is_internal sel then Inl (AccessManager (InternalSelector sel))
      else Inr ((), emit (TargetFunctionRoleUpdated target sel role_id)
        (s\<lparr>target_allowed_roles := (target_allowed_roles s)((target, sel) \<mapsto> role_id)\<rparr>)))"

fun set_function_roles_loop :: "addr \<Rightarrow> selector list \<Rightarrow> role_id \<Rightarrow> am_exec \<Rightarrow> unit am_result" where
  "set_function_roles_loop target [] role_id s = Inr ((), s)"
| "set_function_roles_loop target (sel # sels) role_id s =
     bindE (internal_set_target_function_role target sel role_id s) (\<lambda>(_, s).
     set_function_roles_loop target sels role_id s)"

definition set_target_function_role :: "am_host \<Rightarrow> exec_ctx \<Rightarrow> addr \<Rightarrow> selector list \<Rightarrow> role_id \<Rightarrow> am_exec \<Rightarrow> unit am_result" where
  "set_target_function_role A ctx target sels role_id s =
     bindE (only_authorized A ctx s) (\<lambda>(_, s). set_function_roles_loop target sels role_id s)"

definition internal_set_target_admin_delay :: "exec_ctx \<Rightarrow> addr \<Rightarrow> u32 \<Rightarrow> am_exec \<Rightarrow> unit am_result" where
  "internal_set_target_admin_delay ctx target new_delay s =
     (let tc = unwrap_or target_config_default (targets s target);
          (d, effect) = with_update (admin_delay tc) (am_timestamp (ctx_env ctx)) new_delay min_setback
      in Inr ((), emit (TargetAdminDelayUpdated target new_delay effect)
           (s\<lparr>targets := (targets s)(target \<mapsto> tc\<lparr>admin_delay := d\<rparr>)\<rparr>)))"

definition set_target_admin_delay :: "am_host \<Rightarrow> exec_ctx \<Rightarrow> addr \<Rightarrow> u32 \<Rightarrow> am_exec \<Rightarrow> unit am_result" where
  "set_target_admin_delay A ctx target new_delay s =
     bindE (only_authorized A ctx s) (\<lambda>(_, s). internal_set_target_admin_delay ctx target new_delay s)"

definition internal_set_target_closed :: "addr \<Rightarrow> bool \<Rightarrow> am_exec \<Rightarrow> unit am_result" where
  "internal_set_target_closed target closed s =
     Inr ((), emit (TargetClosedEv target closed)
       (s\<lparr>targets := (targets s)(target \<mapsto> (unwrap_or target_config_default (targets s target))\<lparr>target_closed := closed\<rparr>)\<rparr>))"

definition set_target_closed :: "am_host \<Rightarrow> exec_ctx \<Rightarrow> addr \<Rightarrow> bool \<Rightarrow> am_exec \<Rightarrow> unit am_result" where
  "set_target_closed A ctx target closed s =
     bindE (only_authorized A ctx s) (\<lambda>(_, s). internal_set_target_closed target closed s)"

section \<open>Delayed operations\<close>

definition schedule_op :: "am_host \<Rightarrow> exec_ctx \<Rightarrow> addr \<Rightarrow> string \<Rightarrow> u64 \<Rightarrow> am_exec \<Rightarrow> (h256 \<times> nonce) am_result" where
  "schedule_op A ctx target data when s =
     (let caller = msg_sender ctx; env = ctx_env ctx;
          unauthorized = bindE (check_selector A data) (\<lambda>sel. Inl (AccessManager (UnauthorizedCall caller target sel)))
      in bindE (can_call_extended A env s caller target data) (\<lambda>can.
         bindE (case can of
                  Immediate \<Rightarrow> unauthorized
                | NotAuthorized \<Rightarrow> unauthorized
                | WithDelay setback \<Rightarrow>
                    let min_when = am_timestamp env + ucast setback in
                    if min_when = 0 then Inl (AmPanic ''timestamp should be non-zero; qed;'')
                    else if when < min_when then unauthorized
                    else Inr (max when min_when)) (\<lambda>when.
         let op = hash_operation A caller target data; prev = schedules s op in
         if (case prev of
               None \<Rightarrow> False
             | Some p \<Rightarrow> (case sched_timepoint p of None \<Rightarrow> False | Some tp \<Rightarrow> \<not> is_expired env tp))
         then Inl (AccessManager (AlreadyScheduled op))
         else
           let n = nonce_increment (unwrap_or 0 (map_option sched_nonce prev)) in
           Inr ((op, n), emit (OperationScheduled op n when caller target data)
             (s\<lparr>schedules := (schedules s)(op \<mapsto> \<lparr>sched_timepoint = Some when, sched_nonce = n\<rparr>)\<rparr>)))))"

definition EXECUTE_REPLY_ID :: u64 where
  "EXECUTE_REPLY_ID = 1"

definition push_execution_id :: "am_host \<Rightarrow> addr \<Rightarrow> string \<Rightarrow> am_exec \<Rightarrow> unit am_result" where
  "push_execution_id A target data s =
     bindE (ok_or (AmStd (GenericErr ''key not present'')) (execution_id_stack s)) (\<lambda>stack.
     bindE (check_selector A data) (\<lambda>sel.
     Inr ((), s\<lparr>execution_id_stack := Some (stack @ [hash_execution_id A target sel])\<rparr>)))"

definition execute_op :: "am_host \<Rightarrow> exec_ctx \<Rightarrow> addr \<Rightarrow> string \<Rightarrow> am_exec \<Rightarrow> (am_sub_msg \<times> nonce) am_result" where
  "execute_op A ctx target data s =
     (let caller = msg_sender ctx; env = ctx_env ctx in
      bindE (can_call_extended A env s caller target data) (\<lambda>can.
      bindE (case can of
               Immediate \<Rightarrow> Inr True
             | WithDelay _ \<Rightarrow> Inr False
             | NotAuthorized \<Rightarrow>
                 bindE (check_selector A data) (\<lambda>sel. Inl (AccessManager (UnauthorizedCall caller target sel)))) (\<lambda>immediate.
      let op = hash_operation A caller target data in
      bindE (if \<not> immediate \<or> get_schedule env s op \<noteq> None then internal_consume_scheduled_op ctx op s
             else Inr (0, s)) (\<lambda>(nonce, s).
      bindE (push_execution_id A target data s) (\<lambda>(_, s).
      Inr ((CallTarget target data (funds (ctx_info ctx)) EXECUTE_REPLY_ID, nonce), s))))))"

definition is_member :: "has_role_result \<Rightarrow> bool" where
  "is_member r = (case r of HasRoleYes _ \<Rightarrow> True | HasRoleNo \<Rightarrow> False)"

definition cancel_op :: "am_host \<Rightarrow> exec_ctx \<Rightarrow> addr \<Rightarrow> addr \<Rightarrow> string \<Rightarrow> am_exec \<Rightarrow> nonce am_result" where
  "cancel_op A ctx caller target data s =
     (let msgsender = msg_sender ctx; env = ctx_env ctx in
      bindE (check_selector A data) (\<lambda>sel.
      let op = hash_operation A caller target data;
          sch = unwrap_or schedule_default (schedules s op)
      in bindE (if sched_timepoint sch = None then Inl (AccessManager (NotScheduled op))
                else if caller \<noteq> msgsender then
                  bindE (get_target_function_role s target sel) (\<lambda>r.
                  if \<not> is_member (has_role env s ADMIN_ROLE msgsender)
                     \<and> \<not> is_member (has_role env s (get_role_guardian s r) msgsender)
                  then Inl (AccessManager (UnauthorizedCancel msgsender caller target sel))
                  else Inr ())
                else Inr ()) (\<lambda>_.
         Inr (sched_nonce sch, emit (OperationCanceled op (sched_nonce sch))
           (s\<lparr>schedules := (schedules s)(op \<mapsto> sch\<lparr>sched_timepoint := None\<rparr>)\<rparr>)))))"

definition consume_scheduled_op :: "am_host \<Rightarrow> exec_ctx \<Rightarrow> addr \<Rightarrow> string \<Rightarrow> am_exec \<Rightarrow> unit am_result" where
  "consume_scheduled_op A ctx caller data s =
     (let target = msg_sender ctx in
      bindE (map_err AmStd (q_consuming A target)) (\<lambda>sel.
      if sel \<noteq> CONSUMING_SELECTOR then Inl (AccessManager (UnauthorizedConsume target))
      else bindE (internal_consume_scheduled_op ctx (hash_operation A caller target data) s) (\<lambda>(_, s). Inr ((), s))))"

definition update_authority :: "am_host \<Rightarrow> exec_ctx \<Rightarrow> addr \<Rightarrow> addr \<Rightarrow> am_exec \<Rightarrow> am_sub_msg am_result" where
  "update_authority A ctx target new_authority s =
     bindE (only_authorized A ctx s) (\<lambda>(_, s). Inr (CallSetAuthority target new_authority, s))"

section \<open>Entry points\<close>

definition am_respond :: "am_sub_msg list \<Rightarrow> am_data option \<Rightarrow> am_exec \<Rightarrow> am_error + am_response \<times> am_store" where
  "am_respond msgs data s =
     Inr (\<lparr>am_events = ctx_events s, am_messages = msgs, am_response_data = data\<rparr>, am_store.truncate s)"

definition begin_exec :: "am_store \<Rightarrow> am_exec" where
  "begin_exec s = am_store.extend s (am_exec.fields [])"

fun am_dispatch :: "am_host \<Rightarrow> exec_ctx \<Rightarrow> am_execute_msg \<Rightarrow> am_exec \<Rightarrow> (am_sub_msg list \<times> am_data option) am_result" where
  "am_dispatch A ctx (LabelRole role_id label) s = bindE (label_role A ctx role_id label s) (\<lambda>(_, s). Inr (([], None), s))"
| "am_dispatch A ctx (GrantRole role_id account execution_delay) s =
     bindE (grant_role A ctx role_id account execution_delay s) (\<lambda>(_, s). Inr (([], None), s))"
| "am_dispatch A ctx (RevokeRole role_id account) s = bindE (revoke_role A ctx role_id account s) (\<lambda>(_, s). Inr (([], None), s))"
| "am_dispatch A ctx (RenounceRole role_id caller_confirmation) s =
     bindE (renounce_role ctx role_id caller_confirmation s) (\<lambda>(_, s). Inr (([], None), s))"
| "am_dispatch A ctx (SetRoleAdmin role_id admin) s = bindE (set_role_admin A ctx role_id admin s) (\<lambda>(_, s). Inr (([], None), s))"
| "am_dispatch A ctx (SetRoleGuardian role_id guardian) s =
     bindE (set_role_guardian A ctx role_id guardian s) (\<lambda>(_, s). Inr (([], None), s))"
| "am_dispatch A ctx (SetGrantDelay role_id d) s = bindE (set_grant_delay A ctx role_id d s) (\<lambda>(_, s). Inr (([], None), s))"
| "am_dispatch A ctx (SetTargetAdminDelay target d) s =
     bindE (set_target_admin_delay A ctx target d s) (\<lambda>(_, s). Inr (([], None), s))"
| "am_dispatch A ctx (SetTargetClosed target closed) s =
     bindE (set_target_closed A ctx target closed s) (\<lambda>(_, s). Inr (([], None), s))"
| "am_dispatch A ctx (SetTargetFunctionRole target sels role_id) s =
     bindE (set_target_function_role A ctx target sels role_id s) (\<lambda>(_, s). Inr (([], None), s))"
| "am_dispatch A ctx (UpdateAuthority target new_authority) s =
     bindE (update_authority A ctx target new_authority s) (\<lambda>(m, s). Inr (([m], None), s))"
| "am_dispatch A ctx (Schedule target data when) s =
     bindE (schedule_op A ctx target data when s) (\<lambda>((op, n), s). Inr (([], Some (ScheduledData op n)), s))"
| "am_dispatch A ctx (Cancel caller target data) s =
     bindE (cancel_op A ctx caller target data s) (\<lambda>(n, s). Inr (([], Some (NonceData n)), s))"
| "am_dispatch A ctx (Execute target data) s =
     bindE (execute_op A ctx target data s) (\<lambda>((m, n), s). Inr (([m], Some (NonceData n)), s))"
| "am_dispatch A ctx (ConsumeOp caller data) s =
     bindE (consume_scheduled_op A ctx caller data s) (\<lambda>(_, s). Inr (([], None), s))"

definition am_execute :: "am_host \<Rightarrow> block_env \<Rightarrow> message_info \<Rightarrow> am_execute_msg \<Rightarrow> am_store \<Rightarrow> am_error + am_response \<times> am_store" where
  "am_execute A env info msg s =
     (let ctx = \<lparr>ctx_env = env, ctx_info = info, ctx_data = to_json A msg\<rparr> in
      bindE (am_dispatch A ctx msg (begin_exec s)) (\<lambda>((msgs, data), s). am_respond msgs data s))"

definition am_init :: "block_env \<Rightarrow> addr \<Rightarrow> am_store \<Rightarrow> am_error + am_response \<times> am_store" where
  "am_init env initial_admin s =
     (let ctx = \<lparr>ctx_env = env, ctx_info = \<lparr>sender = initial_admin, funds = []\<rparr>, ctx_data = ''null''\<rparr> in
      bindE (internal_grant_role ctx ADMIN_ROLE initial_admin 0 0 (begin_exec (s\<lparr>execution_id_stack := Some []\<rparr>)))
        (\<lambda>(_, s). am_respond [] None s))"

definition put_am_version :: "u32 \<Rightarrow> am_store \<Rightarrow> am_store" where
  "put_am_version v s = s\<lparr>am_state_version := Some v\<rparr>"

definition am_instantiate :: "block_env \<Rightarrow> addr \<Rightarrow> am_store \<Rightarrow> am_error + am_response \<times> am_store" where
  "am_instantiate env initial_admin s =
     bindE (init_state_version AmInitStateVersion am_state_version put_am_version 1 s) (\<lambda>s. am_init env initial_admin s)"

definition am_reply :: "u64 \<Rightarrow> bool \<Rightarrow> am_store \<Rightarrow> am_error + am_store" where
  "am_reply reply_id ok s =
     (if reply_id = EXECUTE_REPLY_ID then
        bindE (ensureE ok (AmStd (GenericErr ''execution failed''))) (\<lambda>_.
        bindE (ok_or (AmStd (GenericErr ''key not present'')) (execution_id_stack s)) (\<lambda>stack.
        if stack = [] then Inl (AmPanic ''execution stack should not be empty on reply; qed;'')
        else Inr (s\<lparr>execution_id_stack := Some (butlast stack)\<rparr>)))
      else Inl (AmStd (GenericErr ''unknown reply'')))"

definition am_response_default :: am_response where
  "am_response_default = \<lparr>am_events = [], am_messages = [], am_response_data = None\<rparr>"

definition am_migrate :: "block_env \<Rightarrow> addr upgrade_msg \<Rightarrow> am_store \<Rightarrow> am_error + am_response \<times> am_store" where
  "am_migrate env msg s =
     upgrade_run AmMigrate am_state_version put_am_version msg
       (\<lambda>admin s. bindE (am_init env admin s) (\<lambda>(r, s). Inr ((r, None), s)))
       (\<lambda>_ s. Inr ((am_response_default, None), s)) s"

datatype am_query_msg =
    QAdminRole
  | QPublicRole
  | QExpiration
  | QMinSetback
  | QCanCall selector addr addr
  | QIsTargetClosed addr
  | QGetTargetFunctionRole addr selector
  | QGetTargetAdminDelay addr
  | QGetRoleAdmin role_id
  | QGetRoleGuardian role_id
  | QGetRoleGrantDelay role_id
  | QGetAccess role_id addr
  | QHasRole role_id addr
  | QGetSchedule h256
  | QGetNonce h256
  | QHashOperation addr addr string
  | QGetRoleLabels "role_id list"

datatype am_query_response =
    RRole role_id
  | RDuration u32
  | RCanCall can_call
  | RClosed bool
  | RAccess full_access
  | RHasRole has_role_result
  | RSchedule "timepoint option"
  | RNonce nonce
  | RHash h256
  | RLabels "role_id \<Rightarrow> string option option"

fun am_query :: "am_host \<Rightarrow> block_env \<Rightarrow> am_query_msg \<Rightarrow> am_store \<Rightarrow> am_error + am_query_response" where
  "am_query A env QAdminRole s = Inr (RRole ADMIN_ROLE)"
| "am_query A env QPublicRole s = Inr (RRole PUBLIC_ROLE)"
| "am_query A env (QCanCall sel target caller) s = bindE (am_can_call A env s caller target sel) (\<lambda>c. Inr (RCanCall c))"
| "am_query A env QExpiration s = Inr (RDuration expiration)"
| "am_query A env QMinSetback s = Inr (RDuration min_setback)"
| "am_query A env (QIsTargetClosed target) s = Inr (RClosed (is_target_closed s target))"
| "am_query A env (QGetTargetFunctionRole target sel) s = bindE (get_target_function_role s target sel) (\<lambda>r. Inr (RRole r))"
| "am_query A env (QGetTargetAdminDelay target) s = Inr (RDuration (get_target_admin_delay env s target))"
| "am_query A env (QGetRoleAdmin r) s = Inr (RRole (get_role_admin s r))"
| "am_query A env (QGetRoleGuardian r) s = Inr (RRole (get_role_guardian s r))"
| "am_query A env (QGetRoleGrantDelay r) s = Inr (RDuration (get_role_grant_delay env s r))"
| "am_query A env (QGetAccess r a) s = Inr (RAccess (get_access env s r a))"
| "am_query A env (QHasRole r a) s = Inr (RHasRole (has_role env s r a))"
| "am_query A env (QGetSchedule op) s = Inr (RSchedule (get_schedule env s op))"
| "am_query A env (QGetNonce op) s = Inr (RNonce (get_nonce s op))"
| "am_query A env (QHashOperation caller target data) s = Inr (RHash (hash_operation A caller target data))"
| "am_query A env (QGetRoleLabels rs) s = Inr (RLabels (get_role_labels s rs))"

interpretation am: versioned AmMigrate am_state_version put_am_version
    "\<lambda>admin s. bindE (am_init env admin s) (\<lambda>(r, s). Inr ((r, None), s))" "\<lambda>_ s. Inr ((am_response_default, None), s)" for env
  by unfold_locales (simp add: put_am_version_def)

end
