(* ===== verification/Am_Life.thy ===== *)
theory Am_Life
  imports Am_Contract
begin

text \<open>
  The life of a scheduled operation. The relation \<open>op_step\<close> is the contract of the delayed-operation part
  of the access manager, for one operation identifier: what may happen to its schedule in one call and
  what is reported. Every call of the manager refines it (\<open>am_execute_op_step\<close>).
\<close>

section \<open>Inversion of the guards\<close>

definition op_state :: "'z am_store_scheme \<Rightarrow> h256 \<Rightarrow> schedule" where
  "op_state s op = unwrap_or schedule_default (schedules s op)"

lemma op_state_upd [simp]:
  "op_state (s\<lparr>schedules := (schedules s)(op \<mapsto> x)\<rparr>) op' = (if op' = op then x else op_state s op')"
  by (simp add: op_state_def)

lemma op_state_cong: "schedules s = schedules s' \<Longrightarrow> op_state s op = op_state s' op"
  by (simp add: op_state_def)

lemma op_state_emit [simp]: "op_state (emit ev s) op = op_state s op"
  by (simp add: op_state_def)

lemma consume_Inr:
  "internal_consume_scheduled_op ctx op s = Inr (n, s') \<longleftrightarrow>
     (\<exists>tp. op_state s op = \<lparr>sched_timepoint = Some tp, sched_nonce = n\<rparr> \<and> tp \<le> am_timestamp (ctx_env ctx) \<and>
        \<not> is_expired (ctx_env ctx) tp \<and>
        s' = emit (OperationExecuted op n)
               (s\<lparr>schedules := (schedules s)(op \<mapsto> \<lparr>sched_timepoint = None, sched_nonce = n\<rparr>)\<rparr>))"
  by (cases "op_state s op")
    (auto simp: internal_consume_scheduled_op_def Let_def op_state_def not_less split: option.splits if_splits)

lemma only_authorized_Inr:
  "only_authorized A ctx s = Inr (u, s') \<longleftrightarrow>
     can_call_self A (ctx_env ctx) s (msg_sender ctx) (ctx_data ctx) = Inr Immediate \<and> s' = s \<or>
     (\<exists>d n. can_call_self A (ctx_env ctx) s (msg_sender ctx) (ctx_data ctx) = Inr (WithDelay d) \<and>
        internal_consume_scheduled_op ctx
          (hash_operation A (msg_sender ctx) (address_this (ctx_env ctx)) (ctx_data ctx)) s = Inr (n, s'))"
proof (cases "can_call_self A (ctx_env ctx) s (msg_sender ctx) (ctx_data ctx)")
  case (Inr can)
  then show ?thesis by (cases can) (auto simp: only_authorized_def Let_def bindE_eq_Inr)
qed (simp add: only_authorized_def)

section \<open>The contract of an operation\<close>

inductive op_step :: "block_env \<Rightarrow> h256 \<Rightarrow> schedule \<Rightarrow> am_event list \<Rightarrow> schedule \<Rightarrow> bool" for env op where
  op_idle: "op_step env op x [] x"
| op_schedule:
    "\<forall>tp. sched_timepoint x = Some tp \<longrightarrow> is_expired env tp \<Longrightarrow> am_timestamp env < when \<Longrightarrow>
     op_step env op x [OperationScheduled op (sched_nonce x + 1) when caller target data]
       \<lparr>sched_timepoint = Some when, sched_nonce = sched_nonce x + 1\<rparr>"
| op_execute:
    "tp \<le> am_timestamp env \<Longrightarrow> \<not> is_expired env tp \<Longrightarrow>
     op_step env op \<lparr>sched_timepoint = Some tp, sched_nonce = n\<rparr> [OperationExecuted op n]
       \<lparr>sched_timepoint = None, sched_nonce = n\<rparr>"
| op_cancel:
    "op_step env op \<lparr>sched_timepoint = Some tp, sched_nonce = n\<rparr> [OperationCanceled op n]
       \<lparr>sched_timepoint = None, sched_nonce = n\<rparr>"

lemma op_step_scheduled:
  assumes "op_step env op x evs y" "OperationScheduled op n w c t dat \<in> set evs"
  shows "y = \<lparr>sched_timepoint = Some w, sched_nonce = n\<rparr> \<and> n = sched_nonce x + 1"
  using assms by cases auto

lemma op_step_executed:
  assumes "op_step env op x evs y" "OperationExecuted op n \<in> set evs"
  shows "\<exists>tp. x = \<lparr>sched_timepoint = Some tp, sched_nonce = n\<rparr> \<and> tp \<le> am_timestamp env \<and> \<not> is_expired env tp"
  using assms by cases auto

definition about :: "h256 \<Rightarrow> am_event \<Rightarrow> bool" where
  "about op ev = (case ev of
     OperationScheduled o' _ _ _ _ _ \<Rightarrow> o' = op
   | OperationExecuted o' _ \<Rightarrow> o' = op
   | OperationCanceled o' _ \<Rightarrow> o' = op
   | _ \<Rightarrow> False)"

definition op_trans :: "block_env \<Rightarrow> h256 \<Rightarrow> am_exec \<Rightarrow> am_exec \<Rightarrow> bool" where
  "op_trans env op s x \<longleftrightarrow>
     (\<exists>evs. ctx_events x = ctx_events s @ evs \<and> op_step env op (op_state s op) (filter (about op) evs) (op_state x op))"

lemma op_trans_refl [simp]: "op_trans env op s s"
  by (auto simp: op_trans_def intro: op_idle)

lemma op_trans_other:
  assumes "op_trans env op s x" "schedules x' = schedules x" "ctx_events x' = ctx_events x @ evs"
    and "filter (about op) evs = []"
  shows "op_trans env op s x'"
proof -
  obtain evs' where "ctx_events x = ctx_events s @ evs'"
    and "op_step env op (op_state s op) (filter (about op) evs') (op_state x op)"
    using assms(1) unfolding op_trans_def by blast
  then show ?thesis
    unfolding op_trans_def using assms(2-4) op_state_cong [OF assms(2), of op] by (intro exI [of _ "evs' @ evs"]) simp
qed

lemma op_trans_eq:
  assumes "op_trans env op s x" "schedules x' = schedules x" "ctx_events x' = ctx_events x"
  shows "op_trans env op s x'"
  using op_trans_other [OF assms(1,2), of "[]"] assms(3) by simp

lemma op_trans_emit:
  assumes "op_trans env op s x" "schedules x' = schedules x" "ctx_events x' = ctx_events x" "\<not> about op ev"
  shows "op_trans env op s (emit ev x')"
  using op_trans_other [OF assms(1), of "emit ev x'" "[ev]"] assms by simp

lemma op_trans_one:
  assumes "op_step env o' (op_state s o') [ev] y" "about o' ev" "op' \<noteq> o' \<Longrightarrow> \<not> about op' ev"
  shows "op_trans env op' s (emit ev (s\<lparr>schedules := (schedules s)(o' \<mapsto> y)\<rparr>))"
  unfolding op_trans_def using assms by (intro exI [of _ "[ev]"]) (auto intro: op_idle)

lemma consume_trans:
  assumes "internal_consume_scheduled_op ctx op' s = Inr (n, s')"
  shows "op_trans (ctx_env ctx) op s s'"
  using assms unfolding consume_Inr by (auto intro!: op_trans_one op_execute simp: about_def)

lemma authorized_trans:
  assumes "only_authorized A ctx s = Inr (u, s')"
  shows "op_trans (ctx_env ctx) op s s'"
  using assms unfolding only_authorized_Inr by (auto dest: consume_trans)

section \<open>Every operation refines the contract\<close>

lemma label_role_trans: "label_role A ctx r l s = Inr (u, s') \<Longrightarrow> op_trans (ctx_env ctx) op s s'"
  by (auto simp: label_role_def bindE_eq_Inr about_def dest!: authorized_trans [of _ _ _ _ _ op] intro!: op_trans_emit split: if_splits)

lemma grant_trans:
  assumes "internal_grant_role ctx r a g d x = Inr (b, x')" "op_trans env op s x"
  shows "op_trans env op s x'"
  using assms
  by (auto simp: internal_grant_role_def Let_def about_def intro!: op_trans_emit split: if_splits option.splits prod.splits)

lemma grant_role_trans: "grant_role A ctx r a d s = Inr (u, s') \<Longrightarrow> op_trans (ctx_env ctx) op s s'"
  by (auto simp: grant_role_def bindE_eq_Inr dest!: authorized_trans [of _ _ _ _ _ op] intro: grant_trans)

lemma revoke_trans:
  assumes "internal_revoke_role r a x = Inr (b, x')" "op_trans env op s x"
  shows "op_trans env op s x'"
  using assms by (auto simp: internal_revoke_role_def about_def intro!: op_trans_emit split: if_splits option.splits)

lemma revoke_role_trans: "revoke_role A ctx r a s = Inr (u, s') \<Longrightarrow> op_trans (ctx_env ctx) op s s'"
  by (auto simp: revoke_role_def bindE_eq_Inr dest!: authorized_trans [of _ _ _ _ _ op] intro: revoke_trans)

lemma renounce_role_trans: "renounce_role ctx r a s = Inr (u, s') \<Longrightarrow> op_trans (ctx_env ctx) op s s'"
  by (auto simp: renounce_role_def bindE_eq_Inr intro: revoke_trans split: if_splits)

lemma set_role_admin_trans: "set_role_admin A ctx r a s = Inr (u, s') \<Longrightarrow> op_trans (ctx_env ctx) op s s'"
  by (auto simp: set_role_admin_def internal_set_role_admin_def bindE_eq_Inr about_def
      dest!: authorized_trans [of _ _ _ _ _ op] intro!: op_trans_emit split: if_splits)

lemma set_role_guardian_trans: "set_role_guardian A ctx r a s = Inr (u, s') \<Longrightarrow> op_trans (ctx_env ctx) op s s'"
  by (auto simp: set_role_guardian_def internal_set_role_guardian_def bindE_eq_Inr about_def
      dest!: authorized_trans [of _ _ _ _ _ op] intro!: op_trans_emit split: if_splits)

lemma set_grant_delay_trans: "set_grant_delay A ctx r d s = Inr (u, s') \<Longrightarrow> op_trans (ctx_env ctx) op s s'"
  by (auto simp: set_grant_delay_def internal_set_grant_delay_def Let_def bindE_eq_Inr about_def
      dest!: authorized_trans [of _ _ _ _ _ op] intro!: op_trans_emit split: if_splits prod.splits)

lemma set_target_admin_delay_trans:
  "set_target_admin_delay A ctx t d s = Inr (u, s') \<Longrightarrow> op_trans (ctx_env ctx) op s s'"
  by (auto simp: set_target_admin_delay_def internal_set_target_admin_delay_def Let_def bindE_eq_Inr about_def case_prod_beta
      dest!: authorized_trans [of _ _ _ _ _ op] intro!: op_trans_emit)

lemma set_target_closed_trans: "set_target_closed A ctx t c s = Inr (u, s') \<Longrightarrow> op_trans (ctx_env ctx) op s s'"
  by (auto simp: set_target_closed_def internal_set_target_closed_def bindE_eq_Inr about_def
      dest!: authorized_trans [of _ _ _ _ _ op] intro!: op_trans_emit)

lemma function_roles_trans:
  assumes "set_function_roles_loop t sels r x = Inr (u, x')" "op_trans env op s x"
  shows "op_trans env op s x'"
  using assms
proof (induction t sels r x rule: set_function_roles_loop.induct)
  case (2 t sel sels r x)
  then obtain x1 where "internal_set_target_function_role t sel r x = Inr ((), x1)"
    and "set_function_roles_loop t sels r x1 = Inr (u, x')"
    by (auto simp: bindE_eq_Inr)
  moreover from this(1) 2(3) have "op_trans env op s x1"
    by (auto simp: internal_set_target_function_role_def about_def intro!: op_trans_emit split: if_splits)
  ultimately show ?case using "2.IH" by blast
qed simp

lemma set_target_function_role_trans:
  "set_target_function_role A ctx t sels r s = Inr (u, s') \<Longrightarrow> op_trans (ctx_env ctx) op s s'"
  by (auto simp: set_target_function_role_def bindE_eq_Inr dest!: authorized_trans [of _ _ _ _ _ op] intro: function_roles_trans)

lemma update_authority_trans: "update_authority A ctx t a s = Inr (m, s') \<Longrightarrow> op_trans (ctx_env ctx) op s s'"
  by (auto simp: update_authority_def bindE_eq_Inr dest!: authorized_trans [of _ _ _ _ _ op])

lemma consume_scheduled_op_trans: "consume_scheduled_op A ctx c d s = Inr (u, s') \<Longrightarrow> op_trans (ctx_env ctx) op s s'"
  by (auto simp: consume_scheduled_op_def Let_def bindE_eq_Inr dest: consume_trans split: if_splits)

lemma cancel_trans:
  assumes "cancel_op A ctx c t d s = Inr (n, s')"
  shows "op_trans (ctx_env ctx) op s s'"
proof -
  define o' where "o' = hash_operation A c t d"
  from assms have tp: "sched_timepoint (op_state s o') \<noteq> None"
    and s': "s' = emit (OperationCanceled o' (sched_nonce (op_state s o')))
        (s\<lparr>schedules := (schedules s)(o' \<mapsto> (op_state s o')\<lparr>sched_timepoint := None\<rparr>)\<rparr>)"
    by (auto simp: cancel_op_def Let_def bindE_eq_Inr o'_def op_state_def split: if_splits)
  then obtain tp m where "op_state s o' = \<lparr>sched_timepoint = Some tp, sched_nonce = m\<rparr>"
    by (cases "op_state s o'") auto
  with s' show ?thesis
    by (auto intro!: op_trans_one op_cancel simp: about_def)
qed

lemma push_trans:
  assumes "push_execution_id A t d x = Inr (u, x')" "op_trans env op s x"
  shows "op_trans env op s x'"
  using assms by (auto simp: push_execution_id_def bindE_eq_Inr intro: op_trans_eq)

lemma execute_op_trans: "execute_op A ctx t d s = Inr (m, s') \<Longrightarrow> op_trans (ctx_env ctx) op s s'"
  by (auto simp: execute_op_def Let_def bindE_eq_Inr dest: consume_trans intro: push_trans op_trans_refl split: if_splits can_call.splits)

lemma schedule_op_Inr:
  assumes "schedule_op A ctx target data when s = Inr ((op, n), s')"
  shows "\<exists>d. can_call_extended A (ctx_env ctx) s (msg_sender ctx) target data = Inr (WithDelay d) \<and>
    am_timestamp (ctx_env ctx) + ucast d \<le> when \<and> op = hash_operation A (msg_sender ctx) target data \<and>
    (\<forall>tp. sched_timepoint (op_state s op) = Some tp \<longrightarrow> is_expired (ctx_env ctx) tp) \<and>
    n = sched_nonce (op_state s op) + 1 \<and>
    s' = emit (OperationScheduled op n when (msg_sender ctx) target data)
      (s\<lparr>schedules := (schedules s)(op \<mapsto> \<lparr>sched_timepoint = Some when, sched_nonce = n\<rparr>)\<rparr>)"
proof -
  obtain can where can: "can_call_extended A (ctx_env ctx) s (msg_sender ctx) target data = Inr can"
    using assms by (auto simp: schedule_op_def Let_def bindE_eq_Inr)
  then obtain d where "can = WithDelay d"
    using assms by (cases can) (auto simp: schedule_op_def Let_def bindE_eq_Inr)
  with can assms show ?thesis
    by (auto simp: schedule_op_def Let_def bindE_eq_Inr not_less max_absorb1 op_state_def schedule_default_def
        nonce_increment_def split: if_splits option.splits)
qed

lemma nonzero_Some [simp]: "nonzero x = Some y \<longleftrightarrow> y = x \<and> x \<noteq> 0"
  by (auto simp: nonzero_def)

lemma has_role_delay: "has_role env s r a = HasRoleYes (Some d) \<Longrightarrow> d \<noteq> 0"
  by (auto simp: has_role_def Let_def split: if_splits)

lemma can_call_delay: "am_can_call A env s c t sel = Inr (WithDelay d) \<Longrightarrow> d \<noteq> 0"
  unfolding am_can_call_def
  by (cases "get_target_function_role s t sel")
    (auto dest: has_role_delay split: if_splits has_role_result.splits option.splits)

lemma can_call_self_delay: "can_call_self A env s c data = Inr (WithDelay d) \<Longrightarrow> d \<noteq> 0"
  by (auto simp: can_call_self_def bindE_eq_Inr split: if_splits has_role_result.splits option.splits)

lemma can_call_extended_delay: "can_call_extended A env s c t data = Inr (WithDelay d) \<Longrightarrow> d \<noteq> 0"
  by (auto simp: can_call_extended_def bindE_eq_Inr dest: can_call_delay can_call_self_delay split: if_splits)

lemma delay_elapses:
  assumes "am_timestamp env + ucast (d :: u32) \<le> when"
  shows "unat (am_timestamp env) + unat d \<le> unat when" "d \<noteq> 0 \<Longrightarrow> am_timestamp env < when"
proof -
  show a: "unat (am_timestamp env) + unat d \<le> unat when"
    using assms small_time_add [of "am_timestamp env" d] by (simp add: word_le_nat_alt)
  show "am_timestamp env < when" if "d \<noteq> 0"
  proof -
    have "0 < unat d" using that by (simp add: unat_gt_0)
    with a show ?thesis by (simp add: word_less_nat_alt)
  qed
qed

lemma schedule_trans:
  assumes "schedule_op A ctx target data when s = Inr ((op', n), s')"
  shows "op_trans (ctx_env ctx) op s s'"
proof -
  obtain d where d: "can_call_extended A (ctx_env ctx) s (msg_sender ctx) target data = Inr (WithDelay d)"
    "am_timestamp (ctx_env ctx) + ucast d \<le> when"
    and e: "\<forall>tp. sched_timepoint (op_state s op') = Some tp \<longrightarrow> is_expired (ctx_env ctx) tp"
    and s': "n = sched_nonce (op_state s op') + 1" "s' = emit (OperationScheduled op' n when (msg_sender ctx) target data)
      (s\<lparr>schedules := (schedules s)(op' \<mapsto> \<lparr>sched_timepoint = Some when, sched_nonce = n\<rparr>)\<rparr>)"
    using schedule_op_Inr [OF assms] by blast
  have "am_timestamp (ctx_env ctx) < when"
    using delay_elapses(2) [OF d(2)] can_call_extended_delay [OF d(1)] by blast
  from op_schedule [OF e this] show ?thesis
    unfolding s' by (rule op_trans_one) (auto simp: about_def)
qed

lemmas am_trans = label_role_trans grant_role_trans revoke_role_trans renounce_role_trans set_role_admin_trans
  set_role_guardian_trans set_grant_delay_trans set_target_admin_delay_trans set_target_closed_trans
  set_target_function_role_trans update_authority_trans schedule_trans cancel_trans execute_op_trans
  consume_scheduled_op_trans

lemma dispatch_trans: "am_dispatch A ctx msg s = Inr (y, s') \<Longrightarrow> op_trans (ctx_env ctx) op s s'"
  by (cases msg) (auto simp: bindE_eq_Inr dest: am_trans)

section \<open>Calls\<close>

lemma begin_exec_simps [simp]:
  "targets (begin_exec s) = targets s" "target_allowed_roles (begin_exec s) = target_allowed_roles s"
  "roles (begin_exec s) = roles s" "role_members (begin_exec s) = role_members s" "schedules (begin_exec s) = schedules s"
  "execution_id_stack (begin_exec s) = execution_id_stack s" "role_labels (begin_exec s) = role_labels s"
  "am_state_version (begin_exec s) = am_state_version s" "ctx_events (begin_exec s) = []"
  by (simp_all add: begin_exec_def am_store.defs am_exec.defs)

text \<open>What the manager answers depends on the storage only, not on the events of the current call.\<close>

lemma begin_exec_reads:
  "is_target_closed (begin_exec s) = is_target_closed s"
  "get_target_function_role (begin_exec s) = get_target_function_role s"
  "get_target_admin_delay env (begin_exec s) = get_target_admin_delay env s"
  "get_role_admin (begin_exec s) = get_role_admin s"
  "has_role env (begin_exec s) = has_role env s"
  "is_executing A (begin_exec s) = is_executing A s"
  by (simp_all add: fun_eq_iff is_executing_def has_role_def get_access_def get_target_function_role_def
      is_target_closed_def get_target_admin_delay_def get_role_admin_def)

lemma begin_exec_policy [simp]:
  "can_call_self A env (begin_exec s) = can_call_self A env s"
  "can_call_extended A env (begin_exec s) = can_call_extended A env s"
  unfolding fun_eq_iff can_call_extended_def can_call_self_def am_can_call_def get_admin_restrictions_def begin_exec_reads
  by (intro allI refl)+

lemma am_truncate_simps [simp]:
  "targets (am_store.truncate x) = targets x" "target_allowed_roles (am_store.truncate x) = target_allowed_roles x"
  "roles (am_store.truncate x) = roles x" "role_members (am_store.truncate x) = role_members x"
  "schedules (am_store.truncate x) = schedules x" "execution_id_stack (am_store.truncate x) = execution_id_stack x"
  "role_labels (am_store.truncate x) = role_labels x" "am_state_version (am_store.truncate x) = am_state_version x"
  by (simp_all add: am_store.defs)

abbreviation call_ctx :: "am_host \<Rightarrow> block_env \<Rightarrow> message_info \<Rightarrow> am_execute_msg \<Rightarrow> exec_ctx" where
  "call_ctx A env info msg \<equiv> \<lparr>ctx_env = env, ctx_info = info, ctx_data = to_json A msg\<rparr>"

lemma am_execute_Inr:
  assumes "am_execute A env info msg s = Inr (r, s')"
  obtains msgs data x where "am_dispatch A (call_ctx A env info msg) msg (begin_exec s) = Inr ((msgs, data), x)"
    "r = \<lparr>am_events = ctx_events x, am_messages = msgs, am_response_data = data\<rparr>" "s' = am_store.truncate x"
  using assms by (auto simp: am_execute_def am_respond_def bindE_eq_Inr)

lemma am_execute_op_step:
  assumes "am_execute A env info msg s = Inr (r, s')"
  shows "op_step env op (op_state s op) (filter (about op) (am_events r)) (op_state s' op)"
proof -
  obtain msgs data x where d: "am_dispatch A (call_ctx A env info msg) msg (begin_exec s) = Inr ((msgs, data), x)"
    and r: "r = \<lparr>am_events = ctx_events x, am_messages = msgs, am_response_data = data\<rparr>" "s' = am_store.truncate x"
    using am_execute_Inr [OF assms] .
  from dispatch_trans [OF d, of op] show ?thesis
    by (simp add: op_trans_def r op_state_def)
qed

text \<open>C14: Every successful call of the access manager treats every operation as its contract says: it leaves the
  operation alone and reports nothing about it, schedules it for a future time when it is not pending, or ends a
  pending schedule once, by execution inside its window or by cancellation, keeping the nonce.\<close>

theorem calls_refine_operation_contract:
  assumes "am_execute A env info msg s = Inr (r, s')"
  shows "op_step env op (op_state s op) (filter (about op) (am_events r)) (op_state s' op)"
  using assms by (rule am_execute_op_step)

end
