(* ===== verification/Am_Run.thy ===== *)
theory Am_Run
  imports Am_Life
begin

text \<open>
  Runs of the access manager: any sequence of calls, replies and migrations after its instantiation, with
  the trace of the calls and their responses. What the manager reported about an operation determines its
  schedule (\<open>run_op_state\<close>), so that statements about the past of an operation can be read off the trace.
\<close>

section \<open>Runs\<close>

type_synonym am_trace = "(block_env \<times> message_info \<times> am_execute_msg \<times> am_response) list"

inductive am_run :: "am_host \<Rightarrow> am_store \<Rightarrow> am_trace \<Rightarrow> am_store \<Rightarrow> bool" for A s0 where
  am_start: "am_run A s0 [] s0"
| am_call: "am_run A s0 tr s \<Longrightarrow> am_execute A env info msg s = Inr (r, s') \<Longrightarrow>
    am_run A s0 (tr @ [(env, info, msg, r)]) s'"
| am_replied: "am_run A s0 tr s \<Longrightarrow> am_reply i ok s = Inr s' \<Longrightarrow> am_run A s0 tr s'"
| am_migrated: "am_run A s0 tr s \<Longrightarrow> am_migrate env m s = Inr (r, s') \<Longrightarrow> am_run A s0 tr s'"

definition am_empty :: am_store where
  "am_empty = \<lparr>targets = \<lambda>_. None, target_allowed_roles = \<lambda>_. None, roles = \<lambda>_. None, role_members = \<lambda>_. None,
     schedules = \<lambda>_. None, execution_id_stack = None, role_labels = \<lambda>_. None, am_state_version = None\<rparr>"

definition am_reachable :: "am_host \<Rightarrow> am_trace \<Rightarrow> am_store \<Rightarrow> bool" where
  "am_reachable A tr s \<longleftrightarrow> (\<exists>env admin r0 s0. am_instantiate env admin am_empty = Inr (r0, s0) \<and> am_run A s0 tr s)"

lemma am_instantiate_Inr:
  "am_instantiate env admin am_empty = Inr (r, s) \<longleftrightarrow>
     r = \<lparr>am_events = [RoleGranted ADMIN_ROLE admin 0 (am_timestamp env) True], am_messages = [], am_response_data = None\<rparr> \<and>
     s = am_empty\<lparr>am_state_version := Some 1, execution_id_stack := Some [],
       role_members := [(ADMIN_ROLE, admin) \<mapsto> \<lparr>access_since = am_timestamp env, access_delay = delay_new 0\<rparr>]\<rparr>"
  by (auto simp: am_instantiate_def init_state_version_def am_empty_def am_init_def internal_grant_role_def
      put_am_version_def am_respond_def begin_exec_def emit_def am_store.defs am_exec.defs Let_def)

lemma am_reply_Inr:
  assumes "am_reply i ok s = Inr s'"
  shows "\<exists>xs x. execution_id_stack s = Some (xs @ [x]) \<and> s' = s\<lparr>execution_id_stack := Some xs\<rparr>"
proof -
  obtain st where "execution_id_stack s = Some st" "st \<noteq> []" "s' = s\<lparr>execution_id_stack := Some (butlast st)\<rparr>"
    using assms by (cases "execution_id_stack s") (auto simp: am_reply_def bindE_eq_Inr split: if_splits)
  then show ?thesis
    by (intro exI [of _ "butlast st"] exI [of _ "last st"]) simp
qed

text \<open>Once the version is set a migration changes nothing.\<close>

lemma am_migrate_Inr:
  assumes "am_migrate env m s = Inr (r, s')" "am_state_version s = Some v"
  shows "s' = s"
  using assms by (cases m) (auto simp: am_migrate_def upgrade_run_def put_am_version_def)

section \<open>What an authorised call changes\<close>

text \<open>The part of the storage that says who may do what.\<close>

definition same_policy :: "'y am_store_scheme \<Rightarrow> 'z am_store_scheme \<Rightarrow> bool" where
  "same_policy s s' \<longleftrightarrow> targets s' = targets s \<and> target_allowed_roles s' = target_allowed_roles s \<and> roles s' = roles s \<and>
     role_members s' = role_members s \<and> role_labels s' = role_labels s"

lemma consume_frame:
  assumes "internal_consume_scheduled_op ctx op s = Inr (n, s')"
  shows "same_policy s s' \<and> execution_id_stack s' = execution_id_stack s \<and> am_state_version s' = am_state_version s"
  using assms unfolding consume_Inr by (auto simp: same_policy_def)

lemma authorized_frame:
  assumes "only_authorized A ctx s = Inr (u, s')"
  shows "same_policy s s' \<and> execution_id_stack s' = execution_id_stack s \<and> am_state_version s' = am_state_version s"
  using assms unfolding only_authorized_Inr by (auto dest: consume_frame simp: same_policy_def)

lemma function_roles_frame:
  assumes "set_function_roles_loop t sels r x = Inr (u, x')"
  shows "targets x' = targets x \<and> roles x' = roles x \<and> role_members x' = role_members x \<and> role_labels x' = role_labels x \<and>
    schedules x' = schedules x \<and> execution_id_stack x' = execution_id_stack x \<and> am_state_version x' = am_state_version x"
  using assms
proof (induction t sels r x rule: set_function_roles_loop.induct)
  case (2 t sel sels r x)
  then obtain x1 where "internal_set_target_function_role t sel r x = Inr ((), x1)"
    and "set_function_roles_loop t sels r x1 = Inr (u, x')"
    by (auto simp: bindE_eq_Inr)
  with "2.IH" show ?case
    by (auto simp: internal_set_target_function_role_def split: if_splits)
qed simp

lemma internal_frame:
  "internal_grant_role ctx r a g d x = Inr (b, x') \<Longrightarrow> am_state_version x' = am_state_version x \<and> schedules x' = schedules x"
  "internal_revoke_role r a x = Inr (b, x') \<Longrightarrow> am_state_version x' = am_state_version x \<and> schedules x' = schedules x"
  "internal_set_role_admin r q x = Inr (u, x') \<Longrightarrow> am_state_version x' = am_state_version x \<and> schedules x' = schedules x"
  "internal_set_role_guardian r q x = Inr (u, x') \<Longrightarrow> am_state_version x' = am_state_version x \<and> schedules x' = schedules x"
  "internal_set_grant_delay ctx r d x = Inr (u, x') \<Longrightarrow> am_state_version x' = am_state_version x \<and> schedules x' = schedules x"
  "internal_set_target_admin_delay ctx t d x = Inr (u, x') \<Longrightarrow> am_state_version x' = am_state_version x \<and> schedules x' = schedules x"
  "internal_set_target_closed t c x = Inr (u, x') \<Longrightarrow> am_state_version x' = am_state_version x \<and> schedules x' = schedules x"
  "push_execution_id A t dat x = Inr (u, x') \<Longrightarrow> am_state_version x' = am_state_version x \<and> schedules x' = schedules x"
  by (auto simp: internal_grant_role_def internal_revoke_role_def internal_set_role_admin_def internal_set_role_guardian_def
      internal_set_grant_delay_def internal_set_target_admin_delay_def internal_set_target_closed_def push_execution_id_def
      Let_def case_prod_beta bindE_eq_Inr split: if_splits option.splits)

lemma operation_frame:
  "schedule_op A ctx target data w s = Inr (z, x) \<Longrightarrow>
     same_policy s x \<and> execution_id_stack x = execution_id_stack s \<and> am_state_version x = am_state_version s"
  "cancel_op A ctx caller target data s = Inr (n, x) \<Longrightarrow>
     same_policy s x \<and> execution_id_stack x = execution_id_stack s \<and> am_state_version x = am_state_version s"
  "consume_scheduled_op A ctx caller data s = Inr (u, x) \<Longrightarrow>
     same_policy s x \<and> execution_id_stack x = execution_id_stack s \<and> am_state_version x = am_state_version s"
proof -
  assume "schedule_op A ctx target data w s = Inr (z, x)"
  with schedule_op_Inr [of A ctx target data w s "fst z" "snd z" x]
  show "same_policy s x \<and> execution_id_stack x = execution_id_stack s \<and> am_state_version x = am_state_version s"
    by (auto simp: same_policy_def)
next
  assume "cancel_op A ctx caller target data s = Inr (n, x)"
  then show "same_policy s x \<and> execution_id_stack x = execution_id_stack s \<and> am_state_version x = am_state_version s"
    by (auto simp: cancel_op_def Let_def bindE_eq_Inr same_policy_def split: if_splits)
next
  assume "consume_scheduled_op A ctx caller data s = Inr (u, x)"
  then show "same_policy s x \<and> execution_id_stack x = execution_id_stack s \<and> am_state_version x = am_state_version s"
    by (auto simp: consume_scheduled_op_def Let_def bindE_eq_Inr dest: consume_frame split: if_splits)
qed

lemma execute_op_Inr:
  assumes "execute_op A ctx target data s = Inr ((m, n), x)"
  shows "\<exists>s1 can. can_call_extended A (ctx_env ctx) s (msg_sender ctx) target data = Inr can \<and> can \<noteq> NotAuthorized \<and>
    m = CallTarget target data (funds (ctx_info ctx)) EXECUTE_REPLY_ID \<and>
    (internal_consume_scheduled_op ctx (hash_operation A (msg_sender ctx) target data) s = Inr (n, s1) \<or>
      can = Immediate \<and> n = 0 \<and> s1 = s) \<and> push_execution_id A target data s1 = Inr ((), x)"
proof -
  obtain can where c: "can_call_extended A (ctx_env ctx) s (msg_sender ctx) target data = Inr can"
    using assms by (auto simp: execute_op_def Let_def bindE_eq_Inr)
  with assms show ?thesis
    by (cases can) (auto simp: execute_op_def Let_def bindE_eq_Inr split: if_splits)
qed

lemma dispatch_cases [consumes 1, case_names schedule cancel consume authority exec renounce label grant revoke admin guardian
    grant_delay admin_delay closed function_role]:
  assumes "am_dispatch A ctx msg s = Inr (y, x)"
    and schedule: "\<And>t d w z. msg = Schedule t d w \<Longrightarrow> schedule_op A ctx t d w s = Inr (z, x) \<Longrightarrow> P"
    and cancel: "\<And>c t d n. msg = Cancel c t d \<Longrightarrow> cancel_op A ctx c t d s = Inr (n, x) \<Longrightarrow> P"
    and consume: "\<And>c d. msg = ConsumeOp c d \<Longrightarrow> consume_scheduled_op A ctx c d s = Inr ((), x) \<Longrightarrow> P"
    and authority: "\<And>t a. msg = UpdateAuthority t a \<Longrightarrow> only_authorized A ctx s = Inr ((), x) \<Longrightarrow> P"
    and exec: "\<And>target data m n. msg = Execute target data \<Longrightarrow> execute_op A ctx target data s = Inr ((m, n), x) \<Longrightarrow> P"
    and renounce: "\<And>r b. msg = RenounceRole r (msg_sender ctx) \<Longrightarrow> internal_revoke_role r (msg_sender ctx) s = Inr (b, x) \<Longrightarrow> P"
    and label: "\<And>r l s1. msg = LabelRole r l \<Longrightarrow> only_authorized A ctx s = Inr ((), s1) \<Longrightarrow> r \<noteq> ADMIN_ROLE \<Longrightarrow>
      r \<noteq> PUBLIC_ROLE \<Longrightarrow> x = emit (RoleLabelEv r l) (s1\<lparr>role_labels := (role_labels s1)(r \<mapsto> l)\<rparr>) \<Longrightarrow> P"
    and grant: "\<And>r a d g b s1. msg = GrantRole r a d \<Longrightarrow> only_authorized A ctx s = Inr ((), s1) \<Longrightarrow>
      internal_grant_role ctx r a g d s1 = Inr (b, x) \<Longrightarrow> P"
    and revoke: "\<And>r a b s1. msg = RevokeRole r a \<Longrightarrow> only_authorized A ctx s = Inr ((), s1) \<Longrightarrow>
      internal_revoke_role r a s1 = Inr (b, x) \<Longrightarrow> P"
    and admin: "\<And>r q s1. msg = SetRoleAdmin r q \<Longrightarrow> only_authorized A ctx s = Inr ((), s1) \<Longrightarrow>
      internal_set_role_admin r q s1 = Inr ((), x) \<Longrightarrow> P"
    and guardian: "\<And>r q s1. msg = SetRoleGuardian r q \<Longrightarrow> only_authorized A ctx s = Inr ((), s1) \<Longrightarrow>
      internal_set_role_guardian r q s1 = Inr ((), x) \<Longrightarrow> P"
    and grant_delay: "\<And>r d s1. msg = SetGrantDelay r d \<Longrightarrow> only_authorized A ctx s = Inr ((), s1) \<Longrightarrow>
      internal_set_grant_delay ctx r d s1 = Inr ((), x) \<Longrightarrow> P"
    and admin_delay: "\<And>t d s1. msg = SetTargetAdminDelay t d \<Longrightarrow> only_authorized A ctx s = Inr ((), s1) \<Longrightarrow>
      internal_set_target_admin_delay ctx t d s1 = Inr ((), x) \<Longrightarrow> P"
    and closed: "\<And>t c s1. msg = SetTargetClosed t c \<Longrightarrow> only_authorized A ctx s = Inr ((), s1) \<Longrightarrow>
      internal_set_target_closed t c s1 = Inr ((), x) \<Longrightarrow> P"
    and function_role: "\<And>t sels r s1. msg = SetTargetFunctionRole t sels r \<Longrightarrow> only_authorized A ctx s = Inr ((), s1) \<Longrightarrow>
      set_function_roles_loop t sels r s1 = Inr ((), x) \<Longrightarrow> P"
  shows P
proof (cases msg)
  case (LabelRole r l)
  with assms(1) show P by (auto simp: label_role_def bindE_eq_Inr split: if_splits intro: label)
next
  case (GrantRole r a d)
  with assms(1) show P by (auto simp: grant_role_def bindE_eq_Inr intro: grant)
next
  case (RevokeRole r a)
  with assms(1) show P by (auto simp: revoke_role_def bindE_eq_Inr intro: revoke)
next
  case (RenounceRole r a)
  with assms(1) show P by (auto simp: renounce_role_def bindE_eq_Inr split: if_splits intro: renounce)
next
  case (SetRoleAdmin r q)
  with assms(1) show P by (auto simp: set_role_admin_def bindE_eq_Inr intro: admin)
next
  case (SetRoleGuardian r q)
  with assms(1) show P by (auto simp: set_role_guardian_def bindE_eq_Inr intro: guardian)
next
  case (SetGrantDelay r d)
  with assms(1) show P by (auto simp: set_grant_delay_def bindE_eq_Inr intro: grant_delay)
next
  case (SetTargetAdminDelay t d)
  with assms(1) show P by (auto simp: set_target_admin_delay_def bindE_eq_Inr intro: admin_delay)
next
  case (SetTargetClosed t c)
  with assms(1) show P by (auto simp: set_target_closed_def bindE_eq_Inr intro: closed)
next
  case (SetTargetFunctionRole t sels r)
  with assms(1) show P by (auto simp: set_target_function_role_def bindE_eq_Inr intro: function_role)
next
  case (UpdateAuthority t a)
  with assms(1) show P by (auto simp: update_authority_def bindE_eq_Inr intro: authority)
next
  case (Schedule t d w)
  with assms(1) show P by (auto simp: bindE_eq_Inr intro: schedule)
next
  case (Cancel c t d)
  with assms(1) show P by (auto simp: bindE_eq_Inr intro: cancel)
next
  case (Execute t d)
  with assms(1) show P by (auto simp: bindE_eq_Inr intro: exec)
next
  case (ConsumeOp c d)
  with assms(1) show P by (auto simp: bindE_eq_Inr intro: consume)
qed

lemma push_Inr:
  assumes "push_execution_id A t dat s = Inr (u, x)"
  shows "\<exists>st sel. execution_id_stack s = Some st \<and> check_selector A dat = Inr sel \<and>
    x = s\<lparr>execution_id_stack := Some (st @ [hash_execution_id A t sel])\<rparr>"
  using assms by (auto simp: push_execution_id_def bindE_eq_Inr ok_or_eq_Inr)

lemma execute_op_frame:
  assumes "execute_op A ctx target data s = Inr ((m, n), x)"
  shows "same_policy s x \<and> am_state_version x = am_state_version s"
  using execute_op_Inr [OF assms] by (auto dest!: push_Inr consume_frame simp: same_policy_def)

lemma dispatch_version:
  assumes "am_dispatch A ctx msg s = Inr (y, x)"
  shows "am_state_version x = am_state_version s"
  using assms
  by (cases rule: dispatch_cases) (auto dest!: operation_frame authorized_frame execute_op_frame internal_frame function_roles_frame)

lemma am_execute_version:
  assumes "am_execute A env info msg s = Inr (r, s')"
  shows "am_state_version s' = am_state_version s"
  using am_execute_Inr [OF assms] dispatch_version by (metis begin_exec_simps(8) am_truncate_simps(8))

lemma am_run_version:
  assumes "am_run A s0 tr s" "am_state_version s0 = Some v"
  shows "am_state_version s = Some v"
  using assms by (induction) (auto simp: am_execute_version dest!: am_reply_Inr am_migrate_Inr)

section \<open>The log of an operation\<close>

definition op_log :: "h256 \<Rightarrow> am_trace \<Rightarrow> am_event list" where
  "op_log op tr = filter (about op) (concat (map (\<lambda>(_, _, _, r). am_events r) tr))"

lemma op_log_simps [simp]:
  "op_log op [] = []"
  "op_log op (tr @ tr') = op_log op tr @ op_log op tr'"
  "op_log op ((env, info, msg, r) # tr) = filter (about op) (am_events r) @ op_log op tr"
  by (simp_all add: op_log_def)

text \<open>The schedule of an operation after the events of a log, the latest first.\<close>

fun op_after :: "am_event list \<Rightarrow> schedule" where
  "op_after [] = schedule_default"
| "op_after (OperationScheduled _ n w _ _ _ # _) = \<lparr>sched_timepoint = Some w, sched_nonce = n\<rparr>"
| "op_after (OperationExecuted _ n # _) = \<lparr>sched_timepoint = None, sched_nonce = n\<rparr>"
| "op_after (OperationCanceled _ n # _) = \<lparr>sched_timepoint = None, sched_nonce = n\<rparr>"
| "op_after (_ # log) = op_after log"

lemma op_after_step:
  "op_step env op (op_after log) evs y \<Longrightarrow> op_after (rev evs @ log) = y"
  by (erule op_step.cases) auto

lemma run_op_state:
  assumes "am_run A s0 tr s" "\<forall>op. schedules s0 op = None" "am_state_version s0 \<noteq> None"
  shows "op_state s op = op_after (rev (op_log op tr))"
  using assms
proof (induction)
  case am_start
  then show ?case by (simp add: op_state_def)
next
  case (am_call tr s env info msg r s')
  then show ?case
    using op_after_step [of env op "rev (op_log op tr)"] am_execute_op_step [OF am_call.hyps(2), of op] by simp
next
  case (am_replied tr s i ok s')
  then show ?case using am_reply_Inr [OF am_replied.hyps(2)] by (auto simp: op_state_def)
next
  case (am_migrated tr s env m r s')
  then obtain v where "am_state_version s0 = Some v" by blast
  with am_run_version [OF am_migrated.hyps(1)] am_migrate_Inr [OF am_migrated.hyps(2)] am_migrated show ?case by auto
qed

lemma reachable_op_state:
  assumes "am_reachable A tr s"
  shows "op_state s op = op_after (rev (op_log op tr))"
  using assms unfolding am_reachable_def am_instantiate_Inr by (auto simp: am_empty_def intro!: run_op_state)

lemma am_reachable_call:
  assumes "am_reachable A tr s" "am_execute A env info msg s = Inr (r, s')"
  shows "am_reachable A (tr @ [(env, info, msg, r)]) s'"
  using assms unfolding am_reachable_def by (blast intro: am_call)

lemma am_run_split:
  assumes "am_run A s0 tr s" "tr = tr1 @ (env, info, msg, r) # tr2"
  shows "\<exists>s1 s2. am_run A s0 tr1 s1 \<and> am_execute A env info msg s1 = Inr (r, s2)"
  using assms
proof (induction arbitrary: tr2)
  case (am_call tr s env' info' msg' r' s')
  then show ?case
    by (cases tr2 rule: rev_cases) auto
qed auto

end
