(* ===== verification/Am_Safety.thy ===== *)
theory Am_Safety
  imports Am_Run
begin

text \<open>
  Delayed operations over whole runs of the access manager: what is executed was scheduled, by a caller who
  was allowed to call with a delay, and has waited for that delay; no schedule is used twice.
\<close>

section \<open>Who schedules\<close>

definition unscheduling :: "am_exec \<Rightarrow> am_exec \<Rightarrow> bool" where
  "unscheduling s x \<longleftrightarrow> (\<forall>op. op_state x op = op_state s op \<or> sched_timepoint (op_state x op) = None)"

lemma unscheduling_refl [simp]: "unscheduling s s"
  by (simp add: unscheduling_def)

lemma unscheduling_same: "unscheduling s x \<Longrightarrow> schedules x' = schedules x \<Longrightarrow> unscheduling s x'"
  by (simp add: unscheduling_def op_state_def)

lemma consume_unscheduling:
  assumes "internal_consume_scheduled_op ctx op s = Inr (n, x)"
  shows "unscheduling s x"
  using assms unfolding consume_Inr by (auto simp: unscheduling_def)

lemma authorized_unscheduling:
  assumes "only_authorized A ctx s = Inr (u, x)"
  shows "unscheduling s x"
  using assms unfolding only_authorized_Inr by (auto dest: consume_unscheduling)

lemma cancel_unscheduling:
  assumes "cancel_op A ctx caller target data s = Inr (n, x)"
  shows "unscheduling s x"
  using assms by (auto simp: cancel_op_def Let_def bindE_eq_Inr unscheduling_def split: if_splits)

lemma execute_op_unscheduling:
  assumes "execute_op A ctx target data s = Inr ((m, n), x)"
  shows "unscheduling s x"
proof -
  obtain s1 where "unscheduling s s1" "push_execution_id A target data s1 = Inr ((), x)"
    using execute_op_Inr [OF assms] consume_unscheduling by (metis unscheduling_refl)
  then show ?thesis by (auto dest!: push_Inr intro: unscheduling_same)
qed

lemma only_schedule_schedules:
  assumes "am_dispatch A ctx msg s = Inr (y, x)" "\<forall>t d w. msg \<noteq> Schedule t d w"
  shows "unscheduling s x"
  using assms
proof (cases rule: dispatch_cases)
  case (consume c d)
  then show ?thesis
    by (auto simp: consume_scheduled_op_def Let_def bindE_eq_Inr dest: consume_unscheduling split: if_splits)
next
  case (label r l s1)
  from authorized_unscheduling [OF label(2)] show ?thesis unfolding label(5) by (rule unscheduling_same) simp
next
  case (function_role t sels r s1)
  from authorized_unscheduling [OF function_role(2)] show ?thesis
    by (rule unscheduling_same) (use function_roles_frame [OF function_role(3)] in blast)
qed (auto dest!: authorized_unscheduling execute_op_unscheduling cancel_unscheduling internal_frame
    intro: unscheduling_same unscheduling_same [OF unscheduling_refl])

lemma scheduled_event:
  assumes c: "am_execute A env info msg s = Inr (r, s')" and ev: "OperationScheduled op n w c t dat \<in> set (am_events r)"
  shows "\<exists>d. can_call_extended A env s (sender info) t dat = Inr (WithDelay d) \<and> c = sender info \<and>
    op = hash_operation A c t dat \<and> unat (am_timestamp env) + unat d \<le> unat w \<and> d \<noteq> 0"
proof -
  obtain msgs data x where x: "am_dispatch A (call_ctx A env info msg) msg (begin_exec s) = Inr ((msgs, data), x)"
    and r: "r = \<lparr>am_events = ctx_events x, am_messages = msgs, am_response_data = data\<rparr>" "s' = am_store.truncate x"
    using am_execute_Inr [OF c] .
  show ?thesis
  proof (cases "\<forall>t d w. msg \<noteq> Schedule t d w")
    case True
    have "about op (OperationScheduled op n w c t dat)"
      by (simp add: about_def)
    with ev have "OperationScheduled op n w c t dat \<in> set (filter (about op) (am_events r))"
      by simp
    from op_step_scheduled [OF am_execute_op_step [OF c] this]
    have "op_state s' op = \<lparr>sched_timepoint = Some w, sched_nonce = n\<rparr>" "n = sched_nonce (op_state s op) + 1"
      by simp_all
    moreover have "op_state x op = op_state s' op" "op_state (begin_exec s) op = op_state s op"
      by (simp_all add: r op_state_def)
    ultimately show ?thesis
      using only_schedule_schedules [OF x True] unfolding unscheduling_def
      by (metis add_cancel_left_right option.distinct(1) schedule.select_convs(1,2) zero_neq_one)
  next
    case False
    then obtain t' d' w' z where "msg = Schedule t' d' w'"
      "schedule_op A (call_ctx A env info msg) t' d' w' (begin_exec s) = Inr (z, x)"
      using x by (auto simp: bindE_eq_Inr)
    from schedule_op_Inr [of A "call_ctx A env info msg" t' d' w' "begin_exec s" "fst z" "snd z" x] this(2)
    obtain d where d: "can_call_extended A env (begin_exec s) (sender info) t' d' = Inr (WithDelay d)"
      "am_timestamp env + ucast d \<le> w'" "fst z = hash_operation A (sender info) t' d'"
      "x = emit (OperationScheduled (fst z) (snd z) w' (sender info) t' d') ((begin_exec s)\<lparr>schedules := (schedules (begin_exec s))
         (fst z \<mapsto> \<lparr>sched_timepoint = Some w', sched_nonce = snd z\<rparr>)\<rparr>)"
      by (auto simp: msg_sender_def)
    with ev r show ?thesis
      using delay_elapses(1) [OF d(2)] can_call_extended_delay [OF d(1)] by auto
  qed
qed

lemma op_after_pending:
  assumes "op_after (rev log) = \<lparr>sched_timepoint = Some w, sched_nonce = n\<rparr>" "\<forall>ev\<in>set log. about op ev"
  shows "\<exists>log0 c t d. log = log0 @ [OperationScheduled op n w c t d]"
  using assms
proof (cases log rule: rev_cases)
  case Nil
  with assms(1) show ?thesis by (simp add: schedule_default_def)
next
  case (snoc log0 ev)
  with assms show ?thesis by (cases ev) (auto simp: about_def)
qed

lemma op_log_about: "\<forall>ev\<in>set (op_log op tr). about op ev"
  by (auto simp: op_log_def)

lemma op_log_last:
  assumes "op_log op tr = log @ [ev]"
  shows "\<exists>tr1 env info msg r tr2. tr = tr1 @ (env, info, msg, r) # tr2 \<and> ev \<in> set (am_events r) \<and> op_log op tr2 = []"
  using assms
proof (induction tr rule: rev_induct)
  case (snoc c tr)
  obtain env info msg r where c: "c = (env, info, msg, r)" by (cases c)
  show ?case
  proof (cases "filter (about op) (am_events r) = []")
    case True
    with snoc.prems c have "op_log op tr = log @ [ev]" by simp
    from snoc.IH [OF this] obtain tr1 e i m r' tr2 where
      "tr = tr1 @ (e, i, m, r') # tr2" "ev \<in> set (am_events r')" "op_log op tr2 = []" by blast
    with c True show ?thesis
      by (intro exI [of _ tr1] exI [of _ e] exI [of _ i] exI [of _ m] exI [of _ r'] exI [of _ "tr2 @ [c]"]) simp
  next
    case False
    then obtain l e where l: "filter (about op) (am_events r) = l @ [e]" by (meson rev_exhaust)
    with snoc.prems c have "e = ev" by simp
    with l have "ev \<in> set (am_events r)" by (metis filter_is_subset in_set_conv_decomp subsetD)
    with c show ?thesis
      by (intro exI [of _ tr] exI [of _ env] exI [of _ info] exI [of _ msg] exI [of _ r] exI [of _ "[]"]) simp
  qed
qed simp

lemma not_expired:
  assumes "\<not> is_expired env w" "w \<le> am_timestamp env"
  shows "unat (am_timestamp env) < unat w + unat expiration"
proof -
  have "small_time w"
    using assms(2) small_time_block [of env] by (simp add: small_time_def word_le_nat_alt)
  then show ?thesis
    using assms(1) by (simp add: is_expired_def word_le_nat_alt small_time_add not_le)
qed

text \<open>C10: Whenever the manager reports that an operation was executed, it had been scheduled earlier under the same
  nonce, nothing has happened to it since, and the caller who scheduled it was then allowed to make this very call
  with a delay. That delay has elapsed, the scheduled time has come, and less than a week has passed since.\<close>

theorem executed_operations_waited:
  assumes "am_reachable A tr s" "am_execute A env info msg s = Inr (r, s')" "OperationExecuted op n \<in> set (am_events r)"
  shows "\<exists>tr1 env0 info0 msg0 r0 tr2 s0 w target data d.
    tr = tr1 @ (env0, info0, msg0, r0) # tr2 \<and> op_log op tr2 = [] \<and> am_reachable A tr1 s0 \<and>
    OperationScheduled op n w (sender info0) target data \<in> set (am_events r0) \<and>
    op = hash_operation A (sender info0) target data \<and>
    can_call_extended A env0 s0 (sender info0) target data = Inr (WithDelay d) \<and>
    unat (am_timestamp env0) + unat d \<le> unat w \<and> unat w \<le> unat (am_timestamp env) \<and>
    unat (am_timestamp env) < unat w + unat expiration"
proof -
  have "OperationExecuted op n \<in> set (filter (about op) (am_events r))"
    using assms(3) by (simp add: about_def)
  from op_step_executed [OF am_execute_op_step [OF assms(2)] this]
  obtain w where w: "op_state s op = \<lparr>sched_timepoint = Some w, sched_nonce = n\<rparr>"
    "w \<le> am_timestamp env" "\<not> is_expired env w" by blast
  from op_after_pending [of "op_log op tr"] op_log_about reachable_op_state [OF assms(1)] w(1)
  obtain log0 c t d where log: "op_log op tr = log0 @ [OperationScheduled op n w c t d]" by metis
  from op_log_last [OF log] obtain tr1 env0 info0 msg0 r0 tr2 where
    tr: "tr = tr1 @ (env0, info0, msg0, r0) # tr2" and ev: "OperationScheduled op n w c t d \<in> set (am_events r0)"
    and quiet: "op_log op tr2 = []" by blast
  obtain env00 admin ri si where i: "am_instantiate env00 admin am_empty = Inr (ri, si)" "am_run A si tr s"
    using assms(1) unfolding am_reachable_def by blast
  then obtain s0 s1 where s0: "am_run A si tr1 s0" "am_execute A env0 info0 msg0 s0 = Inr (r0, s1)"
    using am_run_split [OF i(2) tr] by blast
  from scheduled_event [OF s0(2) ev] obtain dl where
    "can_call_extended A env0 s0 (sender info0) t d = Inr (WithDelay dl)" "c = sender info0"
    "op = hash_operation A c t d" "unat (am_timestamp env0) + unat dl \<le> unat w" by blast
  moreover have "am_reachable A tr1 s0"
    using i(1) s0(1) unfolding am_reachable_def by blast
  ultimately show ?thesis
    using tr ev quiet w not_expired [OF w(3,2)] unfolding word_le_nat_alt by blast
qed

definition is_scheduled_ev :: "am_event \<Rightarrow> bool" where
  "is_scheduled_ev ev = (case ev of OperationScheduled _ _ _ _ _ _ \<Rightarrow> True | _ \<Rightarrow> False)"

definition scheduled_count :: "h256 \<Rightarrow> am_trace \<Rightarrow> nat" where
  "scheduled_count op tr = length (filter is_scheduled_ev (op_log op tr))"

definition ended_count :: "h256 \<Rightarrow> am_trace \<Rightarrow> nat" where
  "ended_count op tr = length (filter (Not \<circ> is_scheduled_ev) (op_log op tr))"

definition pending_count :: "schedule \<Rightarrow> nat" where
  "pending_count x = (if sched_timepoint x = None then 0 else 1)"

lemma op_step_counts:
  assumes "op_step env op x evs y" "of_nat k = sched_nonce x" "e + pending_count x \<le> k"
  shows "of_nat (k + length (filter is_scheduled_ev evs)) = sched_nonce y \<and>
    e + length (filter (Not \<circ> is_scheduled_ev) evs) + pending_count y \<le> k + length (filter is_scheduled_ev evs)"
  using assms by cases (auto simp: is_scheduled_ev_def pending_count_def)

lemma run_counts:
  assumes "am_run A s0 tr s" "\<forall>op. schedules s0 op = None" "am_state_version s0 \<noteq> None"
  shows "of_nat (scheduled_count op tr) = sched_nonce (op_state s op) \<and>
    ended_count op tr + pending_count (op_state s op) \<le> scheduled_count op tr"
  using assms
proof (induction)
  case am_start
  then show ?case
    by (simp add: op_state_def schedule_default_def scheduled_count_def ended_count_def pending_count_def)
next
  case (am_call tr s env info msg r s')
  then show ?case
    using op_step_counts [OF am_execute_op_step [OF am_call.hyps(2), of op], of "scheduled_count op tr" "ended_count op tr"]
    by (simp add: scheduled_count_def ended_count_def)
next
  case (am_replied tr s i ok s')
  then show ?case using am_reply_Inr [OF am_replied.hyps(2)] by (auto simp: op_state_def)
next
  case (am_migrated tr s env m r s')
  then obtain v where "am_state_version s0 = Some v" by blast
  with am_run_version [OF am_migrated.hyps(1)] am_migrate_Inr [OF am_migrated.hyps(2)] am_migrated show ?case by auto
qed

text \<open>Over every run a schedule is used at most once: the executions and cancellations of an operation, and the
  schedule that is pending, never outnumber the times it was scheduled. Its nonce counts these times, modulo
  \<open>2\<^sup>3\<^sup>2\<close>.\<close>

theorem schedules_used_once:
  assumes "am_reachable A tr s"
  shows "ended_count op tr + pending_count (op_state s op) \<le> scheduled_count op tr \<and>
    get_nonce s op = of_nat (scheduled_count op tr)"
proof -
  have "get_nonce s op = sched_nonce (op_state s op)"
    by (cases "schedules s op") (simp_all add: get_nonce_def op_state_def schedule_default_def)
  with assms run_counts show ?thesis
    unfolding am_reachable_def am_instantiate_Inr by (fastforce simp: am_empty_def)
qed

section \<open>Times at the end of the range\<close>

lemma far_future_expired:
  assumes "2 ^ 64 - 604800 \<le> unat w" "604800 \<le> unat (am_timestamp env)"
  shows "is_expired env w"
proof -
  have "unat w < 2 ^ 64"
    using unsigned_less [where ?'a = nat and w = w] by simp
  then have "unat (w + ucast expiration) = unat w + 604800 - 2 ^ 64"
    using assms(1) by (simp add: unat_word_ariths expiration_def mod_if [of "unat w + 604800"])
  then show ?thesis
    using assms \<open>unat w < 2 ^ 64\<close> by (simp add: is_expired_def word_le_nat_alt)
qed

text \<open>An operation scheduled for the last week of the range of \<open>u64\<close> is never pending: adding the expiration
  period wraps around, so the operation counts as expired at once and its schedule reads as absent.\<close>

theorem far_future_schedule_is_lost:
  assumes "am_execute A env info (Schedule t dat w) s = Inr (r, s')"
    and "2 ^ 64 - 604800 \<le> unat w" "604800 \<le> unat (am_timestamp env)"
  shows "get_schedule env s' (hash_operation A (sender info) t dat) = None"
proof -
  let ?c = "call_ctx A env info (Schedule t dat w)"
  obtain z x where z: "schedule_op A ?c t dat w (begin_exec s) = Inr (z, x)" and s': "s' = am_store.truncate x"
    by (rule am_execute_Inr [OF assms(1)]) (auto simp: bindE_eq_Inr)
  with schedule_op_Inr [of A ?c t dat w "begin_exec s" "fst z" "snd z" x]
  have "schedules s' (hash_operation A (sender info) t dat) = Some \<lparr>sched_timepoint = Some w, sched_nonce = snd z\<rparr>"
    by (auto simp: msg_sender_def)
  then show ?thesis
    using far_future_expired [OF assms(2,3)] by (simp add: get_schedule_def)
qed

end
