(* ===== verification/Am_Auth.thy ===== *)
theory Am_Auth
  imports Am_Safety
begin

text \<open>
  Who may change the policy of the access manager, and what nobody can change: the configuration of the
  admin role and of the public role.
\<close>

section \<open>Authorised callers\<close>

definition authorized_for :: "block_env \<Rightarrow> 'z am_store_scheme \<Rightarrow> addr \<Rightarrow> role_id \<Rightarrow> bool" where
  "authorized_for env s caller r \<longleftrightarrow> caller = contract_address env \<or> is_member (has_role env s r caller)"

lemma only_authorized_role:
  assumes "only_authorized A ctx s = Inr (u, s1)"
    and "get_admin_restrictions A (ctx_env ctx) s (ctx_data ctx) = Inr (b, r, d)"
  shows "authorized_for (ctx_env ctx) s (msg_sender ctx) r"
proof -
  obtain can where "can_call_self A (ctx_env ctx) s (msg_sender ctx) (ctx_data ctx) = Inr can" "can \<noteq> NotAuthorized"
    using assms(1) unfolding only_authorized_Inr by auto
  with assms(2) show ?thesis
    by (auto simp: can_call_self_def authorized_for_def address_this_def is_member_def split: if_splits has_role_result.splits)
qed

text \<open>The role that each restricted function of the manager asks for.\<close>

fun required_role :: "am_store \<Rightarrow> am_execute_msg \<Rightarrow> role_id option" where
  "required_role s (GrantRole r _ _) = Some (get_role_admin s r)"
| "required_role s (RevokeRole r _) = Some (get_role_admin s r)"
| "required_role s (RenounceRole _ _) = None"
| "required_role s (Schedule _ _ _) = None"
| "required_role s (Cancel _ _ _) = None"
| "required_role s (Execute _ _) = None"
| "required_role s (ConsumeOp _ _) = None"
| "required_role s _ = Some ADMIN_ROLE"

lemma restricted_call_role:
  assumes "only_authorized A (call_ctx A env info msg) (begin_exec s) = Inr (u, s1)"
    and "from_json A (to_json A msg) = Some msg" "required_role s msg = Some r"
  shows "authorized_for env s (sender info) r"
proof -
  have "\<exists>d. get_admin_restrictions A env (begin_exec s) (to_json A msg) = Inr (True, r, d)"
    using assms(2,3) by (cases msg) (auto simp: get_admin_restrictions_def begin_exec_reads)
  with only_authorized_role [OF assms(1)] show ?thesis
    by (auto simp: authorized_for_def msg_sender_def begin_exec_reads)
qed

section \<open>Changes of the policy\<close>

lemma revoke_members:
  assumes "internal_revoke_role r a x = Inr (b, x')"
  shows "r \<noteq> PUBLIC_ROLE \<and> (\<forall>k. k \<noteq> (r, a) \<longrightarrow> role_members x' k = role_members x k) \<and> targets x' = targets x \<and>
    target_allowed_roles x' = target_allowed_roles x \<and> roles x' = roles x \<and> role_labels x' = role_labels x"
  using assms by (auto simp: internal_revoke_role_def split: if_splits option.splits)

lemma grant_members:
  assumes "internal_grant_role ctx r a g d x = Inr (b, x')"
  shows "r \<noteq> PUBLIC_ROLE \<and> (\<forall>k. k \<noteq> (r, a) \<longrightarrow> role_members x' k = role_members x k) \<and> targets x' = targets x \<and>
    target_allowed_roles x' = target_allowed_roles x \<and> roles x' = roles x \<and> role_labels x' = role_labels x"
  using assms by (auto simp: internal_grant_role_def Let_def case_prod_beta split: if_splits option.splits)

lemma admin_ops_members:
  "internal_set_role_admin r q x = Inr (u, x') \<Longrightarrow> role_members x' = role_members x"
  "internal_set_role_guardian r q x = Inr (u, x') \<Longrightarrow> role_members x' = role_members x"
  "internal_set_grant_delay ctx r d x = Inr (u, x') \<Longrightarrow> role_members x' = role_members x"
  "internal_set_target_admin_delay ctx t d x = Inr (u, x') \<Longrightarrow> role_members x' = role_members x"
  "internal_set_target_closed t c x = Inr (u, x') \<Longrightarrow> role_members x' = role_members x"
  by (auto simp: internal_set_role_admin_def internal_set_role_guardian_def internal_set_grant_delay_def
      internal_set_target_admin_delay_def internal_set_target_closed_def Let_def case_prod_beta split: if_splits)

definition same_config :: "'y am_store_scheme \<Rightarrow> 'z am_store_scheme \<Rightarrow> bool" where
  "same_config s s' \<longleftrightarrow> targets s' = targets s \<and> target_allowed_roles s' = target_allowed_roles s \<and> roles s' = roles s \<and>
     role_labels s' = role_labels s"

lemma same_policy_config: "same_policy s s' \<longleftrightarrow> same_config s s' \<and> role_members s' = role_members s"
  by (auto simp: same_policy_def same_config_def)

lemma dispatch_policy:
  assumes "am_dispatch A ctx msg s = Inr (y, x)"
  shows "same_policy s x \<or>
    (\<exists>r. msg = RenounceRole r (msg_sender ctx) \<and> same_config s x \<and>
      (\<forall>k. k \<noteq> (r, msg_sender ctx) \<longrightarrow> role_members x k = role_members s k)) \<or>
    (\<exists>s1. only_authorized A ctx s = Inr ((), s1) \<and>
      ((\<exists>r a d. msg = GrantRole r a d \<and> same_config s x \<and> (\<forall>k. k \<noteq> (r, a) \<longrightarrow> role_members x k = role_members s k)) \<or>
       (\<exists>r a. msg = RevokeRole r a \<and> same_config s x \<and> (\<forall>k. k \<noteq> (r, a) \<longrightarrow> role_members x k = role_members s k)) \<or>
       (\<forall>q. required_role q msg = Some ADMIN_ROLE) \<and> role_members x = role_members s))"
  using assms
proof (cases rule: dispatch_cases)
  case (schedule t d w z)
  then show ?thesis using operation_frame(1) by blast
next
  case (cancel c t d n)
  then show ?thesis using operation_frame(2) by blast
next
  case (consume c d)
  then show ?thesis using operation_frame(3) by blast
next
  case (authority t a)
  then show ?thesis using authorized_frame by blast
next
  case (exec t d m n)
  then show ?thesis using execute_op_frame by blast
next
  case (renounce r b)
  then show ?thesis using revoke_members [OF renounce(2)] by (auto simp: same_config_def)
next
  case (grant r a d g b s1)
  then show ?thesis using grant_members [OF grant(3)] authorized_frame [OF grant(2)] by (auto simp: same_policy_config same_config_def)
next
  case (revoke r a b s1)
  then show ?thesis using revoke_members [OF revoke(3)] authorized_frame [OF revoke(2)] by (auto simp: same_policy_config same_config_def)
next
  case (function_role t sels r s1)
  then show ?thesis
    using function_roles_frame [OF function_role(3)] authorized_frame [OF function_role(2)] by (auto simp: same_policy_def)
qed (auto dest!: authorized_frame admin_ops_members simp: same_policy_def)

lemma am_execute_policy:
  assumes "am_execute A env info msg s = Inr (r, s')"
  obtains x y where "am_dispatch A (call_ctx A env info msg) msg (begin_exec s) = Inr (y, x)"
    "targets s' = targets x" "target_allowed_roles s' = target_allowed_roles x" "roles s' = roles x"
    "role_members s' = role_members x" "role_labels s' = role_labels x"
  using am_execute_Inr [OF assms] by (metis am_truncate_simps(1-4) am_truncate_simps(7))

text \<open>C11: The policy of the manager changes by the hand of those it names only. When a call changes the access of an
  account to a role, the account has renounced the role itself, or the caller holds the role's admin role; when it
  changes a role, a label, a target or the role of a target's function, the caller holds the admin role. The one
  other caller is the manager itself, inside an execution. The hypothesis is that the parser reads back the message
  that was printed.\<close>

theorem policy_changes_are_authorized:
  assumes "am_execute A env info msg s = Inr (r, s')" "from_json A (to_json A msg) = Some msg"
  shows "(role_members s' (role, account) \<noteq> role_members s (role, account) \<longrightarrow>
      msg = RenounceRole role account \<and> sender info = account \<or>
      authorized_for env s (sender info) (get_role_admin s role)) \<and>
    (\<not> same_config s s' \<longrightarrow> authorized_for env s (sender info) ADMIN_ROLE)"
proof -
  obtain x y where d: "am_dispatch A (call_ctx A env info msg) msg (begin_exec s) = Inr (y, x)"
    and f: "targets s' = targets x" "target_allowed_roles s' = target_allowed_roles x" "roles s' = roles x"
      "role_members s' = role_members x" "role_labels s' = role_labels x"
    using am_execute_policy [OF assms(1)] .
  have c: "same_config s s' \<longleftrightarrow> same_config (begin_exec s) x"
    by (simp add: same_config_def f)
  note role = restricted_call_role [OF _ assms(2)]
  from dispatch_policy [OF d] consider "same_config s s'" "role_members s' = role_members s"
    | q where "msg = RenounceRole q (sender info)" "same_config s s'"
        "\<forall>k. k \<noteq> (q, sender info) \<longrightarrow> role_members s' k = role_members s k"
    | q a s1 where "only_authorized A (call_ctx A env info msg) (begin_exec s) = Inr ((), s1)" "same_config s s'"
        "required_role s msg = Some (get_role_admin s q)" "\<forall>k. k \<noteq> (q, a) \<longrightarrow> role_members s' k = role_members s k"
    | s1 where "only_authorized A (call_ctx A env info msg) (begin_exec s) = Inr ((), s1)"
        "required_role s msg = Some ADMIN_ROLE" "role_members s' = role_members s"
    by (auto simp: same_policy_config c f msg_sender_def)
  then show ?thesis
  proof cases
    case (2 q)
    then show ?thesis by (cases "role = q \<and> account = sender info") auto
  next
    case (3 q a s1)
    then show ?thesis using role [OF 3(1,3)] by (cases "role = q \<and> account = a") auto
  next
    case (4 s1)
    then show ?thesis using role [OF 4(1,2)] by simp
  qed simp
qed

section \<open>Locked roles\<close>

definition locked :: "'z am_store_scheme \<Rightarrow> bool" where
  "locked s \<longleftrightarrow> roles s PUBLIC_ROLE = None \<and> (\<forall>a. role_members s (PUBLIC_ROLE, a) = None) \<and>
     role_labels s PUBLIC_ROLE = None \<and> role_labels s ADMIN_ROLE = None \<and>
     get_role_admin s ADMIN_ROLE = ADMIN_ROLE \<and> get_role_guardian s ADMIN_ROLE = ADMIN_ROLE"

lemma locked_cong:
  "roles s' = roles s \<Longrightarrow> role_members s' = role_members s \<Longrightarrow> role_labels s' = role_labels s \<Longrightarrow> locked s' \<longleftrightarrow> locked s"
  by (simp add: locked_def get_role_admin_def get_role_guardian_def)

lemma authorized_locked:
  assumes "only_authorized A ctx s = Inr (u, s1)" "locked s"
  shows "locked s1"
  using authorized_frame [OF assms(1)] assms(2) locked_cong [of s1 s] by (simp add: same_policy_def)

lemma internal_locked:
  assumes "locked x"
  shows "internal_grant_role ctx r a g d x = Inr (b, x') \<Longrightarrow> locked x'"
    and "internal_revoke_role r a x = Inr (b, x') \<Longrightarrow> locked x'"
    and "internal_set_role_admin r q x = Inr (u, x') \<Longrightarrow> locked x'"
    and "internal_set_role_guardian r q x = Inr (u, x') \<Longrightarrow> locked x'"
    and "internal_set_grant_delay ctx r d x = Inr (u, x') \<Longrightarrow> locked x'"
    and "internal_set_target_admin_delay ctx t d x = Inr (u, x') \<Longrightarrow> locked x'"
    and "internal_set_target_closed t c x = Inr (u, x') \<Longrightarrow> locked x'"
  using assms
  by (auto simp: locked_def get_role_admin_def get_role_guardian_def internal_grant_role_def internal_revoke_role_def
      internal_set_role_admin_def internal_set_role_guardian_def internal_set_grant_delay_def
      internal_set_target_admin_delay_def internal_set_target_closed_def Let_def case_prod_beta
      split: if_splits option.splits)

lemma dispatch_locked:
  assumes "am_dispatch A ctx msg s = Inr (y, x)" "locked s"
  shows "locked x"
proof -
  note same = locked_cong [of x s]
  from assms(1) show ?thesis
  proof (cases rule: dispatch_cases)
    case (label r l s1)
    from authorized_locked [OF label(2) assms(2)] show ?thesis
      using label by (simp add: locked_def get_role_admin_def get_role_guardian_def)
  next
    case (function_role t sels r s1)
    from authorized_locked [OF function_role(2) assms(2)] show ?thesis
      using function_roles_frame [OF function_role(3)] locked_cong [of x s1] by blast
  qed (use same assms(2) in \<open>auto simp: same_policy_def dest!: operation_frame execute_op_frame
        dest: authorized_locked internal_locked\<close>)
qed

text \<open>Nobody can change the admin role's own admin or guardian, or give the admin or the public role a label, or
  configure the public role or list members for it: in every reachable state the admin role administers and guards
  itself, and the public role is held by everybody, without delay.\<close>

theorem locked_roles_stay_locked:
  assumes "am_reachable A tr s"
  shows "locked s \<and> has_role env s PUBLIC_ROLE account = HasRoleYes None"
proof -
  obtain env0 admin r0 s0 where i: "am_instantiate env0 admin am_empty = Inr (r0, s0)" and run: "am_run A s0 tr s"
    using assms unfolding am_reachable_def by blast
  have l0: "locked s0" and v0: "am_state_version s0 = Some 1"
    using i unfolding am_instantiate_Inr
    by (auto simp: locked_def am_empty_def get_role_admin_def get_role_guardian_def role_default_def)
  from run have "locked s"
  proof induction
    case (am_call tr s env info msg r s')
    obtain x y where d: "am_dispatch A (call_ctx A env info msg) msg (begin_exec s) = Inr (y, x)"
      and f: "roles s' = roles x" "role_members s' = role_members x" "role_labels s' = role_labels x"
      using am_execute_policy [OF am_call.hyps(2)] by metis
    have "locked (begin_exec s)"
      using am_call.IH by (simp add: locked_def get_role_admin_def get_role_guardian_def)
    from dispatch_locked [OF d this] show ?case
      by (simp add: locked_def get_role_admin_def get_role_guardian_def f)
  next
    case (am_replied tr s i ok s')
    then show ?case using am_reply_Inr [OF am_replied.hyps(2)] by (auto simp: locked_def get_role_admin_def get_role_guardian_def)
  next
    case (am_migrated tr s env m r s')
    then show ?case using am_migrate_Inr [OF am_migrated.hyps(2) am_run_version [OF am_migrated.hyps(1) v0]] by simp
  qed (rule l0)
  then show ?thesis by (simp add: has_role_def)
qed

end
