(* ===== verification/Am_Tx.thy ===== *)
theory Am_Tx
  imports Am_Auth
begin

text \<open>
  Transactions. A CosmWasm transaction is a tree of calls: the operation that \<open>Execute\<close> sends to its target
  runs, with all the calls it makes in turn, before the reply returns to the manager. The relation \<open>am_tx\<close>
  holds the calls to the manager of such trees; calls that fail leave no trace. The stack of execution
  identifiers follows the nesting exactly, so the manager acts for itself during its own executions only.
\<close>

section \<open>The stack in one call\<close>

lemma internal_stack:
  "internal_grant_role ctx r a g d x = Inr (b, x') \<Longrightarrow> execution_id_stack x' = execution_id_stack x"
  "internal_revoke_role r a x = Inr (b, x') \<Longrightarrow> execution_id_stack x' = execution_id_stack x"
  "internal_set_role_admin r q x = Inr (u, x') \<Longrightarrow> execution_id_stack x' = execution_id_stack x"
  "internal_set_role_guardian r q x = Inr (u, x') \<Longrightarrow> execution_id_stack x' = execution_id_stack x"
  "internal_set_grant_delay ctx r d x = Inr (u, x') \<Longrightarrow> execution_id_stack x' = execution_id_stack x"
  "internal_set_target_admin_delay ctx t d x = Inr (u, x') \<Longrightarrow> execution_id_stack x' = execution_id_stack x"
  "internal_set_target_closed t c x = Inr (u, x') \<Longrightarrow> execution_id_stack x' = execution_id_stack x"
  by (auto simp: internal_grant_role_def internal_revoke_role_def internal_set_role_admin_def internal_set_role_guardian_def
      internal_set_grant_delay_def internal_set_target_admin_delay_def internal_set_target_closed_def
      Let_def case_prod_beta split: if_splits option.splits)

lemma dispatch_stack:
  assumes "am_dispatch A ctx msg s = Inr (y, x)" "\<forall>t d. msg \<noteq> Execute t d"
  shows "execution_id_stack x = execution_id_stack s"
  using assms
proof (cases rule: dispatch_cases)
  case (exec t d m n)
  with assms(2) show ?thesis by simp
qed (auto dest!: operation_frame authorized_frame internal_stack function_roles_frame)

lemma am_execute_stack:
  assumes "am_execute A env info msg s = Inr (r, s')" "\<forall>t d. msg \<noteq> Execute t d"
  shows "execution_id_stack s' = execution_id_stack s"
  using am_execute_Inr [OF assms(1)] dispatch_stack [OF _ assms(2)] by (metis begin_exec_simps(6) am_truncate_simps(6))

lemma am_execute_push:
  assumes "am_execute A env info (Execute t dat) s = Inr (r, s')"
  shows "\<exists>st sel can. execution_id_stack s = Some st \<and> check_selector A dat = Inr sel \<and>
    execution_id_stack s' = Some (st @ [hash_execution_id A t sel]) \<and>
    can_call_extended A env s (sender info) t dat = Inr can \<and> can \<noteq> NotAuthorized \<and>
    am_messages r = [CallTarget t dat (funds info) EXECUTE_REPLY_ID]"
proof -
  let ?c = "call_ctx A env info (Execute t dat)"
  obtain m n x where x: "execute_op A ?c t dat (begin_exec s) = Inr ((m, n), x)"
    and r: "r = \<lparr>am_events = ctx_events x, am_messages = [m], am_response_data = Some (NonceData n)\<rparr>" "s' = am_store.truncate x"
    by (rule am_execute_Inr [OF assms]) (auto simp: bindE_eq_Inr)
  obtain s1 can where c: "can_call_extended A env s (sender info) t dat = Inr can" "can \<noteq> NotAuthorized"
    "m = CallTarget t dat (funds info) EXECUTE_REPLY_ID" and p: "push_execution_id A t dat s1 = Inr ((), x)"
    and s1: "internal_consume_scheduled_op ?c (hash_operation A (msg_sender ?c) t dat) (begin_exec s) = Inr (n, s1) \<or> s1 = begin_exec s"
    using execute_op_Inr [OF x] by (auto simp: msg_sender_def)
  from s1 have "execution_id_stack s1 = execution_id_stack s"
    using consume_frame by fastforce
  with push_Inr [OF p] c r show ?thesis by auto
qed

section \<open>Transactions\<close>

definition asks_reply :: "am_response \<Rightarrow> bool" where
  "asks_reply r \<longleftrightarrow> (\<exists>t d f. CallTarget t d f EXECUTE_REPLY_ID \<in> set (am_messages r))"

inductive am_tx :: "am_host \<Rightarrow> block_env \<Rightarrow> am_store \<Rightarrow> am_store \<Rightarrow> bool" for A env where
  tx_done: "am_tx A env s s"
| tx_call: "am_execute A env info msg s = Inr (r, s1) \<Longrightarrow> \<not> asks_reply r \<Longrightarrow> am_tx A env s1 s2 \<Longrightarrow> am_tx A env s s2"
| tx_nested: "am_execute A env info msg s = Inr (r, s1) \<Longrightarrow> asks_reply r \<Longrightarrow> am_tx A env s1 s2 \<Longrightarrow>
    am_reply EXECUTE_REPLY_ID True s2 = Inr s3 \<Longrightarrow> am_tx A env s3 s4 \<Longrightarrow> am_tx A env s s4"

lemma execute_asks_reply:
  "am_execute A env info (Execute t dat) s = Inr (r, s') \<Longrightarrow> asks_reply r"
  using am_execute_push by (fastforce simp: asks_reply_def)

lemma asks_reply_execute:
  assumes "am_execute A env info msg s = Inr (r, s')" "asks_reply r"
  shows "\<exists>t dat. msg = Execute t dat"
proof -
  obtain x y where "am_dispatch A (call_ctx A env info msg) msg (begin_exec s) = Inr ((am_messages r, y), x)"
    using am_execute_Inr [OF assms(1)] by fastforce
  then show ?thesis
    using assms(2) by (cases msg) (auto simp: bindE_eq_Inr asks_reply_def update_authority_def dest!: sym [of "[_]" "am_messages r"])
qed

lemma tx_stack:
  assumes "am_tx A env s s'"
  shows "execution_id_stack s' = execution_id_stack s"
  using assms
proof induction
  case (tx_call info msg s r s1 s2)
  then have "\<forall>t d. msg \<noteq> Execute t d" using execute_asks_reply by blast
  with tx_call am_execute_stack [OF tx_call.hyps(1)] show ?case by simp
next
  case (tx_nested info msg s r s1 s2 s3 s4)
  obtain t dat where m: "msg = Execute t dat"
    using asks_reply_execute [OF tx_nested.hyps(1,2)] by blast
  obtain st where "execution_id_stack s = Some st" "\<exists>i. execution_id_stack s1 = Some (st @ [i])"
    using am_execute_push [OF tx_nested.hyps(1) [unfolded m]] by blast
  then show ?case
    using am_reply_Inr [OF tx_nested.hyps(4)] tx_nested.IH by auto
qed simp

text \<open>C22: However deep executions nest, the stack of execution identifiers is back where it was when the target of an
  execution has run: on top of it is the identifier of this target and function, the reply that pops it succeeds
  (its \<open>expect\<close> never fails), and what is left is the stack from before the execution.\<close>

theorem execution_stack_balanced:
  assumes "am_execute A env info (Execute t dat) s = Inr (r, s1)" "am_tx A env s1 s2"
  shows "\<exists>st sel s3. execution_id_stack s = Some st \<and> check_selector A dat = Inr sel \<and>
    execution_id_stack s2 = Some (st @ [hash_execution_id A t sel]) \<and>
    am_reply EXECUTE_REPLY_ID True s2 = Inr s3 \<and> execution_id_stack s3 = Some st"
  using am_execute_push [OF assms(1)] tx_stack [OF assms(2)] by (auto simp: am_reply_def)

section \<open>Between transactions\<close>

inductive am_chain :: "am_host \<Rightarrow> am_store \<Rightarrow> bool" for A where
  chain_start: "am_instantiate env admin am_empty = Inr (r, s) \<Longrightarrow> am_chain A s"
| chain_tx: "am_chain A s \<Longrightarrow> am_tx A env s s' \<Longrightarrow> am_chain A s'"

lemma chain_stack: "am_chain A s \<Longrightarrow> execution_id_stack s = Some []"
  by (induction rule: am_chain.induct) (auto simp: am_instantiate_Inr tx_stack)

text \<open>Between transactions the manager has no rights of its own: with no execution under way, a call in its name
  is refused, on itself and on every target. So the exception that the manager makes for itself serves running
  executions only.\<close>

theorem manager_has_no_standing_rights:
  assumes "am_chain A s"
  shows "(\<not> is_internal sel \<longrightarrow> am_can_call A env s (contract_address env) t sel = Inr NotAuthorized) \<and>
    can_call_self A env s (contract_address env) dat \<noteq> Inr Immediate \<and>
    (\<nexists>d. can_call_self A env s (contract_address env) dat = Inr (WithDelay d))"
  using chain_stack [OF assms]
  by (auto simp: am_can_call_def can_call_self_def address_this_def is_executing_def bindE_eq_Inr)

end
