(* ===== verification/Core_Client.thy ===== *)
theory Core_Client
  imports Core_State
begin

text \<open>
  Light clients in the IBC core contract (\<open>cosmwasm/core/src/contract.rs\<close>): registration of client
  types, creation, updates, misbehaviour, migration of client states by the light client contract
  itself, and the commitment of (non-)membership proofs.
\<close>

section \<open>Handlers\<close>

definition register_client :: "string \<Rightarrow> addr \<Rightarrow> core_state \<Rightarrow> handler_result" where
  "register_client client_type client_address s =
     (case client_registry s client_type of
       Some _ \<Rightarrow> Inl ClientTypeAlreadyExists
     | None \<Rightarrow>
         Inr (respond [RegisterClientEv client_type client_address] [],
              s\<lparr>client_registry := (client_registry s)(client_type \<mapsto> client_address)\<rparr>))"

definition write_client_store :: "client_id \<Rightarrow> storage_writes \<Rightarrow> core_state \<Rightarrow> core_state" where
  "write_client_store cl ws s =
     fold (\<lambda>(k, v) s. s\<lparr>client_store := (client_store s)((cl, k) \<mapsto> v)\<rparr>) ws s"

definition init_client :: "host \<Rightarrow> message_info \<Rightarrow> bytes \<Rightarrow> bytes \<Rightarrow> addr \<Rightarrow> addr \<Rightarrow> client_id \<Rightarrow> core_state
    \<Rightarrow> contract_error + ((verify_creation_response \<times> u64) \<times> core_state)" where
  "init_client H info client_state_bytes consensus_state_bytes relayer impl cl s =
     (let s1 = s\<lparr>client_states := (client_states s)(cl \<mapsto> client_state_bytes)\<rparr> in
      bindE (query_light_client (q_height H) s1 impl (GetLatestHeight cl)) (\<lambda>latest_height.
      let s2 = s1\<lparr>client_consensus_states :=
                    (client_consensus_states s1)((cl, latest_height) \<mapsto> consensus_state_bytes)\<rparr> in
      bindE (query_light_client (q_creation H) s2 impl (VerifyCreation (sender info) cl relayer)) (\<lambda>vcr.
      let s3 = (case vcr_client_state_bytes vcr of
                  Some b \<Rightarrow> s2\<lparr>client_states := (client_states s2)(cl \<mapsto> b)\<rparr>
                | None \<Rightarrow> s2);
          s4 = store_commit (path_key H (ClientState cl)) (commit H client_state_bytes) s3;
          s5 = store_commit (path_key H (ConsensusState cl latest_height)) (commit H consensus_state_bytes) s4
      in Inr ((vcr, latest_height), write_client_store cl (vcr_storage_writes vcr) s5))))"

fun make_verify_creation_event :: "client_id \<Rightarrow> verify_creation_response_event \<Rightarrow> ibc_event" where
  "make_verify_creation_event cl (CreateLensClientEv l1 l2 l2_chain_id) =
     CreateLensClientEvent cl l1 l2 l2_chain_id"

definition create_client :: "host \<Rightarrow> message_info \<Rightarrow> string \<Rightarrow> bytes \<Rightarrow> bytes \<Rightarrow> addr \<Rightarrow> core_state
    \<Rightarrow> handler_result" where
  "create_client H info client_type client_state_bytes consensus_state_bytes relayer s =
     bindE (sread (client_registry s) client_type) (\<lambda>impl.
     bindE (take_next_client_id s) (\<lambda>(cl, s1).
     let s2 = s1\<lparr>client_types := (client_types s1)(cl \<mapsto> client_type),
                  client_impls := (client_impls s1)(cl \<mapsto> impl)\<rparr> in
     bindE (init_client H info client_state_bytes consensus_state_bytes relayer impl cl s2) (\<lambda>((vcr, _), s3).
     Inr (respond (map (make_verify_creation_event cl) (vcr_events vcr) @
                   [CreateClientEv cl client_type (vcr_counterparty_chain_id vcr)]) [], s3))))"

definition force_update_client :: "host \<Rightarrow> message_info \<Rightarrow> client_id \<Rightarrow> bytes \<Rightarrow> bytes \<Rightarrow> core_state
    \<Rightarrow> handler_result" where
  "force_update_client H info cl client_state_bytes consensus_state_bytes s =
     bindE (client_impl s cl) (\<lambda>impl.
     bindE (init_client H info client_state_bytes consensus_state_bytes (sender info) impl cl s)
       (\<lambda>((_, height), s1). Inr (respond [ForceUpdateClientEv cl height] [], s1)))"

definition update_client :: "host \<Rightarrow> message_info \<Rightarrow> client_id \<Rightarrow> bytes \<Rightarrow> addr \<Rightarrow> core_state
    \<Rightarrow> handler_result" where
  "update_client H info cl client_message relayer s =
     bindE (client_impl s cl) (\<lambda>impl.
     bindE (query_light_client (q_status H) s impl (GetStatus cl)) (\<lambda>st.
     bindE (ensureE (st = Active) (ClientNotActive cl st)) (\<lambda>_.
     let s1 = s\<lparr>query_store := Some client_message\<rparr> in
     bindE (query_light_client (q_update H) s1 impl (UpdateState (sender info) cl relayer)) (\<lambda>u.
     let s2 = s1\<lparr>query_store := None\<rparr>;
         s3 = (case usr_client_state_bytes u of
                 Some b \<Rightarrow> (store_commit (path_key H (ClientState cl)) (commit H b) s2)
                             \<lparr>client_states := (client_states s2)(cl \<mapsto> b)\<rparr>
               | None \<Rightarrow> s2);
         s4 = store_commit (path_key H (ConsensusState cl (usr_height u)))
                (commit H (usr_consensus_state_bytes u)) s3;
         s5 = s4\<lparr>client_consensus_states :=
                (client_consensus_states s4)((cl, usr_height u) \<mapsto> usr_consensus_state_bytes u)\<rparr>
     in Inr (respond [UpdateClientEv cl (usr_height u)] [],
             write_client_store cl (usr_storage_writes u) s5)))))"

definition misbehaviour :: "host \<Rightarrow> message_info \<Rightarrow> client_id \<Rightarrow> bytes \<Rightarrow> addr \<Rightarrow> core_state
    \<Rightarrow> handler_result" where
  "misbehaviour H info cl client_message relayer s =
     bindE (client_impl s cl) (\<lambda>impl.
     bindE (query_light_client (q_status H) s impl (GetStatus cl)) (\<lambda>st.
     bindE (ensureE (st = Active) (ClientNotActive cl st)) (\<lambda>_.
     let s1 = s\<lparr>query_store := Some client_message\<rparr> in
     bindE (query_light_client (q_misbehaviour H) s1 impl (MisbehaviourQ (sender info) cl relayer)) (\<lambda>m.
     let s2 = s1\<lparr>query_store := None\<rparr>;
         s3 = store_commit (path_key H (ClientState cl)) (commit H (mr_client_state_bytes m)) s2
     in Inr (respond [MisbehaviourEv cl] [],
             s3\<lparr>client_states := (client_states s3)(cl \<mapsto> mr_client_state_bytes m)\<rparr>)))))"

definition migrate_state :: "host \<Rightarrow> addr \<Rightarrow> client_id \<Rightarrow> bytes \<Rightarrow> bytes \<Rightarrow> u64 \<Rightarrow> core_state
    \<Rightarrow> handler_result" where
  "migrate_state H caller cl client_state consensus_state height s =
     bindE (sread (client_impls s) cl) (\<lambda>client_addr.
     bindE (ensureE (client_addr = caller) (UnauthorizedMigration cl caller client_addr)) (\<lambda>_.
     bindE (ok_or (CannotMigrateWithNoClientState cl) (client_states s cl)) (\<lambda>_.
     let s1 = s\<lparr>client_states := (client_states s)(cl \<mapsto> client_state)\<rparr>;
         s2 = store_commit (path_key H (ClientState cl)) (commit H client_state) s1 in
     bindE (ok_or (CannotMigrateWithNoConsensusState cl height) (client_consensus_states s2 (cl, height))) (\<lambda>_.
     let s3 = s2\<lparr>client_consensus_states := (client_consensus_states s2)((cl, height) \<mapsto> consensus_state)\<rparr>
     in Inr (response_new,
             store_commit (path_key H (ConsensusState cl height)) (commit H consensus_state) s3)))))"

definition get_timestamp_at_height :: "host \<Rightarrow> core_state \<Rightarrow> client_id \<Rightarrow> u64 \<Rightarrow> contract_error + timestamp" where
  "get_timestamp_at_height H s cl height =
     bindE (client_impl s cl) (\<lambda>impl. query_light_client (q_timestamp H) s impl (GetTimestamp cl height))"

definition verify_membership :: "host \<Rightarrow> core_state \<Rightarrow> addr \<Rightarrow> client_id \<Rightarrow> u64 \<Rightarrow> bytes \<Rightarrow> bytes \<Rightarrow> bytes
    \<Rightarrow> contract_error + unit" where
  "verify_membership H s impl cl height proof path value =
     query_light_client (q_unit H) s impl (VerifyMembership cl height proof path value)"

definition commit_membership_proof :: "host \<Rightarrow> client_id \<Rightarrow> u64 \<Rightarrow> bytes \<Rightarrow> bytes \<Rightarrow> bytes \<Rightarrow> core_state
    \<Rightarrow> handler_result" where
  "commit_membership_proof H cl proof_height proof path value s =
     bindE (client_impl s cl) (\<lambda>impl.
     bindE (verify_membership H s impl cl proof_height proof path value) (\<lambda>_.
     Inr (respond [CommitMembershipProofEv cl proof_height path value] [],
          store_commit (path_key H (MembershipProof cl proof_height path)) (commit H value) s)))"

definition commit_non_membership_proof :: "host \<Rightarrow> client_id \<Rightarrow> u64 \<Rightarrow> bytes \<Rightarrow> bytes \<Rightarrow> core_state
    \<Rightarrow> handler_result" where
  "commit_non_membership_proof H cl proof_height proof path s =
     bindE (client_impl s cl) (\<lambda>impl.
     bindE (query_light_client (q_unit H) s impl (VerifyNonMembership cl proof_height proof path)) (\<lambda>_.
     Inr (respond [CommitNonMembershipProofEv cl proof_height path] [],
          store_commit (path_key H (NonMembershipProof cl proof_height path)) NON_MEMBERSHIP_COMMITMENT_VALUE s)))"

end
