(* ===== verification/Core_Handshake.thy ===== *)
theory Core_Handshake
  imports Core_Client
begin

text \<open>
  The connection and channel handshakes of the IBC core contract
  (\<open>cosmwasm/core/src/contract.rs\<close>): each step reads the local end, checks its state, verifies the
  expected counterparty end with the light client (unless forced), and stores the new end together
  with its commitment. An \<open>expect\<close> in the source is the error \<open>Panic\<close>.
\<close>

section \<open>Connections\<close>

definition save_connection :: "host \<Rightarrow> connection_id \<Rightarrow> connection \<Rightarrow> core_state \<Rightarrow> core_state" where
  "save_connection H co c s =
     store_commit (path_key H (Connection co)) (commit_connection H c)
       (s\<lparr>connections := (connections s)(co \<mapsto> c)\<rparr>)"

definition ensure_connection_state :: "core_state \<Rightarrow> connection_id \<Rightarrow> contract_error + connection" where
  "ensure_connection_state s co =
     bindE (sread (connections s) co) (\<lambda>c.
       if co_state c \<noteq> ConnOpen then Inl (ConnectionInvalidState (co_state c) ConnOpen) else Inr c)"

text \<open>The counterparty connection end that a proof has to show.\<close>

definition verify_connection :: "host \<Rightarrow> bool \<Rightarrow> client_id \<Rightarrow> u64 \<Rightarrow> bytes \<Rightarrow> connection_id \<Rightarrow> connection
    \<Rightarrow> core_state \<Rightarrow> contract_error + unit" where
  "verify_connection H verify cl height proof cco expected s =
     (if verify then
        bindE (client_impl s cl) (\<lambda>impl.
          verify_membership H s impl cl height proof (h256_bytes (path_key H (Connection cco)))
            (h256_bytes (commit_connection H expected)))
      else Inr ())"

definition connection_open_init :: "host \<Rightarrow> client_id \<Rightarrow> client_id \<Rightarrow> core_state \<Rightarrow> handler_result" where
  "connection_open_init H cl ccl s =
     bindE (take_next_connection_id s) (\<lambda>(co, s1).
     Inr (respond [ConnectionOpenInitEv co cl ccl] [],
       save_connection H co
         \<lparr>co_state = ConnInit, co_client_id = cl, co_counterparty_client_id = ccl,
          co_counterparty_connection_id = None\<rparr> s1))"

definition connection_open_try :: "host \<Rightarrow> client_id \<Rightarrow> connection_id \<Rightarrow> client_id \<Rightarrow> bytes \<Rightarrow> u64 \<Rightarrow> bool
    \<Rightarrow> core_state \<Rightarrow> handler_result" where
  "connection_open_try H ccl cco cl proof_init proof_height verify s =
     bindE (take_next_connection_id s) (\<lambda>(co, s1).
     bindE (verify_connection H verify cl proof_height proof_init cco
         \<lparr>co_state = ConnInit, co_client_id = ccl, co_counterparty_client_id = cl,
          co_counterparty_connection_id = None\<rparr> s1) (\<lambda>_.
     Inr (respond [ConnectionOpenTryEv co cl ccl cco] [],
       save_connection H co
         \<lparr>co_state = ConnTryOpen, co_client_id = cl, co_counterparty_client_id = ccl,
          co_counterparty_connection_id = Some cco\<rparr> s1)))"

definition connection_open_ack :: "host \<Rightarrow> connection_id \<Rightarrow> connection_id \<Rightarrow> bytes \<Rightarrow> u64 \<Rightarrow> bool
    \<Rightarrow> core_state \<Rightarrow> handler_result" where
  "connection_open_ack H co cco proof_try proof_height verify s =
     bindE (sread (connections s) co) (\<lambda>c.
     bindE (ensureE (co_state c = ConnInit) (ConnectionInvalidState (co_state c) ConnInit)) (\<lambda>_.
     bindE (verify_connection H verify (co_client_id c) proof_height proof_try cco
         \<lparr>co_state = ConnTryOpen, co_client_id = co_counterparty_client_id c,
          co_counterparty_client_id = co_client_id c, co_counterparty_connection_id = Some co\<rparr> s) (\<lambda>_.
     Inr (respond [ConnectionOpenAckEv co (co_client_id c) (co_counterparty_client_id c) cco] [],
       save_connection H co (c\<lparr>co_state := ConnOpen, co_counterparty_connection_id := Some cco\<rparr>) s))))"

definition connection_open_confirm :: "host \<Rightarrow> connection_id \<Rightarrow> bytes \<Rightarrow> u64 \<Rightarrow> bool
    \<Rightarrow> core_state \<Rightarrow> handler_result" where
  "connection_open_confirm H co proof_ack proof_height verify s =
     bindE (sread (connections s) co) (\<lambda>c.
     bindE (ensureE (co_state c = ConnTryOpen) (ConnectionInvalidState (co_state c) ConnTryOpen)) (\<lambda>_.
     bindE (ok_or (Panic ''state is open, counterparty exists; qed;'') (co_counterparty_connection_id c)) (\<lambda>cco.
     bindE (verify_connection H verify (co_client_id c) proof_height proof_ack cco
         \<lparr>co_state = ConnOpen, co_client_id = co_counterparty_client_id c,
          co_counterparty_client_id = co_client_id c, co_counterparty_connection_id = Some co\<rparr> s) (\<lambda>_.
     Inr (respond [ConnectionOpenConfirmEv co (co_client_id c) (co_counterparty_client_id c) cco] [],
       save_connection H co (c\<lparr>co_state := ConnOpen\<rparr>) s)))))"

section \<open>Channels\<close>

definition save_channel :: "host \<Rightarrow> channel_id \<Rightarrow> channel \<Rightarrow> core_state \<Rightarrow> core_state" where
  "save_channel H ch c s =
     store_commit (path_key H (Channel ch)) (commit_channel H c)
       (s\<lparr>channels := (channels s)(ch \<mapsto> c)\<rparr>)"

definition ensure_channel_state :: "core_state \<Rightarrow> channel_id \<Rightarrow> contract_error + channel" where
  "ensure_channel_state s ch =
     bindE (sread (channels s) ch) (\<lambda>c.
       if ch_state c \<noteq> ChanOpen then Inl (ChannelInvalidState (ch_state c) ChanOpen) else Inr c)"

definition create_channel :: "host \<Rightarrow> addr \<Rightarrow> channel \<Rightarrow> core_state
    \<Rightarrow> contract_error + ((channel_id \<times> channel) \<times> core_state)" where
  "create_channel H own c s =
     bindE (take_next_channel_id s) (\<lambda>(ch, s1).
     let s2 = s1\<lparr>channel_owner := (channel_owner s1)(ch \<mapsto> own)\<rparr> in
     bindE (case contract_channels s2 own of
              Some cs \<Rightarrow> if ch \<in> cs then Inl (Panic ''impossible, channel has been just created'')
                         else Inr (insert ch cs)
            | None \<Rightarrow> Inr {ch}) (\<lambda>cs.
     Inr ((ch, c), save_channel H ch c (s2\<lparr>contract_channels := (contract_channels s2)(own \<mapsto> cs)\<rparr>))))"

definition verify_channel :: "host \<Rightarrow> bool \<Rightarrow> addr \<Rightarrow> client_id \<Rightarrow> u64 \<Rightarrow> bytes \<Rightarrow> channel_id \<Rightarrow> channel
    \<Rightarrow> core_state \<Rightarrow> contract_error + unit" where
  "verify_channel H verify impl cl height proof cch expected s =
     (if verify then
        verify_membership H s impl cl height proof (h256_bytes (path_key H (Channel cch)))
          (h256_bytes (commit_channel H expected))
      else Inr ())"

definition channel_open_init :: "host \<Rightarrow> message_info \<Rightarrow> string \<Rightarrow> bytes \<Rightarrow> connection_id \<Rightarrow> string \<Rightarrow> addr
    \<Rightarrow> core_state \<Rightarrow> handler_result" where
  "channel_open_init H info port_id counterparty_port_id co ver relayer s =
     bindE (validate H port_id) (\<lambda>port.
     bindE (ensure_connection_state s co) (\<lambda>_.
     bindE (create_channel H port
         \<lparr>ch_state = ChanInit, ch_connection_id = co, ch_counterparty_channel_id = None,
          ch_counterparty_port_id = counterparty_port_id, ch_version = ver\<rparr> s) (\<lambda>((ch, _), s1).
     Inr (respond [ChannelOpenInitEv port ch counterparty_port_id co ver]
            [CallModule port (OnChannelOpenInit (sender info) co ch ver relayer) []], s1))))"

definition channel_open_try :: "host \<Rightarrow> message_info \<Rightarrow> string \<Rightarrow> channel \<Rightarrow> string \<Rightarrow> bytes \<Rightarrow> u64 \<Rightarrow> addr \<Rightarrow> bool
    \<Rightarrow> core_state \<Rightarrow> handler_result" where
  "channel_open_try H info port_id c counterparty_version proof_init proof_height relayer verify s =
     bindE (ensureE (ch_state c = ChanTryOpen) (ChannelInvalidState (ch_state c) ChanTryOpen)) (\<lambda>_.
     bindE (ensure_connection_state s (ch_connection_id c)) (\<lambda>conn.
     bindE (ok_or (Panic ''connection is open; qed;'') (co_counterparty_connection_id conn)) (\<lambda>cco.
     bindE (client_impl s (co_client_id conn)) (\<lambda>impl.
     bindE (ok_or CounterpartyChannelIdInvalid (ch_counterparty_channel_id c)) (\<lambda>cch.
     bindE (verify_channel H verify impl (co_client_id conn) proof_height proof_init cch
         \<lparr>ch_state = ChanInit, ch_connection_id = cco, ch_counterparty_channel_id = None,
          ch_counterparty_port_id = str_bytes port_id, ch_version = counterparty_version\<rparr> s) (\<lambda>_.
     bindE (validate H port_id) (\<lambda>port.
     bindE (create_channel H port
         \<lparr>ch_state = ch_state c, ch_connection_id = ch_connection_id c,
          ch_counterparty_channel_id = ch_counterparty_channel_id c,
          ch_counterparty_port_id = ch_counterparty_port_id c, ch_version = ch_version c\<rparr> s) (\<lambda>((ch, c'), s1).
     Inr (respond [ChannelOpenTryEv port ch (ch_counterparty_port_id c') cch (ch_connection_id c')
                     counterparty_version]
            [CallModule port (OnChannelOpenTry (sender info) (ch_connection_id c') ch (ch_version c')
                     counterparty_version relayer) []], s1)))))))))"

definition channel_open_ack :: "host \<Rightarrow> message_info \<Rightarrow> channel_id \<Rightarrow> string \<Rightarrow> channel_id \<Rightarrow> bytes \<Rightarrow> u64 \<Rightarrow> addr
    \<Rightarrow> bool \<Rightarrow> core_state \<Rightarrow> handler_result" where
  "channel_open_ack H info ch counterparty_version cch proof_try proof_height relayer verify s =
     bindE (sread (channels s) ch) (\<lambda>c.
     bindE (ensureE (ch_state c = ChanInit) (ChannelInvalidState (ch_state c) ChanInit)) (\<lambda>_.
     bindE (ensure_connection_state s (ch_connection_id c)) (\<lambda>conn.
     bindE (sread (channel_owner s) ch) (\<lambda>port.
     bindE (ok_or (Panic ''connection is open; qed;'') (co_counterparty_connection_id conn)) (\<lambda>cco.
     bindE (client_impl s (co_client_id conn)) (\<lambda>impl.
     bindE (verify_channel H verify impl (co_client_id conn) proof_height proof_try cch
         \<lparr>ch_state = ChanTryOpen, ch_connection_id = cco, ch_counterparty_channel_id = Some ch,
          ch_counterparty_port_id = str_bytes port, ch_version = counterparty_version\<rparr> s) (\<lambda>_.
     let c' = c\<lparr>ch_state := ChanOpen, ch_version := counterparty_version,
                 ch_counterparty_channel_id := Some cch\<rparr>
     in Inr (respond [ChannelOpenAckEv port ch (ch_counterparty_port_id c') cch (ch_connection_id c')]
              [CallModule port (OnChannelOpenAck (sender info) ch cch counterparty_version relayer) []],
             save_channel H ch c' s))))))))"

definition channel_open_confirm :: "host \<Rightarrow> message_info \<Rightarrow> channel_id \<Rightarrow> bytes \<Rightarrow> u64 \<Rightarrow> addr \<Rightarrow> bool
    \<Rightarrow> core_state \<Rightarrow> handler_result" where
  "channel_open_confirm H info ch proof_ack proof_height relayer verify s =
     bindE (sread (channels s) ch) (\<lambda>c.
     bindE (ensureE (ch_state c = ChanTryOpen) (ChannelInvalidState (ch_state c) ChanTryOpen)) (\<lambda>_.
     bindE (ensure_connection_state s (ch_connection_id c)) (\<lambda>conn.
     bindE (sread (channel_owner s) ch) (\<lambda>port.
     bindE (ok_or (Panic ''connection is open; qed;'') (co_counterparty_connection_id conn)) (\<lambda>cco.
     bindE (client_impl s (co_client_id conn)) (\<lambda>impl.
     bindE (ok_or (Panic ''channel state is try open; qed;'') (ch_counterparty_channel_id c)) (\<lambda>cch.
     bindE (verify_channel H verify impl (co_client_id conn) proof_height proof_ack cch
         \<lparr>ch_state = ChanOpen, ch_connection_id = cco, ch_counterparty_channel_id = Some ch,
          ch_counterparty_port_id = str_bytes port, ch_version = ch_version c\<rparr> s) (\<lambda>_.
     let c' = c\<lparr>ch_state := ChanOpen\<rparr>
     in Inr (respond [ChannelOpenConfirmEv port ch (ch_counterparty_port_id c') cch (ch_connection_id c')]
              [CallModule port (OnChannelOpenConfirm (sender info) ch relayer) []],
             save_channel H ch c' s)))))))))"

definition channel_close_init :: "host \<Rightarrow> message_info \<Rightarrow> channel_id \<Rightarrow> addr \<Rightarrow> core_state \<Rightarrow> handler_result" where
  "channel_close_init H info ch relayer s =
     bindE (sread (channels s) ch) (\<lambda>c.
     bindE (ensureE (ch_state c = ChanOpen) (ChannelInvalidState (ch_state c) ChanOpen)) (\<lambda>_.
     bindE (ensure_connection_state s (ch_connection_id c)) (\<lambda>_.
     let c' = c\<lparr>ch_state := ChanClosed\<rparr>; s1 = save_channel H ch c' s in
     bindE (sread (channel_owner s1) ch) (\<lambda>port.
     bindE (ok_or (Panic ''channel is open; qed;'') (ch_counterparty_channel_id c')) (\<lambda>cch.
     Inr (respond [ChannelCloseInitEv port ch (ch_counterparty_port_id c') cch]
            [CallModule port (OnChannelCloseInit (sender info) ch relayer) []], s1))))))"

text \<open>As in the source, the module is called back with \<open>OnChannelOpenConfirm\<close>.\<close>

definition channel_close_confirm :: "host \<Rightarrow> message_info \<Rightarrow> channel_id \<Rightarrow> bytes \<Rightarrow> u64 \<Rightarrow> addr
    \<Rightarrow> core_state \<Rightarrow> handler_result" where
  "channel_close_confirm H info ch proof_init proof_height relayer s =
     bindE (sread (channels s) ch) (\<lambda>c.
     bindE (ensureE (ch_state c = ChanOpen) (ChannelInvalidState (ch_state c) ChanOpen)) (\<lambda>_.
     bindE (ensure_connection_state s (ch_connection_id c)) (\<lambda>conn.
     bindE (sread (channel_owner s) ch) (\<lambda>port.
     bindE (ok_or (Panic ''connection is open; qed;'') (co_counterparty_connection_id conn)) (\<lambda>cco.
     bindE (client_impl s (co_client_id conn)) (\<lambda>impl.
     bindE (ok_or (Panic ''channel is open; qed;'') (ch_counterparty_channel_id c)) (\<lambda>cch.
     bindE (verify_channel H True impl (co_client_id conn) proof_height proof_init cch
         \<lparr>ch_state = ChanClosed, ch_connection_id = cco, ch_counterparty_channel_id = Some ch,
          ch_counterparty_port_id = str_bytes port, ch_version = ch_version c\<rparr> s) (\<lambda>_.
     let c' = c\<lparr>ch_state := ChanClosed\<rparr>;
         s1 = s\<lparr>channels := (channels s)(ch \<mapsto> c')\<rparr>
     in Inr (respond [ChannelCloseConfirmEv port ch (ch_counterparty_port_id c') cch]
              [CallModule port (OnChannelOpenConfirm (sender info) ch relayer) []],
             store_commit (path_key H (Channel ch)) (commit_channel H c') s1)))))))))"

end
