(* ===== verification/Core_Packet.thy ===== *)
theory Core_Packet
  imports Core_Handshake
begin

text \<open>
  The packet life cycle of the IBC core contract (\<open>cosmwasm/core/src/contract.rs\<close>): sending,
  receiving, writing an acknowledgement, acknowledging, timing out and batching. The loops over
  the packets of a batch are recursive functions over the zipped lists, as in the source.
\<close>

section \<open>Sending\<close>

definition send_packet :: "host \<Rightarrow> addr \<Rightarrow> channel_id \<Rightarrow> timestamp \<Rightarrow> bytes \<Rightarrow> core_state \<Rightarrow> handler_result" where
  "send_packet H caller src timeout data s =
     (if timestamp_is_zero timeout then Inl TimeoutMustBeSet else
      bindE (sread (channel_owner s) src) (\<lambda>port.
      bindE (ensureE (port = caller) (Unauthorized src port caller)) (\<lambda>_.
      bindE (ensure_channel_state s src) (\<lambda>c.
      bindE (ok_or (Panic ''channel is open; qed;'') (ch_counterparty_channel_id c)) (\<lambda>dst.
      let p = \<lparr>source_channel_id = src, destination_channel_id = dst, packet_data = data,
               timeout_height = MustBeZero, timeout_timestamp = timeout\<rparr>;
          key = path_key H (batch_packets_path H [p])
      in if read_commit s key \<noteq> None then Inl PacketCommitmentAlreadyExist
         else Inr ((respond [PacketSendEv (source_channel_id p) (destination_channel_id p) (packet_data p) 0
                       (timeout_timestamp p) (source_channel_id p) (packet_hash H p)] [])\<lparr>r_data := Some p\<rparr>,
                   store_commit key COMMITMENT_MAGIC s))))))"

fun batch_send_loop :: "host \<Rightarrow> channel_id \<Rightarrow> h256 \<Rightarrow> packet list \<Rightarrow> core_state
    \<Rightarrow> contract_error + ibc_event list" where
  "batch_send_loop H ch batch_hash [] s = Inr []"
| "batch_send_loop H ch batch_hash (p # ps) s =
     bindE (ensureE (source_channel_id p = ch) BatchSameChannelOnly) (\<lambda>_.
     bindE (ok_or PacketCommitmentNotFound (commitments s (path_key H (batch_packets_path H [p])))) (\<lambda>c.
     bindE (ensureE (c = COMMITMENT_MAGIC) PacketCommitmentNotFound) (\<lambda>_.
     bindE (batch_send_loop H ch batch_hash ps s) (\<lambda>evs.
     Inr (BatchSendEv ch (packet_hash H p) batch_hash # evs)))))"

definition batch_send :: "host \<Rightarrow> packet list \<Rightarrow> core_state \<Rightarrow> handler_result" where
  "batch_send H packets s =
     (case packets of
       (p0 # _ # _) \<Rightarrow>
         bindE (batch_send_loop H (source_channel_id p0) (commit_packets H packets) packets s) (\<lambda>evs.
         Inr (respond evs [], store_commit (path_key H (batch_packets_path H packets)) COMMITMENT_MAGIC s))
     | _ \<Rightarrow> Inl NotEnoughPackets)"

section \<open>Receiving and acknowledging on the destination chain\<close>

definition set_packet_receive :: "h256 \<Rightarrow> core_state \<Rightarrow> bool \<times> core_state" where
  "set_packet_receive key s =
     (if read_commit s key \<noteq> None then (True, s) else (False, store_commit key COMMITMENT_MAGIC s))"

definition recv_event :: "host \<Rightarrow> bool \<Rightarrow> channel_id \<Rightarrow> packet \<Rightarrow> addr \<Rightarrow> bytes \<Rightarrow> ibc_event" where
  "recv_event H intent dst p maker msg =
     (if intent then IntentPacketRecvEv dst (packet_hash H p) maker msg
      else PacketRecvEv dst (packet_hash H p) maker msg)"

definition recv_callback :: "bool \<Rightarrow> message_info \<Rightarrow> addr \<Rightarrow> packet \<Rightarrow> string \<Rightarrow> bytes \<Rightarrow> wasm_msg" where
  "recv_callback intent info port p relayer msg =
     (if intent then CallModule port (OnIntentRecvPacket (sender info) p relayer msg) []
      else CallModule port (OnRecvPacket (sender info) p relayer msg) (funds info))"

fun receive_loop :: "host \<Rightarrow> block_env \<Rightarrow> message_info \<Rightarrow> bool \<Rightarrow> addr \<Rightarrow> channel_id \<Rightarrow> string \<Rightarrow> addr
    \<Rightarrow> (packet \<times> bytes) list \<Rightarrow> core_state
    \<Rightarrow> contract_error + ((ibc_event list \<times> wasm_msg list) \<times> core_state)" where
  "receive_loop H env info intent port dst relayer maker [] s = Inr (([], []), s)"
| "receive_loop H env info intent port dst relayer maker ((p, msg) # ps) s =
     bindE (ensureE (destination_channel_id p = dst) BatchSameChannelOnly) (\<lambda>_.
     bindE (ensureE (\<not> timeout_timestamp p \<le> block_time env)
              (ReceivedTimedOutPacketTimestamp (timeout_timestamp p) (block_time env))) (\<lambda>_.
     case set_packet_receive (path_key H (batch_receipts_path H [p])) s of (received, s1) \<Rightarrow>
     bindE (receive_loop H env info intent port dst relayer maker ps s1) (\<lambda>((evs, msgs), s2).
     Inr (if received then (evs, msgs)
          else (recv_event H intent dst p maker msg # evs, recv_callback intent info port p relayer msg # msgs),
          s2))))"

definition process_receive :: "host \<Rightarrow> block_env \<Rightarrow> message_info \<Rightarrow> packet list \<Rightarrow> bytes list \<Rightarrow> string \<Rightarrow> bytes
    \<Rightarrow> u64 \<Rightarrow> bool \<Rightarrow> core_state \<Rightarrow> handler_result" where
  "process_receive H env info packets relayer_msgs relayer proof proof_height intent s =
     bindE (validate H relayer) (\<lambda>relayer_addr.
     case packets of
       [] \<Rightarrow> Inl NotEnoughPackets
     | p0 # _ \<Rightarrow>
         bindE (ensure_channel_state s (destination_channel_id p0)) (\<lambda>c.
         bindE (ensure_connection_state s (ch_connection_id c)) (\<lambda>conn.
         bindE (if intent then Inr () else
                  bindE (client_impl s (co_client_id conn)) (\<lambda>impl.
                    verify_membership H s impl (co_client_id conn) proof_height proof
                      (h256_bytes (path_key H (batch_packets_path H packets))) (h256_bytes COMMITMENT_MAGIC))) (\<lambda>_.
         bindE (sread (channel_owner s) (destination_channel_id p0)) (\<lambda>port.
         bindE (receive_loop H env info intent port (destination_channel_id p0) relayer relayer_addr
                  (zip packets relayer_msgs) s) (\<lambda>((evs, msgs), s1).
         Inr (respond evs msgs, s1)))))))"

definition write_acknowledgement :: "host \<Rightarrow> addr \<Rightarrow> packet \<Rightarrow> bytes \<Rightarrow> core_state \<Rightarrow> handler_result" where
  "write_acknowledgement H caller p ack s =
     (if ack = [] then Inl AcknowledgementIsEmpty else
      bindE (sread (channel_owner s) (destination_channel_id p)) (\<lambda>port.
      bindE (ensureE (port = caller) (Unauthorized (destination_channel_id p) port caller)) (\<lambda>_.
      let key = path_key H (batch_receipts_path H [p]) in
      case read_commit s key of
        Some c \<Rightarrow>
          if c \<noteq> COMMITMENT_MAGIC then Inl AlreadyAcknowledged
          else Inr (respond [WriteAckEv (destination_channel_id p) (packet_hash H p) ack] [],
                    store_commit key (commit_ack H ack) s)
      | None \<Rightarrow> Inl PacketNotReceived)))"

fun batch_acks_loop :: "host \<Rightarrow> channel_id \<Rightarrow> h256 \<Rightarrow> (packet \<times> bytes) list \<Rightarrow> core_state
    \<Rightarrow> contract_error + ibc_event list" where
  "batch_acks_loop H ch batch_hash [] s = Inr []"
| "batch_acks_loop H ch batch_hash ((p, ack) # ps) s =
     bindE (ensureE (destination_channel_id p = ch) BatchSameChannelOnly) (\<lambda>_.
     bindE (ok_or PacketCommitmentNotFound (read_commit s (path_key H (batch_receipts_path H [p])))) (\<lambda>c.
     bindE (ensureE (c \<noteq> COMMITMENT_MAGIC) AcknowledgementIsEmpty) (\<lambda>_.
     bindE (ensureE (c = commit_ack H ack) (AcknowledgementMismatch c (commit_ack H ack))) (\<lambda>_.
     bindE (batch_acks_loop H ch batch_hash ps s) (\<lambda>evs.
     Inr (BatchAcksEv ch (commit_packets H [p]) batch_hash # evs))))))"

definition batch_acks :: "host \<Rightarrow> packet list \<Rightarrow> bytes list \<Rightarrow> core_state \<Rightarrow> handler_result" where
  "batch_acks H packets acks s =
     (case packets of
       (p0 # _ # _) \<Rightarrow>
         bindE (batch_acks_loop H (destination_channel_id p0) (commit_packets H packets) (zip packets acks) s) (\<lambda>evs.
         Inr (respond evs [],
              store_commit (path_key H (batch_receipts_path H packets)) (commit_acks H acks) s))
     | _ \<Rightarrow> Inl NotEnoughPackets)"

section \<open>Acknowledgement and timeout on the source chain\<close>

definition mark_packet_as_acknowledged :: "host \<Rightarrow> packet \<Rightarrow> core_state \<Rightarrow> contract_error + core_state" where
  "mark_packet_as_acknowledged H p s =
     (let key = path_key H (batch_packets_path H [p]) in
      bindE (ok_or PacketCommitmentNotFound (commitments s key)) (\<lambda>c.
      if c = COMMITMENT_MAGIC_ACK then Inl PacketAlreadyAcknowledged
      else if c \<noteq> COMMITMENT_MAGIC then Inl PacketCommitmentNotFound
      else Inr (store_commit key COMMITMENT_MAGIC_ACK s)))"

fun acknowledge_loop :: "host \<Rightarrow> message_info \<Rightarrow> addr \<Rightarrow> channel_id \<Rightarrow> addr \<Rightarrow> (packet \<times> bytes) list \<Rightarrow> core_state
    \<Rightarrow> contract_error + ((ibc_event list \<times> wasm_msg list) \<times> core_state)" where
  "acknowledge_loop H info port src relayer [] s = Inr (([], []), s)"
| "acknowledge_loop H info port src relayer ((p, ack) # ps) s =
     bindE (ensureE (source_channel_id p = src) BatchSameChannelOnly) (\<lambda>_.
     bindE (mark_packet_as_acknowledged H p s) (\<lambda>s1.
     bindE (acknowledge_loop H info port src relayer ps s1) (\<lambda>((evs, msgs), s2).
     Inr ((PacketAckEv src (packet_hash H p) ack relayer # evs,
           CallModule port (OnAcknowledgementPacket (sender info) p ack relayer) [] # msgs), s2))))"

definition acknowledge_packet :: "host \<Rightarrow> message_info \<Rightarrow> packet list \<Rightarrow> bytes list \<Rightarrow> bytes \<Rightarrow> u64 \<Rightarrow> addr
    \<Rightarrow> core_state \<Rightarrow> handler_result" where
  "acknowledge_packet H info packets acks proof proof_height relayer s =
     (case packets of
       [] \<Rightarrow> Inl NotEnoughPackets
     | p0 # _ \<Rightarrow>
         bindE (ensure_channel_state s (source_channel_id p0)) (\<lambda>c.
         bindE (ensure_connection_state s (ch_connection_id c)) (\<lambda>conn.
         bindE (client_impl s (co_client_id conn)) (\<lambda>impl.
         bindE (verify_membership H s impl (co_client_id conn) proof_height proof
                  (h256_bytes (path_key H (batch_receipts_path H packets)))
                  (h256_bytes (commit_acks H acks))) (\<lambda>_.
         bindE (sread (channel_owner s) (source_channel_id p0)) (\<lambda>port.
         bindE (acknowledge_loop H info port (source_channel_id p0) relayer (zip packets acks) s)
           (\<lambda>((evs, msgs), s1). Inr (respond evs msgs, s1))))))))"

definition timeout_packet :: "host \<Rightarrow> message_info \<Rightarrow> packet \<Rightarrow> bytes \<Rightarrow> u64 \<Rightarrow> addr \<Rightarrow> core_state
    \<Rightarrow> handler_result" where
  "timeout_packet H info p proof proof_height relayer s =
     bindE (ensure_channel_state s (source_channel_id p)) (\<lambda>c.
     bindE (ensure_connection_state s (ch_connection_id c)) (\<lambda>conn.
     bindE (get_timestamp_at_height H s (co_client_id conn) proof_height) (\<lambda>proof_timestamp.
     bindE (ensureE (\<not> timestamp_is_zero proof_timestamp) TimeoutProofTimestampNotFound) (\<lambda>_.
     bindE (client_impl s (co_client_id conn)) (\<lambda>impl.
     bindE (query_light_client (q_unit H) s impl
              (VerifyNonMembership (co_client_id conn) proof_height proof
                (h256_bytes (path_key H (batch_receipts_path H [p]))))) (\<lambda>_.
     bindE (mark_packet_as_acknowledged H p s) (\<lambda>s1.
     bindE (ensureE (\<not> timestamp_is_zero (timeout_timestamp p)) TimeoutMustBeSet) (\<lambda>_.
     bindE (ensureE (timeout_timestamp p \<le> proof_timestamp) TimeoutTimestampNotReached) (\<lambda>_.
     bindE (sread (channel_owner s1) (source_channel_id p)) (\<lambda>port.
     Inr (respond [TimeoutPacketEv (source_channel_id p) (commit_packets H [p]) relayer]
            [CallModule port (OnTimeoutPacket (sender info) p relayer) []], s1)))))))))))"

end
