(* ===== verification/Core_Contract.thy ===== *)
theory Core_Contract
  imports Core_Packet
begin

text \<open>
  The entry points of the IBC core contract: access control (\<open>cosmwasm/access-managed/src\<close>),
  \<open>execute\<close>, \<open>reply\<close>, \<open>migrate\<close> with the versioned upgrade logic of \<open>lib/frissitheto\<close>,
  \<open>upgradable::execute\<close>, and \<open>query\<close>.
\<close>

section \<open>Access control\<close>

text \<open>\<open>Selector::extract_from_serialize\<close>: the JSON name of the variant.\<close>

fun msg_selector :: "restricted_msg \<Rightarrow> string" where
  "msg_selector (RegisterClient _ _) = ''register_client''"
| "msg_selector (CreateClient _ _ _ _) = ''create_client''"
| "msg_selector (UpdateClient _ _ _) = ''update_client''"
| "msg_selector (ForceUpdateClient _ _ _) = ''force_update_client''"
| "msg_selector (Misbehaviour _ _ _) = ''misbehaviour''"
| "msg_selector (ConnectionOpenInit _ _) = ''connection_open_init''"
| "msg_selector (ConnectionOpenTry _ _ _ _ _) = ''connection_open_try''"
| "msg_selector (ForceConnectionOpenTry _ _ _ _ _) = ''force_connection_open_try''"
| "msg_selector (ConnectionOpenAck _ _ _ _) = ''connection_open_ack''"
| "msg_selector (ForceConnectionOpenAck _ _ _ _) = ''force_connection_open_ack''"
| "msg_selector (ConnectionOpenConfirm _ _ _) = ''connection_open_confirm''"
| "msg_selector (ForceConnectionOpenConfirm _ _ _) = ''force_connection_open_confirm''"
| "msg_selector (ChannelOpenInit _ _ _ _ _) = ''channel_open_init''"
| "msg_selector (ChannelOpenTry _ _ _ _ _ _) = ''channel_open_try''"
| "msg_selector (ForceChannelOpenTry _ _ _ _ _ _) = ''force_channel_open_try''"
| "msg_selector (ChannelOpenAck _ _ _ _ _ _) = ''channel_open_ack''"
| "msg_selector (ForceChannelOpenAck _ _ _ _ _ _) = ''force_channel_open_ack''"
| "msg_selector (ChannelOpenConfirm _ _ _ _) = ''channel_open_confirm''"
| "msg_selector (ForceChannelOpenConfirm _ _ _ _) = ''force_channel_open_confirm''"
| "msg_selector (ChannelCloseInit _ _) = ''channel_close_init''"
| "msg_selector (ChannelCloseConfirm _ _ _ _) = ''channel_close_confirm''"
| "msg_selector (PacketRecv _ _ _ _ _) = ''packet_recv''"
| "msg_selector (PacketAck _ _ _ _ _) = ''packet_ack''"
| "msg_selector (PacketTimeout _ _ _ _) = ''packet_timeout''"
| "msg_selector (IntentPacketRecv _ _ _) = ''intent_packet_recv''"
| "msg_selector (BatchSend _) = ''batch_send''"
| "msg_selector (BatchAcks _ _) = ''batch_acks''"
| "msg_selector (CommitMembershipProof _ _ _ _ _) = ''commit_membership_proof''"
| "msg_selector (CommitNonMembershipProof _ _ _ _) = ''commit_non_membership_proof''"
| "msg_selector (Upgradable _) = ''upgrade''"

definition CONSUME_REPLY_ID :: u64 where
  "CONSUME_REPLY_ID = - 1"

datatype ensure_can_call_result = Msg restricted_msg | Scheduled "sub_msg list"

definition am_read :: "'v option \<Rightarrow> contract_error + 'v" where
  "am_read v = ok_or (AccessManagedErr (AccessManagedStd (GenericErr ''key not present''))) v"

definition ensure_can_call :: "host \<Rightarrow> block_env \<Rightarrow> message_info \<Rightarrow> restricted_msg \<Rightarrow> core_state
    \<Rightarrow> contract_error + (ensure_can_call_result \<times> core_state)" where
  "ensure_can_call H env info msg s =
     bindE (am_read (authority s)) (\<lambda>auth.
     bindE (map_err (\<lambda>e. AccessManagedErr (AccessManagedStd e))
              (q_can_call H auth (msg_selector msg) (contract_address env) (sender info))) (\<lambda>can.
     case can of
       Immediate \<Rightarrow> Inr (Msg msg, s)
     | NotAuthorized \<Rightarrow> Inl (AccessManagedErr (AccessManagedUnauthorized (sender info)))
     | WithDelay _ \<Rightarrow>
         Inr (Scheduled [ConsumeScheduledOp auth (sender info) msg,
                ExecuteSelf (contract_address env) msg CONSUME_REPLY_ID],
              s\<lparr>consuming_schedule := Some True\<rparr>)))"

definition set_authority :: "host \<Rightarrow> message_info \<Rightarrow> addr \<Rightarrow> core_state \<Rightarrow> handler_result" where
  "set_authority H info new_authority s =
     bindE (am_read (authority s)) (\<lambda>auth.
     bindE (ensureE (sender info = auth) (AccessManagedErr (AccessManagedUnauthorized (sender info)))) (\<lambda>_.
     case q_contract_info H new_authority of
       Inl _ \<Rightarrow> Inl (AccessManagedErr (AccessManagedInvalidAuthority new_authority))
     | Inr _ \<Rightarrow> Inr (respond [AuthorityUpdatedEv new_authority] [], s\<lparr>authority := Some new_authority\<rparr>)))"

fun upgradable_execute :: "block_env \<Rightarrow> upgradable \<Rightarrow> response" where
  "upgradable_execute env (Upgrade new_code_id msg) =
     respond [UpgradeEv new_code_id msg] [Migrate (contract_address env) new_code_id msg]"

text \<open>\<open>ok\<close> says whether the submessage that asked for the reply succeeded.\<close>

definition reply :: "u64 \<Rightarrow> bool \<Rightarrow> core_state \<Rightarrow> handler_result" where
  "reply reply_id ok s =
     (if reply_id = CONSUME_REPLY_ID then
        (if \<not> ok then Inl (Panic ''called `Result::unwrap()` on an `Err` value'')
         else if consuming_schedule s \<noteq> Some True
           then Inl (Panic ''invariant: attempted to handle consume scheduled op reply while not consuming schedule'')
         else Inr (response_new, s\<lparr>consuming_schedule := Some False\<rparr>))
      else Inl (Std (GenericErr ''unknown reply'')))"

section \<open>Execution\<close>

fun execute_restricted :: "host \<Rightarrow> block_env \<Rightarrow> message_info \<Rightarrow> restricted_msg \<Rightarrow> core_state \<Rightarrow> handler_result" where
  "execute_restricted H env info (RegisterClient client_type client_address) s =
     bindE (validate H client_address) (\<lambda>a. register_client client_type a s)"
| "execute_restricted H env info (CreateClient client_type cs cons relayer) s =
     bindE (validate H relayer) (\<lambda>r. create_client H info client_type cs cons r s)"
| "execute_restricted H env info (UpdateClient cl m relayer) s =
     bindE (validate H relayer) (\<lambda>r. update_client H info cl m r s)"
| "execute_restricted H env info (ForceUpdateClient cl cs cons) s = force_update_client H info cl cs cons s"
| "execute_restricted H env info (Misbehaviour cl m relayer) s =
     bindE (validate H relayer) (\<lambda>r. misbehaviour H info cl m r s)"
| "execute_restricted H env info (ConnectionOpenInit cl ccl) s = connection_open_init H cl ccl s"
| "execute_restricted H env info (ConnectionOpenTry ccl cco cl proof h) s =
     connection_open_try H ccl cco cl proof h True s"
| "execute_restricted H env info (ForceConnectionOpenTry ccl cco cl proof h) s =
     connection_open_try H ccl cco cl proof h False s"
| "execute_restricted H env info (ConnectionOpenAck co cco proof h) s = connection_open_ack H co cco proof h True s"
| "execute_restricted H env info (ForceConnectionOpenAck co cco proof h) s =
     connection_open_ack H co cco proof h False s"
| "execute_restricted H env info (ConnectionOpenConfirm co proof h) s = connection_open_confirm H co proof h True s"
| "execute_restricted H env info (ForceConnectionOpenConfirm co proof h) s =
     connection_open_confirm H co proof h False s"
| "execute_restricted H env info (ChannelOpenInit port cport co ver relayer) s =
     bindE (validate H relayer) (\<lambda>r. channel_open_init H info port cport co ver r s)"
| "execute_restricted H env info (ChannelOpenTry port c cver proof h relayer) s =
     bindE (validate H relayer) (\<lambda>r. channel_open_try H info port c cver proof h r True s)"
| "execute_restricted H env info (ForceChannelOpenTry port c cver proof h relayer) s =
     bindE (validate H relayer) (\<lambda>r. channel_open_try H info port c cver proof h r False s)"
| "execute_restricted H env info (ChannelOpenAck ch cver cch proof h relayer) s =
     bindE (validate H relayer) (\<lambda>r. channel_open_ack H info ch cver cch proof h r True s)"
| "execute_restricted H env info (ForceChannelOpenAck ch cver cch proof h relayer) s =
     bindE (validate H relayer) (\<lambda>r. channel_open_ack H info ch cver cch proof h r False s)"
| "execute_restricted H env info (ChannelOpenConfirm ch proof h relayer) s =
     bindE (validate H relayer) (\<lambda>r. channel_open_confirm H info ch proof h r True s)"
| "execute_restricted H env info (ForceChannelOpenConfirm ch proof h relayer) s =
     bindE (validate H relayer) (\<lambda>r. channel_open_confirm H info ch proof h r False s)"
| "execute_restricted H env info (ChannelCloseInit ch relayer) s =
     bindE (validate H relayer) (\<lambda>r. channel_close_init H info ch r s)"
| "execute_restricted H env info (ChannelCloseConfirm ch proof h relayer) s =
     bindE (validate H relayer) (\<lambda>r. channel_close_confirm H info ch proof h r s)"
| "execute_restricted H env info (PacketRecv ps msgs relayer proof h) s =
     process_receive H env info ps msgs relayer proof h False s"
| "execute_restricted H env info (PacketAck ps acks proof h relayer) s =
     bindE (validate H relayer) (\<lambda>r. acknowledge_packet H info ps acks proof h r s)"
| "execute_restricted H env info (PacketTimeout p proof h relayer) s =
     bindE (validate H relayer) (\<lambda>r. timeout_packet H info p proof h r s)"
| "execute_restricted H env info (IntentPacketRecv ps msgs maker) s =
     process_receive H env info ps msgs maker [] 0 True s"
| "execute_restricted H env info (BatchSend ps) s = batch_send H ps s"
| "execute_restricted H env info (BatchAcks ps acks) s = batch_acks H ps acks s"
| "execute_restricted H env info (CommitMembershipProof cl h proof path value) s =
     commit_membership_proof H cl h proof path value s"
| "execute_restricted H env info (CommitNonMembershipProof cl h proof path) s =
     commit_non_membership_proof H cl h proof path s"
| "execute_restricted H env info (Upgradable u) s = Inr (upgradable_execute env u, s)"

fun execute :: "host \<Rightarrow> block_env \<Rightarrow> message_info \<Rightarrow> execute_msg \<Rightarrow> core_state \<Rightarrow> handler_result" where
  "execute H env info (WriteAcknowledgement p ack) s = write_acknowledgement H (sender info) p ack s"
| "execute H env info (PacketSend src timeout data) s = send_packet H (sender info) src timeout data s"
| "execute H env info (MigrateState cl cs cons h) s = migrate_state H (sender info) cl cs cons h s"
| "execute H env info (SetAuthority new_authority) s = set_authority H info new_authority s"
| "execute H env info (Restricted msg) s =
     bindE (ensure_can_call H env info msg s) (\<lambda>(r, s1).
     case r of
       Msg m \<Rightarrow> execute_restricted H env info m s1
     | Scheduled subs \<Rightarrow> Inr (response_new\<lparr>r_submessages := subs\<rparr>, s1))"

section \<open>Initialisation and migration\<close>

definition LATEST_VERSION :: u32 where
  "LATEST_VERSION = 2"

definition instantiate :: "core_state \<Rightarrow> handler_result" where
  "instantiate s = Inl (Panic ''this contract cannot be instantiated directly, but must be migrated from an existing instantiated contract.'')"

definition access_managed_init :: "addr \<Rightarrow> core_state \<Rightarrow> core_state" where
  "access_managed_init initial_authority s =
     s\<lparr>authority := Some initial_authority, consuming_schedule := Some False\<rparr>"

definition init :: "addr \<Rightarrow> core_state \<Rightarrow> contract_error + ((response \<times> u32 option) \<times> core_state)" where
  "init initial_authority s =
     Inr ((response_new, Some LATEST_VERSION),
          (access_managed_init initial_authority s)
            \<lparr>next_channel_id := Some 1, next_connection_id := Some 1, next_client_id := Some 1\<rparr>)"

definition migrate_from :: "u32 \<Rightarrow> core_state \<Rightarrow> contract_error + ((response \<times> u32 option) \<times> core_state)" where
  "migrate_from v s =
     (if v = 1 then Inl (Std (GenericErr ''unsupported version: INIT''))
      else if v = 2 then Inr ((response_new, None), s)
      else Inl (MigrateErr (UnknownStateVersion v)))"

definition put_state_version :: "u32 \<Rightarrow> core_state \<Rightarrow> core_state" where
  "put_state_version v s = s\<lparr>state_version := Some v\<rparr>"

definition migrate :: "addr upgrade_msg \<Rightarrow> core_state \<Rightarrow> handler_result" where
  "migrate msg s = upgrade_run MigrateErr state_version put_state_version msg init migrate_from s"

interpretation core: versioned MigrateErr state_version put_state_version init migrate_from
  by unfold_locales (simp add: put_state_version_def)

text \<open>The storage of a contract before its first initialisation.\<close>

definition empty_state :: core_state where
  "empty_state = \<lparr>channel_owner = \<lambda>_. None, channels = \<lambda>_. None, contract_channels = \<lambda>_. None,
     connections = \<lambda>_. None, client_states = \<lambda>_. None, client_consensus_states = \<lambda>_. None,
     client_registry = \<lambda>_. None, client_types = \<lambda>_. None, client_impls = \<lambda>_. None, client_store = \<lambda>_. None,
     next_client_id = None, next_connection_id = None, next_channel_id = None, commitments = \<lambda>_. None,
     query_store = None, authority = None, consuming_schedule = None, state_version = None\<rparr>"

section \<open>Queries\<close>

datatype query_msg =
    QGetTimestampAtHeight client_id u64
  | QGetLatestHeight client_id
  | QGetClientState client_id
  | QGetConsensusState client_id u64
  | QGetStatus client_id
  | QGetClientType client_id
  | QGetConnection connection_id
  | QGetChannel channel_id
  | QGetChannels string
  | QGetBatchPackets h256
  | QGetBatchReceipts h256
  | QGetCommittedMembershipProof client_id u64 bytes
  | QGetCommittedNonMembershipProof client_id u64 bytes
  | QGetClientImpl client_id
  | QGetRegisteredClientType string
  | QAuthority
  | QIsConsumingScheduledOp

datatype query_response =
    RTimestamp timestamp
  | RHeight u64
  | RBytes bytes
  | RStatus status
  | RString string
  | RConnection connection
  | RChannel channel
  | RChannels "channel_id set"
  | RCommit "h256 option"
  | RBool bool

fun query :: "host \<Rightarrow> query_msg \<Rightarrow> core_state \<Rightarrow> contract_error + query_response" where
  "query H (QGetClientType cl) s = bindE (sread (client_types s) cl) (\<lambda>x. Inr (RString x))"
| "query H (QGetClientImpl cl) s = bindE (client_impl s cl) (\<lambda>x. Inr (RString x))"
| "query H (QGetRegisteredClientType t) s = bindE (sread (client_registry s) t) (\<lambda>x. Inr (RString x))"
| "query H (QGetTimestampAtHeight cl h) s = bindE (get_timestamp_at_height H s cl h) (\<lambda>x. Inr (RTimestamp x))"
| "query H (QGetLatestHeight cl) s =
     bindE (client_impl s cl) (\<lambda>impl.
     bindE (query_light_client (q_height H) s impl (GetLatestHeight cl)) (\<lambda>x. Inr (RHeight x)))"
| "query H (QGetClientState cl) s = bindE (sread (client_states s) cl) (\<lambda>x. Inr (RBytes x))"
| "query H (QGetConsensusState cl h) s = bindE (sread (client_consensus_states s) (cl, h)) (\<lambda>x. Inr (RBytes x))"
| "query H (QGetStatus cl) s =
     bindE (client_impl s cl) (\<lambda>impl.
     bindE (query_light_client (q_status H) s impl (GetStatus cl)) (\<lambda>x. Inr (RStatus x)))"
| "query H (QGetChannels a) s =
     bindE (validate H a) (\<lambda>c. bindE (sread (contract_channels s) c) (\<lambda>x. Inr (RChannels x)))"
| "query H (QGetChannel ch) s = bindE (sread (channels s) ch) (\<lambda>x. Inr (RChannel x))"
| "query H (QGetConnection co) s = bindE (sread (connections s) co) (\<lambda>x. Inr (RConnection x))"
| "query H (QGetBatchPackets b) s = Inr (RCommit (read_commit s (path_key H (BatchPackets b))))"
| "query H (QGetBatchReceipts b) s = Inr (RCommit (read_commit s (path_key H (BatchReceipts b))))"
| "query H (QGetCommittedMembershipProof cl h path) s =
     Inr (RCommit (read_commit s (path_key H (MembershipProof cl h path))))"
| "query H (QGetCommittedNonMembershipProof cl h path) s =
     (case read_commit s (path_key H (NonMembershipProof cl h path)) of
       None \<Rightarrow> Inr (RBool False)
     | Some c \<Rightarrow> if c = NON_MEMBERSHIP_COMMITMENT_VALUE then Inr (RBool True) else Inl (Panic ''unreachable''))"
| "query H QAuthority s = bindE (am_read (authority s)) (\<lambda>x. Inr (RString x))"
| "query H QIsConsumingScheduledOp s =
     bindE (am_read (consuming_schedule s)) (\<lambda>b.
       Inr (RString (if b then ''is_consuming_scheduled_op'' else [])))"

end
