(* ===== verification/Core_Frame.thy ===== *)
theory Core_Frame
  imports Core_Contract
begin

text \<open>
  What each handler of the core contract writes. \<open>execute_cases\<close> splits a successful call of
  \<open>execute\<close> into its handlers; for every handler, one lemma inverts success into the checks that
  passed and the final state. The property theories rest on these.
\<close>

section \<open>One case per handler\<close>

lemma ensure_can_call_Inr:
  assumes "ensure_can_call H env info m s = Inr (x, s1)"
  shows "(x = Msg m \<and> s1 = s) \<or> (\<exists>subs. x = Scheduled subs \<and> s1 = s\<lparr>consuming_schedule := Some True\<rparr>)"
proof -
  obtain auth can where "(case can of
       Immediate \<Rightarrow> Inr (Msg m, s)
     | NotAuthorized \<Rightarrow> Inl (AccessManagedErr (AccessManagedUnauthorized (sender info)))
     | WithDelay _ \<Rightarrow>
         Inr (Scheduled [ConsumeScheduledOp auth (sender info) m,
                ExecuteSelf (contract_address env) m CONSUME_REPLY_ID],
              s\<lparr>consuming_schedule := Some True\<rparr>)) = Inr (x, s1)"
    using assms unfolding ensure_can_call_def bindE_eq_Inr by blast
  then show ?thesis by (cases can) auto
qed

lemma execute_cases [consumes 1, case_names
    send write_ack migrate_state set_authority scheduled upgrade register create update force_update misbehaviour
    conn_init conn_try conn_ack conn_confirm chan_init chan_try chan_ack chan_confirm close_init close_confirm
    recv ack timeout batch_send batch_acks member non_member]:
  assumes "execute H env info msg s = Inr (r, s')"
    and "\<And>src t d. msg = PacketSend src t d \<Longrightarrow> send_packet H (sender info) src t d s = Inr (r, s') \<Longrightarrow> P"
    and "\<And>p a. msg = WriteAcknowledgement p a \<Longrightarrow> write_acknowledgement H (sender info) p a s = Inr (r, s') \<Longrightarrow> P"
    and "\<And>cl cs cons h. migrate_state H (sender info) cl cs cons h s = Inr (r, s') \<Longrightarrow> P"
    and "\<And>a. set_authority H info a s = Inr (r, s') \<Longrightarrow> P"
    and "\<And>subs. r = response_new\<lparr>r_submessages := subs\<rparr> \<Longrightarrow> s' = s\<lparr>consuming_schedule := Some True\<rparr> \<Longrightarrow> P"
    and "\<And>u. r = upgradable_execute env u \<Longrightarrow> s' = s \<Longrightarrow> P"
    and "\<And>t a. register_client t a s = Inr (r, s') \<Longrightarrow> P"
    and "\<And>t cs cons rel. create_client H info t cs cons rel s = Inr (r, s') \<Longrightarrow> P"
    and "\<And>cl m rel. update_client H info cl m rel s = Inr (r, s') \<Longrightarrow> P"
    and "\<And>cl cs cons. force_update_client H info cl cs cons s = Inr (r, s') \<Longrightarrow> P"
    and "\<And>cl m rel. misbehaviour H info cl m rel s = Inr (r, s') \<Longrightarrow> P"
    and "\<And>cl ccl. connection_open_init H cl ccl s = Inr (r, s') \<Longrightarrow> P"
    and "\<And>ccl cco cl pr h v. connection_open_try H ccl cco cl pr h v s = Inr (r, s') \<Longrightarrow> P"
    and "\<And>co cco pr h v. connection_open_ack H co cco pr h v s = Inr (r, s') \<Longrightarrow> P"
    and "\<And>co pr h v. connection_open_confirm H co pr h v s = Inr (r, s') \<Longrightarrow> P"
    and "\<And>port cport co ver rel. channel_open_init H info port cport co ver rel s = Inr (r, s') \<Longrightarrow> P"
    and "\<And>port c cver pr h rel v. channel_open_try H info port c cver pr h rel v s = Inr (r, s') \<Longrightarrow> P"
    and "\<And>ch cver cch pr h rel v. channel_open_ack H info ch cver cch pr h rel v s = Inr (r, s') \<Longrightarrow> P"
    and "\<And>ch pr h rel v. channel_open_confirm H info ch pr h rel v s = Inr (r, s') \<Longrightarrow> P"
    and "\<And>ch rel. channel_close_init H info ch rel s = Inr (r, s') \<Longrightarrow> P"
    and "\<And>ch pr h rel. channel_close_confirm H info ch pr h rel s = Inr (r, s') \<Longrightarrow> P"
    and "\<And>ps msgs rel pr h intent. process_receive H env info ps msgs rel pr h intent s = Inr (r, s') \<Longrightarrow> P"
    and "\<And>ps acks pr h rel. acknowledge_packet H info ps acks pr h rel s = Inr (r, s') \<Longrightarrow> P"
    and "\<And>p pr h rel. timeout_packet H info p pr h rel s = Inr (r, s') \<Longrightarrow> P"
    and "\<And>ps. batch_send H ps s = Inr (r, s') \<Longrightarrow> P"
    and "\<And>ps acks. batch_acks H ps acks s = Inr (r, s') \<Longrightarrow> P"
    and "\<And>cl h pr path v. commit_membership_proof H cl h pr path v s = Inr (r, s') \<Longrightarrow> P"
    and "\<And>cl h pr path. commit_non_membership_proof H cl h pr path s = Inr (r, s') \<Longrightarrow> P"
  shows P
  using assms(1)
proof (cases msg)
  case (Restricted m)
  with assms(1) obtain x s1 where x: "ensure_can_call H env info m s = Inr (x, s1)"
    and rest: "(case x of Msg m \<Rightarrow> execute_restricted H env info m s1
      | Scheduled subs \<Rightarrow> Inr (response_new\<lparr>r_submessages := subs\<rparr>, s1)) = Inr (r, s')"
    by (auto simp: bindE_eq_Inr)
  from ensure_can_call_Inr [OF x] show P
  proof
    assume "x = Msg m \<and> s1 = s"
    with rest have e: "execute_restricted H env info m s = Inr (r, s')" by simp
    from e show P
    proof (cases m)
      case (Upgradable u)
      with e show P by (intro assms(7)) auto
    qed (simp_all only: execute_restricted.simps bindE_eq_Inr, (elim exE conjE assms(8-))+)
  next
    assume "\<exists>subs. x = Scheduled subs \<and> s1 = s\<lparr>consuming_schedule := Some True\<rparr>"
    with rest assms(6) show P by auto
  qed
next
  case (PacketSend src t d)
  with assms(1) show P by (intro assms(2)) simp_all
next
  case (WriteAcknowledgement p a)
  with assms(1) show P by (intro assms(3)) simp_all
qed (simp_all only: execute.simps, (elim assms(4,5))+)

section \<open>Frames\<close>

text \<open>\<open>commits_only H P s s'\<close>: between \<open>s\<close> and \<open>s'\<close>, commitments changed under paths in \<open>P\<close> only.\<close>

definition commits_only :: "'z crypto_scheme \<Rightarrow> (store_path \<Rightarrow> bool) \<Rightarrow> core_state \<Rightarrow> core_state \<Rightarrow> bool" where
  "commits_only H P s s' \<longleftrightarrow> (\<forall>k. commitments s' k \<noteq> commitments s k \<longrightarrow> (\<exists>p. P p \<and> k = path_key H p))"

text \<open>\<open>same_ends s s'\<close>: no connection, no channel, no ownership and no version changed.\<close>

definition same_ends :: "core_state \<Rightarrow> core_state \<Rightarrow> bool" where
  "same_ends s s' \<longleftrightarrow> channels s' = channels s \<and> connections s' = connections s \<and>
     channel_owner s' = channel_owner s \<and> contract_channels s' = contract_channels s \<and>
     next_channel_id s' = next_channel_id s \<and> next_connection_id s' = next_connection_id s \<and>
     state_version s' = state_version s"

fun client_path :: "store_path \<Rightarrow> bool" where
  "client_path (ClientState _) = True"
| "client_path (ConsensusState _ _) = True"
| "client_path (MembershipProof _ _ _) = True"
| "client_path (NonMembershipProof _ _ _) = True"
| "client_path _ = False"

fun end_path :: "store_path \<Rightarrow> bool" where
  "end_path (Connection _) = True"
| "end_path (Channel _) = True"
| "end_path _ = False"

fun packet_path :: "store_path \<Rightarrow> bool" where
  "packet_path (BatchPackets _) = True"
| "packet_path (BatchReceipts _) = True"
| "packet_path _ = False"

lemma store_commit_simps [simp]:
  "commitments (store_commit k v s) = (commitments s)(k \<mapsto> v)"
  "channels (store_commit k v s) = channels s"
  "connections (store_commit k v s) = connections s"
  "channel_owner (store_commit k v s) = channel_owner s"
  "contract_channels (store_commit k v s) = contract_channels s"
  "next_channel_id (store_commit k v s) = next_channel_id s"
  "next_connection_id (store_commit k v s) = next_connection_id s"
  "next_client_id (store_commit k v s) = next_client_id s"
  "client_states (store_commit k v s) = client_states s"
  "client_impls (store_commit k v s) = client_impls s"
  "client_types (store_commit k v s) = client_types s"
  "client_registry (store_commit k v s) = client_registry s"
  "client_consensus_states (store_commit k v s) = client_consensus_states s"
  "authority (store_commit k v s) = authority s"
  "state_version (store_commit k v s) = state_version s"
  by (simp_all add: store_commit_def)

lemma commits_only_refl: "commitments s' = commitments s \<Longrightarrow> commits_only H P s s'"
  by (simp add: commits_only_def)

lemma commits_only_store [simp]:
  "P p \<Longrightarrow> commits_only H P s s' \<Longrightarrow> commits_only H P s (store_commit (path_key H p) v s')"
  unfolding commits_only_def store_commit_simps by (metis fun_upd_other)

lemma commits_only_cong: "commitments s2 = commitments s1 \<Longrightarrow> commits_only H P s s2 = commits_only H P s s1"
  by (simp add: commits_only_def)

lemma commits_onlyD:
  assumes "commits_only H P s s'" "key_unique H p" "\<not> P p"
  shows "commitments s' (path_key H p) = commitments s (path_key H p)"
proof (rule ccontr)
  assume "commitments s' (path_key H p) \<noteq> commitments s (path_key H p)"
  with assms(1) obtain q where "P q" "path_key H p = path_key H q"
    unfolding commits_only_def by meson
  with key_uniqueD [OF assms(2), of q] assms(3) show False by simp
qed

lemma write_client_store_simps [simp]:
  "commitments (write_client_store cl ws s) = commitments s"
  "channels (write_client_store cl ws s) = channels s"
  "connections (write_client_store cl ws s) = connections s"
  "channel_owner (write_client_store cl ws s) = channel_owner s"
  "contract_channels (write_client_store cl ws s) = contract_channels s"
  "next_channel_id (write_client_store cl ws s) = next_channel_id s"
  "next_connection_id (write_client_store cl ws s) = next_connection_id s"
  "next_client_id (write_client_store cl ws s) = next_client_id s"
  "client_states (write_client_store cl ws s) = client_states s"
  "client_impls (write_client_store cl ws s) = client_impls s"
  "state_version (write_client_store cl ws s) = state_version s"
  by (induction ws arbitrary: s) (auto simp: write_client_store_def split: prod.splits)

lemma respond_simps [simp]:
  "r_messages (respond evs msgs) = msgs" "r_events (respond evs msgs) = evs"
  "r_messages response_new = []" "r_events response_new = []"
  "r_data (respond evs msgs) = None" "r_data response_new = None"
  by (simp_all add: respond_def response_new_def)

text \<open>The handlers that concern clients leave the handshake and the packets alone.\<close>

definition client_frame :: "'z crypto_scheme \<Rightarrow> core_state \<Rightarrow> response \<Rightarrow> core_state \<Rightarrow> bool" where
  "client_frame H s r s' \<longleftrightarrow> same_ends s s' \<and> r_messages r = [] \<and> r_data r = None \<and> commits_only H client_path s s'"

lemma client_frame_register: "register_client t a s = Inr (r, s') \<Longrightarrow> client_frame H s r s'"
  by (auto simp: register_client_def client_frame_def same_ends_def commits_only_refl split: option.splits)

lemma commits_client2:
  "client_path p \<Longrightarrow> client_path q \<Longrightarrow> commitments s' = (commitments s)(path_key H p \<mapsto> v, path_key H q \<mapsto> w) \<Longrightarrow>
     commits_only H client_path s s'"
  by (auto simp: commits_only_def)

lemma commits_client1:
  "client_path p \<Longrightarrow> commitments s' = (commitments s)(path_key H p \<mapsto> v) \<Longrightarrow> commits_only H client_path s s'"
  by (auto simp: commits_only_def)

lemma init_client_Inr:
  assumes "init_client H info cs cons rel impl cl s = Inr ((vcr, h), s')"
  shows "same_ends s s' \<and> commits_only H client_path s s' \<and> next_client_id s' = next_client_id s \<and>
    client_impls s' = client_impls s \<and>
    client_states s' = (client_states s)(cl \<mapsto> (case vcr_client_state_bytes vcr of Some b \<Rightarrow> b | None \<Rightarrow> cs)) \<and>
    commitments s' = (commitments s)(path_key H (ClientState cl) \<mapsto> commit H cs,
      path_key H (ConsensusState cl h) \<mapsto> commit H cons)"
  using assms
  by (auto simp: init_client_def bindE_eq_Inr Let_def same_ends_def split: option.splits
      intro!: commits_client2 [of "ClientState cl" "ConsensusState cl h"])

lemma client_frame_create:
  assumes "create_client H info t cs cons rel s = Inr (r, s')"
  shows "client_frame H s r s'"
proof -
  obtain impl cl s1 vcr h where s1: "take_next_client_id s = Inr (cl, s1)"
    and init: "init_client H info cs cons rel impl cl
      (s1\<lparr>client_types := (client_types s1)(cl \<mapsto> t), client_impls := (client_impls s1)(cl \<mapsto> impl)\<rparr>) =
        Inr ((vcr, h), s')"
    and r: "r_messages r = []" "r_data r = None"
    using assms by (auto simp: create_client_def bindE_eq_Inr Let_def)
  have "same_ends s s1" "commitments s1 = commitments s"
    using s1 by (auto simp: take_next_client_id_def bindE_eq_Inr same_ends_def)
  with init_client_Inr [OF init] r show ?thesis
    by (simp add: client_frame_def same_ends_def commits_only_def)
qed

lemma client_frame_force_update:
  assumes "force_update_client H info cl cs cons s = Inr (r, s')"
  shows "client_frame H s r s'"
proof -
  obtain impl vcr h where "init_client H info cs cons (sender info) impl cl s = Inr ((vcr, h), s')"
    and "r_messages r = []" "r_data r = None"
    using assms by (auto simp: force_update_client_def bindE_eq_Inr)
  then show ?thesis using init_client_Inr by (simp add: client_frame_def)
qed

lemma update_client_Inr:
  assumes "update_client H info cl m rel s = Inr (r, s')"
  shows "\<exists>u :: update_state_response. r = respond [UpdateClientEv cl (usr_height u)] [] \<and> same_ends s s' \<and>
    commitments s' = (case usr_client_state_bytes u of None \<Rightarrow> commitments s
        | Some b \<Rightarrow> (commitments s)(path_key H (ClientState cl) \<mapsto> commit H b))
      (path_key H (ConsensusState cl (usr_height u)) \<mapsto> commit H (usr_consensus_state_bytes u))"
proof -
  obtain impl u where u: "query_light_client (q_update H) (s\<lparr>query_store := Some m\<rparr>) impl
      (UpdateState (sender info) cl rel) = Inr u"
    and "r = respond [UpdateClientEv cl (usr_height u)] []"
    and "s' = (let s2 = s\<lparr>query_store := Some m, query_store := None\<rparr>;
         s3 = (case usr_client_state_bytes u of
                 Some b \<Rightarrow> (store_commit (path_key H (ClientState cl)) (commit H b) s2)
                             \<lparr>client_states := (client_states s2)(cl \<mapsto> b)\<rparr>
               | None \<Rightarrow> s2);
         s4 = store_commit (path_key H (ConsensusState cl (usr_height u)))
                (commit H (usr_consensus_state_bytes u)) s3;
         s5 = s4\<lparr>client_consensus_states :=
                (client_consensus_states s4)((cl, usr_height u) \<mapsto> usr_consensus_state_bytes u)\<rparr>
     in write_client_store cl (usr_storage_writes u) s5)"
    using assms unfolding update_client_def bindE_eq_Inr Let_def by blast
  then show ?thesis
    by - (rule exI [of _ u], cases "usr_client_state_bytes u", simp_all add: Let_def same_ends_def)
qed

lemma client_frame_update:
  assumes "update_client H info cl m rel s = Inr (r, s')"
  shows "client_frame H s r s'"
proof -
  obtain u :: update_state_response where "r = respond [UpdateClientEv cl (usr_height u)] []" "same_ends s s'"
    and c: "commitments s' = (case usr_client_state_bytes u of None \<Rightarrow> commitments s
        | Some b \<Rightarrow> (commitments s)(path_key H (ClientState cl) \<mapsto> commit H b))
      (path_key H (ConsensusState cl (usr_height u)) \<mapsto> commit H (usr_consensus_state_bytes u))"
    using update_client_Inr [OF assms] by blast
  moreover have "commits_only H client_path s s'"
    using c by (cases "usr_client_state_bytes u")
      (simp_all add: commits_client1 [of "ConsensusState cl (usr_height u)"]
        commits_client2 [of "ClientState cl" "ConsensusState cl (usr_height u)"])
  ultimately show ?thesis by (simp add: client_frame_def)
qed

lemma client_frame_misbehaviour: "misbehaviour H info cl m rel s = Inr (r, s') \<Longrightarrow> client_frame H s r s'"
  by (auto simp: misbehaviour_def bindE_eq_Inr Let_def client_frame_def same_ends_def
      intro!: commits_client1 [of "ClientState cl"])

lemma client_frame_migrate: "migrate_state H a cl cs cons h s = Inr (r, s') \<Longrightarrow> client_frame H s r s'"
  by (auto simp: migrate_state_def bindE_eq_Inr Let_def client_frame_def same_ends_def
      intro!: commits_client2 [of "ClientState cl" "ConsensusState cl h"])

lemma client_frame_member: "commit_membership_proof H cl h pr path v s = Inr (r, s') \<Longrightarrow> client_frame H s r s'"
  by (auto simp: commit_membership_proof_def bindE_eq_Inr client_frame_def same_ends_def
      intro!: commits_client1 [of "MembershipProof cl h path"])

lemma client_frame_non_member: "commit_non_membership_proof H cl h pr path s = Inr (r, s') \<Longrightarrow> client_frame H s r s'"
  by (auto simp: commit_non_membership_proof_def bindE_eq_Inr client_frame_def same_ends_def
      intro!: commits_client1 [of "NonMembershipProof cl h path"])

lemma client_frame_authority: "set_authority H info a s = Inr (r, s') \<Longrightarrow> client_frame H s r s'"
  by (auto simp: set_authority_def bindE_eq_Inr client_frame_def same_ends_def commits_only_refl split: sum.splits)

lemma client_frame_scheduled:
  "client_frame H s (response_new\<lparr>r_submessages := subs\<rparr>) (s\<lparr>consuming_schedule := x\<rparr>)"
  by (simp add: client_frame_def same_ends_def commits_only_refl response_new_def)

lemmas client_frames = client_frame_register client_frame_create client_frame_force_update client_frame_update
  client_frame_misbehaviour client_frame_migrate client_frame_member client_frame_non_member client_frame_authority

section \<open>Handshake steps\<close>

definition conn_new :: "connection \<Rightarrow> bool" where
  "conn_new c \<longleftrightarrow> (co_state c = ConnInit \<and> co_counterparty_connection_id c = None) \<or>
     (co_state c = ConnTryOpen \<and> co_counterparty_connection_id c \<noteq> None)"

definition conn_trans :: "connection \<Rightarrow> connection \<Rightarrow> bool" where
  "conn_trans c c' \<longleftrightarrow>
     (co_state c = ConnInit \<and> (\<exists>cco. c' = c\<lparr>co_state := ConnOpen, co_counterparty_connection_id := Some cco\<rparr>)) \<or>
     (co_state c = ConnTryOpen \<and> co_counterparty_connection_id c \<noteq> None \<and> c' = c\<lparr>co_state := ConnOpen\<rparr>)"

definition conn_step :: "host \<Rightarrow> core_state \<Rightarrow> core_state \<Rightarrow> bool" where
  "conn_step H s s' \<longleftrightarrow>
     (\<exists>co v c. next_connection_id s = Some co \<and> id_checked_add co 1 = Some v \<and> conn_new c \<and>
        s' = save_connection H co c (s\<lparr>next_connection_id := Some v\<rparr>)) \<or>
     (\<exists>co c c'. connections s co = Some c \<and> conn_trans c c' \<and> s' = save_connection H co c' s)"

lemma take_next_connection_id_Inr:
  "take_next_connection_id s = Inr (co, s1) \<longleftrightarrow>
     (\<exists>v. next_connection_id s = Some co \<and> id_checked_add co 1 = Some v \<and> s1 = s\<lparr>next_connection_id := Some v\<rparr>)"
  by (auto simp: take_next_connection_id_def bindE_eq_Inr ok_or_eq_Inr)

lemma take_next_channel_id_Inr:
  "take_next_channel_id s = Inr (ch, s1) \<longleftrightarrow>
     (\<exists>v. next_channel_id s = Some ch \<and> id_checked_add ch 1 = Some v \<and> s1 = s\<lparr>next_channel_id := Some v\<rparr>)"
  by (auto simp: take_next_channel_id_def bindE_eq_Inr ok_or_eq_Inr)

lemma conn_trans_ack:
  "co_state c = ConnInit \<Longrightarrow> conn_trans c (c\<lparr>co_state := ConnOpen, co_counterparty_connection_id := Some cco\<rparr>)"
  unfolding conn_trans_def by blast

lemma conn_step_newI:
  assumes "take_next_connection_id s = Inr (co, s1)" "conn_new c"
  shows "conn_step H s (save_connection H co c s1)"
  using assms unfolding take_next_connection_id_Inr conn_step_def by blast

lemma conn_step_transI:
  assumes "connections s co = Some c" "conn_trans c c'"
  shows "conn_step H s (save_connection H co c' s)"
  using assms unfolding conn_step_def by blast

lemma conn_step_init:
  "connection_open_init H cl ccl s = Inr (r, s') \<Longrightarrow> conn_step H s s' \<and> r_messages r = [] \<and> r_data r = None"
  by (auto simp: connection_open_init_def bindE_eq_Inr conn_new_def intro!: conn_step_newI)

lemma conn_step_try:
  "connection_open_try H ccl cco cl pr h v s = Inr (r, s') \<Longrightarrow> conn_step H s s' \<and> r_messages r = [] \<and> r_data r = None"
  by (auto simp: connection_open_try_def bindE_eq_Inr conn_new_def intro!: conn_step_newI)

lemma conn_step_ack:
  "connection_open_ack H co cco pr h v s = Inr (r, s') \<Longrightarrow> conn_step H s s' \<and> r_messages r = [] \<and> r_data r = None"
  by (auto simp: connection_open_ack_def result_simps conn_trans_ack intro!: conn_step_transI)

lemma conn_step_confirm:
  "connection_open_confirm H co pr h v s = Inr (r, s') \<Longrightarrow> conn_step H s s' \<and> r_messages r = [] \<and> r_data r = None"
  by (auto simp: connection_open_confirm_def result_simps conn_trans_def intro!: conn_step_transI)

lemmas conn_steps = conn_step_init conn_step_try conn_step_ack conn_step_confirm

definition chan_new :: "channel \<Rightarrow> bool" where
  "chan_new c \<longleftrightarrow> (ch_state c = ChanInit \<and> ch_counterparty_channel_id c = None) \<or>
     (ch_state c = ChanTryOpen \<and> ch_counterparty_channel_id c \<noteq> None)"

definition chan_trans :: "channel \<Rightarrow> channel \<Rightarrow> bool" where
  "chan_trans c c' \<longleftrightarrow>
     (ch_state c = ChanInit \<and> (\<exists>cch ver. c' = c\<lparr>ch_state := ChanOpen, ch_version := ver,
        ch_counterparty_channel_id := Some cch\<rparr>)) \<or>
     (ch_state c = ChanTryOpen \<and> ch_counterparty_channel_id c \<noteq> None \<and> c' = c\<lparr>ch_state := ChanOpen\<rparr>) \<or>
     (ch_state c = ChanOpen \<and> ch_counterparty_channel_id c \<noteq> None \<and> c' = c\<lparr>ch_state := ChanClosed\<rparr>)"

definition connection_open_at :: "core_state \<Rightarrow> connection_id \<Rightarrow> bool" where
  "connection_open_at s co \<longleftrightarrow> (\<exists>c. connections s co = Some c \<and> co_state c = ConnOpen)"

definition add_channel :: "host \<Rightarrow> channel_id \<Rightarrow> addr \<Rightarrow> channel \<Rightarrow> u32 \<Rightarrow> core_state \<Rightarrow> core_state" where
  "add_channel H ch own c v s = save_channel H ch c
     (s\<lparr>next_channel_id := Some v, channel_owner := (channel_owner s)(ch \<mapsto> own),
       contract_channels := (contract_channels s)(own \<mapsto>
         (case contract_channels s own of None \<Rightarrow> {ch} | Some cs \<Rightarrow> insert ch cs))\<rparr>)"

definition chan_step :: "host \<Rightarrow> core_state \<Rightarrow> core_state \<Rightarrow> bool" where
  "chan_step H s s' \<longleftrightarrow>
     (\<exists>ch v own c. next_channel_id s = Some ch \<and> id_checked_add ch 1 = Some v \<and> chan_new c \<and>
        connection_open_at s (ch_connection_id c) \<and> s' = add_channel H ch own c v s) \<or>
     (\<exists>ch c c'. channels s ch = Some c \<and> chan_trans c c' \<and> connection_open_at s (ch_connection_id c) \<and>
        s' = save_channel H ch c' s)"

lemma create_channel_Inr:
  assumes "create_channel H own c s = Inr ((ch, c'), s')"
  shows "c' = c \<and> (\<exists>v. next_channel_id s = Some ch \<and> id_checked_add ch 1 = Some v \<and> s' = add_channel H ch own c v s)"
proof -
  obtain s1 cs where n: "take_next_channel_id s = Inr (ch, s1)" "c' = c"
    and cs: "(case contract_channels s1 own of
              Some cs \<Rightarrow> if ch \<in> cs then Inl (Panic ''impossible, channel has been just created'')
                         else Inr (insert ch cs)
            | None \<Rightarrow> Inr {ch}) = Inr cs"
    and s': "s' = save_channel H ch c (s1\<lparr>channel_owner := (channel_owner s1)(ch \<mapsto> own),
       contract_channels := (contract_channels s1)(own \<mapsto> cs)\<rparr>)"
    using assms unfolding create_channel_def Let_def by (auto simp: bindE_eq_Inr simp del: Inl_Inr_False)
  have "cs = (case contract_channels s1 own of None \<Rightarrow> {ch} | Some cs \<Rightarrow> insert ch cs)"
    using cs by (cases "contract_channels s1 own") (simp_all split: if_splits)
  with n s' show ?thesis unfolding take_next_channel_id_Inr add_channel_def by auto
qed

lemma ensure_connection_state_Inr [result_simps]:
  "ensure_connection_state s co = Inr c \<longleftrightarrow> connections s co = Some c \<and> co_state c = ConnOpen"
  by (auto simp: ensure_connection_state_def bindE_eq_Inr sread_eq_Inr split: if_splits)

lemma ensure_channel_state_Inr [result_simps]:
  "ensure_channel_state s ch = Inr c \<longleftrightarrow> channels s ch = Some c \<and> ch_state c = ChanOpen"
  by (auto simp: ensure_channel_state_def bindE_eq_Inr sread_eq_Inr split: if_splits)

text \<open>A message to a module that concerns packet \<open>p\<close>: it settles it on the source chain, or it
  delivers it on the destination chain.\<close>

fun settles :: "packet \<Rightarrow> wasm_msg \<Rightarrow> bool" where
  "settles p (CallModule _ (OnAcknowledgementPacket _ q _ _) _) = (q = p)"
| "settles p (CallModule _ (OnTimeoutPacket _ q _) _) = (q = p)"
| "settles p _ = False"

fun delivers :: "packet \<Rightarrow> wasm_msg \<Rightarrow> bool" where
  "delivers p (CallModule _ (OnRecvPacket _ q _ _) _) = (q = p)"
| "delivers p (CallModule _ (OnIntentRecvPacket _ q _ _) _) = (q = p)"
| "delivers p _ = False"

definition no_packet_msgs :: "response \<Rightarrow> bool" where
  "no_packet_msgs r \<longleftrightarrow> r_data r = None \<and> (\<forall>m \<in> set (r_messages r). \<forall>p. \<not> settles p m \<and> \<not> delivers p m)"

lemma chan_step_new:
  assumes "create_channel H own c s = Inr ((ch, c'), s')" "chan_new c" "connection_open_at s (ch_connection_id c)"
  shows "chan_step H s s'"
  using create_channel_Inr [OF assms(1)] assms(2,3) unfolding chan_step_def by blast

lemma chan_step_update:
  assumes "channels s ch = Some c" "chan_trans c c'" "connection_open_at s (ch_connection_id c)"
  shows "chan_step H s (save_channel H ch c' s)"
  using assms unfolding chan_step_def by blast

lemma chan_trans_ack:
  "ch_state c = ChanInit \<Longrightarrow>
     chan_trans c (c\<lparr>ch_state := ChanOpen, ch_version := ver, ch_counterparty_channel_id := Some cch\<rparr>)"
  unfolding chan_trans_def by blast

lemma chan_step_init:
  assumes "channel_open_init H info port cport co ver rel s = Inr (r, s')"
  shows "chan_step H s s' \<and> no_packet_msgs r"
  using assms by (auto simp: channel_open_init_def result_simps chan_new_def connection_open_at_def no_packet_msgs_def
      intro!: chan_step_new)

lemma chan_step_try:
  assumes "channel_open_try H info port c cver pr h rel v s = Inr (r, s')"
  shows "chan_step H s s' \<and> no_packet_msgs r"
  using assms by (auto simp: channel_open_try_def result_simps chan_new_def connection_open_at_def no_packet_msgs_def
      intro!: chan_step_new)

lemma chan_step_ack:
  assumes "channel_open_ack H info ch cver cch pr h rel v s = Inr (r, s')"
  shows "chan_step H s s' \<and> no_packet_msgs r"
  using assms by (auto simp: channel_open_ack_def result_simps Let_def chan_trans_ack connection_open_at_def
      no_packet_msgs_def intro!: chan_step_update)

lemma chan_step_confirm:
  assumes "channel_open_confirm H info ch pr h rel v s = Inr (r, s')"
  shows "chan_step H s s' \<and> no_packet_msgs r"
  using assms by (auto simp: channel_open_confirm_def result_simps Let_def chan_trans_def connection_open_at_def
      no_packet_msgs_def intro!: chan_step_update)

lemma chan_step_close_init:
  assumes "channel_close_init H info ch rel s = Inr (r, s')"
  shows "chan_step H s s' \<and> no_packet_msgs r"
  using assms by (auto simp: channel_close_init_def result_simps Let_def chan_trans_def connection_open_at_def
      no_packet_msgs_def intro!: chan_step_update)

lemma chan_step_close_confirm:
  assumes "channel_close_confirm H info ch pr h rel s = Inr (r, s')"
  shows "chan_step H s s' \<and> no_packet_msgs r"
  using assms by (auto simp: channel_close_confirm_def result_simps Let_def chan_trans_def connection_open_at_def
      no_packet_msgs_def save_channel_def [symmetric] intro!: chan_step_update)

lemmas chan_steps = chan_step_init chan_step_try chan_step_ack chan_step_confirm chan_step_close_init
  chan_step_close_confirm

end
