(* ===== verification/Core_Life.thy ===== *)
theory Core_Life
  imports Core_Frame
begin

text \<open>
  The life of one packet. On the source chain its commitment goes from absent to
  \<open>COMMITMENT_MAGIC\<close> (sent) to \<open>COMMITMENT_MAGIC_ACK\<close> (acknowledged or timed out); on the destination
  chain its receipt goes from absent to \<open>COMMITMENT_MAGIC\<close> (received) to the commitment of its
  acknowledgement. \<open>source_life\<close> and \<open>dest_life\<close> say what one call may do, the lemmas of the first
  two sections that every call of \<open>execute\<close> does no more, and the theorems follow for whole runs of the contract.
\<close>

section \<open>What one call does to a packet\<close>

definition source_life :: "h256 option \<Rightarrow> nat \<Rightarrow> nat \<Rightarrow> h256 option \<Rightarrow> bool" where
  "source_life c sent settled c' \<longleftrightarrow>
     (c' = c \<and> sent = 0 \<and> settled = 0) \<or>
     (c = None \<and> c' = Some COMMITMENT_MAGIC \<and> sent = 1 \<and> settled = 0) \<or>
     (c = Some COMMITMENT_MAGIC \<and> c' = Some COMMITMENT_MAGIC_ACK \<and> sent = 0 \<and> settled = 1)"

definition dest_life :: "h256 option \<Rightarrow> nat \<Rightarrow> h256 option \<Rightarrow> bool" where
  "dest_life c delivered c' \<longleftrightarrow>
     (c' = c \<and> delivered = 0) \<or>
     (c = None \<and> c' = Some COMMITMENT_MAGIC \<and> delivered = 1) \<or>
     (c = Some COMMITMENT_MAGIC \<and> c' \<noteq> None \<and> delivered = 0)"

definition receive_life :: "h256 option \<Rightarrow> nat \<Rightarrow> h256 option \<Rightarrow> bool" where
  "receive_life c delivered c' \<longleftrightarrow>
     (c' = c \<and> delivered = 0) \<or> (c = None \<and> c' = Some COMMITMENT_MAGIC \<and> delivered = 1)"

definition sends :: "packet \<Rightarrow> response \<Rightarrow> nat" where
  "sends p r = (if r_data r = Some p then 1 else 0)"

definition settled_by :: "packet \<Rightarrow> response \<Rightarrow> nat" where
  "settled_by p r = length (filter (settles p) (r_messages r))"

definition delivered_by :: "packet \<Rightarrow> response \<Rightarrow> nat" where
  "delivered_by p r = length (filter (delivers p) (r_messages r))"

text \<open>The keys of the single-packet batch of \<open>p\<close>, and that nothing else hashes to them.\<close>

definition sent_path :: "'z crypto_scheme \<Rightarrow> packet \<Rightarrow> store_path" where
  "sent_path K p = BatchPackets (commit_packets K [p])"

definition receipt_path :: "'z crypto_scheme \<Rightarrow> packet \<Rightarrow> store_path" where
  "receipt_path K p = BatchReceipts (commit_packets K [p])"

definition packet_unique :: "'z crypto_scheme \<Rightarrow> packet \<Rightarrow> bool" where
  "packet_unique K p \<longleftrightarrow> batch_unique K [p] \<and> key_unique K (sent_path K p) \<and> key_unique K (receipt_path K p)"

abbreviation sent_commit :: "'z crypto_scheme \<Rightarrow> core_state \<Rightarrow> packet \<Rightarrow> h256 option" where
  "sent_commit K s p \<equiv> commitments s (path_key K (sent_path K p))"

abbreviation receipt_commit :: "'z crypto_scheme \<Rightarrow> core_state \<Rightarrow> packet \<Rightarrow> h256 option" where
  "receipt_commit K s p \<equiv> commitments s (path_key K (receipt_path K p))"

lemma batch_path_simps [simp]:
  "batch_packets_path K ps = BatchPackets (commit_packets K ps)"
  "batch_receipts_path K ps = BatchReceipts (commit_packets K ps)"
  by (simp_all add: batch_packets_path_eq batch_receipts_path_def)

lemma sent_key_eq:
  assumes "packet_unique K p"
  shows "path_key K q = path_key K (sent_path K p) \<longleftrightarrow> q = sent_path K p"
  using assms by (simp add: packet_unique_def key_uniqueD)

lemma receipt_key_eq:
  assumes "packet_unique K p"
  shows "path_key K q = path_key K (receipt_path K p) \<longleftrightarrow> q = receipt_path K p"
  using assms by (simp add: packet_unique_def key_uniqueD)

lemma sent_path_eq:
  assumes "packet_unique K p"
  shows "BatchPackets (commit_packets K ps) = sent_path K p \<longleftrightarrow> ps = [p]"
    "BatchReceipts h \<noteq> sent_path K p"
  using assms by (simp_all add: packet_unique_def sent_path_def batch_uniqueD)

lemma receipt_path_eq:
  assumes "packet_unique K p"
  shows "BatchReceipts (commit_packets K ps) = receipt_path K p \<longleftrightarrow> ps = [p]"
    "BatchPackets h \<noteq> receipt_path K p"
  using assms by (simp_all add: packet_unique_def receipt_path_def batch_uniqueD)

text \<open>A call that touches only commitments under other paths leaves the packet alone.\<close>

lemma commits_only_packet:
  assumes "packet_unique K p" "commits_only K P s s'"
  shows "\<not> P (sent_path K p) \<Longrightarrow> sent_commit K s' p = sent_commit K s p"
    and "\<not> P (receipt_path K p) \<Longrightarrow> receipt_commit K s' p = receipt_commit K s p"
  using assms commits_onlyD unfolding packet_unique_def by blast+

lemma packet_paths_not [simp]:
  "\<not> client_path (sent_path K p)" "\<not> client_path (receipt_path K p)"
  "\<not> end_path (sent_path K p)" "\<not> end_path (receipt_path K p)"
  by (simp_all add: sent_path_def receipt_path_def)

lemma source_life_idle [simp]: "source_life c 0 0 c"
  by (simp add: source_life_def)

lemma dest_life_idle [simp]: "dest_life c 0 c" "receive_life c 0 c"
  by (simp_all add: dest_life_def receive_life_def)

lemma receive_life_dest: "receive_life c n c' \<Longrightarrow> dest_life c n c'"
  by (auto simp: dest_life_def receive_life_def)

section \<open>The packet handlers\<close>

text \<open>\<open>only_commits s s'\<close>: nothing but commitments changed.\<close>

definition only_commits :: "core_state \<Rightarrow> core_state \<Rightarrow> bool" where
  "only_commits s s' \<longleftrightarrow> s' = s\<lparr>commitments := commitments s'\<rparr>"

lemma only_commits_refl [simp]: "only_commits s s"
  by (simp add: only_commits_def)

lemma only_commits_store [simp]: "only_commits s (store_commit k v s)"
  by (simp add: only_commits_def store_commit_def)

lemma only_commits_trans: "only_commits s t \<Longrightarrow> only_commits t u \<Longrightarrow> only_commits s u"
  unfolding only_commits_def by (metis core_state.update_convs(14) core_state.surjective core_state.select_convs(14))

lemma mark_Inr:
  "mark_packet_as_acknowledged H p s = Inr s' \<longleftrightarrow>
     sent_commit H s p = Some COMMITMENT_MAGIC \<and>
     s' = store_commit (path_key H (sent_path H p)) COMMITMENT_MAGIC_ACK s"
  by (auto simp: mark_packet_as_acknowledged_def result_simps sent_path_def Let_def)

lemma send_packet_Inr:
  assumes "send_packet H caller src t d s = Inr (r, s')"
  shows "\<exists>p. r_data r = Some p \<and> r_messages r = [] \<and> source_channel_id p = src \<and> packet_data p = d \<and>
    timeout_timestamp p = t \<and> t \<noteq> 0 \<and> channel_owner s src = Some caller \<and>
    (\<exists>c. channels s src = Some c \<and> ch_state c = ChanOpen \<and>
       ch_counterparty_channel_id c = Some (destination_channel_id p)) \<and>
    sent_commit H s p = None \<and> s' = store_commit (path_key H (sent_path H p)) COMMITMENT_MAGIC s"
  using assms
  by (auto simp: send_packet_def result_simps Let_def read_commit_def sent_path_def timestamp_is_zero_def)

lemma acknowledge_loop_Inr:
  assumes "packet_unique H p" "acknowledge_loop H info port src rel ps s = Inr ((evs, msgs), s')"
  shows "only_commits s s' \<and> filter (delivers p) msgs = [] \<and> receipt_commit H s' p = receipt_commit H s p \<and>
    source_life (sent_commit H s p) 0 (length (filter (settles p) msgs)) (sent_commit H s' p)"
  using assms(2)
proof (induction ps arbitrary: s evs msgs)
  case Nil
  then show ?case by simp
next
  case (Cons qa ps)
  obtain q a where qa: "qa = (q, a)" by (cases qa)
  obtain s1 evs1 msgs1 where q: "mark_packet_as_acknowledged H q s = Inr s1"
    and rest: "acknowledge_loop H info port src rel ps s1 = Inr ((evs1, msgs1), s')"
    and msgs: "msgs = CallModule port (OnAcknowledgementPacket (sender info) q a rel) [] # msgs1"
    using Cons.prems unfolding qa by (auto simp: result_simps)
  note IH = Cons.IH [OF rest] and key = sent_key_eq [OF assms(1)] receipt_key_eq [OF assms(1)]
    sent_path_eq [OF assms(1)] receipt_path_eq [OF assms(1)]
  have q_path: "sent_path H q = sent_path H p \<longleftrightarrow> q = p" "sent_path H q \<noteq> receipt_path H p"
    using sent_path_eq(1) [OF assms(1), of "[q]"] by (simp_all add: sent_path_def receipt_path_def)
  have "only_commits s s'" using IH q only_commits_trans only_commits_store unfolding mark_Inr by blast
  moreover have "receipt_commit H s' p = receipt_commit H s p"
    using IH q q_path key unfolding mark_Inr by (metis fun_upd_other store_commit_simps(1))
  moreover have "source_life (sent_commit H s p) 0 (length (filter (settles p) msgs)) (sent_commit H s' p)"
  proof (cases "q = p")
    case True
    with IH q show ?thesis by (auto simp: mark_Inr source_life_def msgs)
  next
    case False
    then have "sent_commit H s1 p = sent_commit H s p"
      using q q_path key unfolding mark_Inr by (metis fun_upd_other store_commit_simps(1))
    with IH False show ?thesis by (simp add: msgs)
  qed
  ultimately show ?case using IH by (simp add: msgs)
qed

lemma receive_loop_Inr:
  assumes "packet_unique H p" "receive_loop H env info intent port dst rel maker ps s = Inr ((evs, msgs), s')"
  shows "only_commits s s' \<and> filter (settles p) msgs = [] \<and> sent_commit H s' p = sent_commit H s p \<and>
    receive_life (receipt_commit H s p) (length (filter (delivers p) msgs)) (receipt_commit H s' p) \<and>
    (filter (delivers p) msgs \<noteq> [] \<longrightarrow> p \<in> fst ` set ps \<and> block_time env < timeout_timestamp p \<and>
       destination_channel_id p = dst)"
  using assms(2)
proof (induction ps arbitrary: s evs msgs)
  case Nil
  then show ?case by simp
next
  case (Cons qa ps)
  obtain q a where qa: "qa = (q, a)" by (cases qa)
  obtain received s1 evs1 msgs1 where q: "destination_channel_id q = dst" "block_time env < timeout_timestamp q"
    and recv: "set_packet_receive (path_key H (receipt_path H q)) s = (received, s1)"
    and rest: "receive_loop H env info intent port dst rel maker ps s1 = Inr ((evs1, msgs1), s')"
    and msgs: "msgs = (if received then msgs1 else recv_callback intent info port q rel a # msgs1)"
    using Cons.prems unfolding qa by (auto simp: result_simps receipt_path_def split: prod.splits if_splits)
  note IH = Cons.IH [OF rest] and key = sent_key_eq [OF assms(1)] receipt_key_eq [OF assms(1)]
  have q_path: "receipt_path H q = receipt_path H p \<longleftrightarrow> q = p" "receipt_path H q \<noteq> sent_path H p"
    using receipt_path_eq(1) [OF assms(1), of "[q]"] by (simp_all add: sent_path_def receipt_path_def)
  have s1: "s1 = (if received then s else store_commit (path_key H (receipt_path H q)) COMMITMENT_MAGIC s)"
    "received \<longleftrightarrow> receipt_commit H s q \<noteq> None"
    using recv by (auto simp: set_packet_receive_def read_commit_def split: if_splits)
  have cb: "\<not> settles p (recv_callback intent info port q rel a)"
    "delivers p (recv_callback intent info port q rel a) \<longleftrightarrow> q = p"
    by (auto simp: recv_callback_def)
  have "only_commits s s1" using s1(1) by simp
  with IH have "only_commits s s'" using only_commits_trans by blast
  moreover have "sent_commit H s' p = sent_commit H s p"
    using IH s1(1) q_path key by (metis fun_upd_other store_commit_simps(1))
  moreover have "receive_life (receipt_commit H s p) (length (filter (delivers p) msgs)) (receipt_commit H s' p)"
  proof (cases "q = p")
    case True
    with IH s1 cb show ?thesis by (cases received) (auto simp: receive_life_def msgs)
  next
    case False
    then have "receipt_commit H s1 p = receipt_commit H s p"
      using s1(1) q_path key by (metis fun_upd_other store_commit_simps(1))
    with IH False cb show ?thesis by (simp add: msgs)
  qed
  ultimately show ?case using IH q cb by (auto simp: msgs qa)
qed

definition packet_effect :: "'z crypto_scheme \<Rightarrow> packet \<Rightarrow> core_state \<Rightarrow> response \<Rightarrow> core_state \<Rightarrow> bool" where
  "packet_effect K p s r s' \<longleftrightarrow>
     source_life (sent_commit K s p) (sends p r) (settled_by p r) (sent_commit K s' p) \<and>
     receive_life (receipt_commit K s p) (delivered_by p r) (receipt_commit K s' p)"

lemma packet_effect_idle:
  assumes "packet_unique K p" "commits_only K P s s'" "\<not> P (sent_path K p)" "\<not> P (receipt_path K p)"
    "sends p r = 0" "settled_by p r = 0" "delivered_by p r = 0"
  shows "packet_effect K p s r s'"
  using assms commits_only_packet [OF assms(1,2)] by (simp add: packet_effect_def)

lemma store_commit_commits_only [simp]: "commits_only K (\<lambda>q. q = p) s (store_commit (path_key K p) v s)"
  by (auto simp: commits_only_def)

lemma packet_effect_acknowledge:
  assumes "packet_unique H p" "acknowledge_packet H info ps acks pr h rel s = Inr (r, s')"
  shows "only_commits s s' \<and> packet_effect H p s r s'"
proof -
  obtain port src evs msgs where "acknowledge_loop H info port src rel (zip ps acks) s = Inr ((evs, msgs), s')"
    and "r = respond evs msgs"
    using assms(2) by (auto simp: acknowledge_packet_def result_simps split: list.splits)
  with acknowledge_loop_Inr [OF assms(1)] show ?thesis
    by (simp add: packet_effect_def sends_def settled_by_def delivered_by_def)
qed

lemma process_receive_Inr:
  assumes "process_receive H env info ps ms rel pr h intent s = Inr (r, s')"
  shows "\<exists>p0 rest c conn port maker evs msgs. ps = p0 # rest \<and> channels s (destination_channel_id p0) = Some c \<and>
    ch_state c = ChanOpen \<and> connections s (ch_connection_id c) = Some conn \<and> co_state conn = ConnOpen \<and>
    channel_owner s (destination_channel_id p0) = Some port \<and>
    (\<not> intent \<longrightarrow> (\<exists>impl. client_impls s (co_client_id conn) = Some impl \<and>
       q_unit H impl s (VerifyMembership (co_client_id conn) h pr
         (h256_bytes (path_key H (BatchPackets (commit_packets H ps)))) (h256_bytes COMMITMENT_MAGIC)) = Inr ())) \<and>
    receive_loop H env info intent port (destination_channel_id p0) rel maker (zip ps ms) s = Inr ((evs, msgs), s') \<and>
    r = respond evs msgs"
proof (cases ps)
  case Nil
  with assms show ?thesis by (auto simp: process_receive_def result_simps)
next
  case (Cons p0 rest)
  show ?thesis
    using assms unfolding Cons process_receive_def bindE_eq_Inr list.case result_simps
    by (cases intent) (auto simp: result_simps client_impl_def verify_membership_def query_light_client_def, blast+)
qed

lemma packet_effect_receive:
  assumes "packet_unique H p" "process_receive H env info ps ms rel pr h intent s = Inr (r, s')"
  shows "only_commits s s' \<and> packet_effect H p s r s'"
proof -
  obtain port dst maker evs msgs where
    "receive_loop H env info intent port dst rel maker (zip ps ms) s = Inr ((evs, msgs), s')"
    and "r = respond evs msgs"
    using process_receive_Inr [OF assms(2)] by blast
  with receive_loop_Inr [OF assms(1)] show ?thesis
    by (simp add: packet_effect_def sends_def settled_by_def delivered_by_def)
qed

lemma timeout_packet_Inr:
  assumes "timeout_packet H info q pr h rel s = Inr (r, s')"
  shows "\<exists>c conn impl ts port. channels s (source_channel_id q) = Some c \<and> ch_state c = ChanOpen \<and>
    connections s (ch_connection_id c) = Some conn \<and> co_state conn = ConnOpen \<and>
    client_impls s (co_client_id conn) = Some impl \<and>
    q_timestamp H impl s (GetTimestamp (co_client_id conn) h) = Inr ts \<and> ts \<noteq> 0 \<and>
    timeout_timestamp q \<noteq> 0 \<and> timeout_timestamp q \<le> ts \<and>
    q_unit H impl s (VerifyNonMembership (co_client_id conn) h pr (h256_bytes (path_key H (receipt_path H q)))) = Inr () \<and>
    sent_commit H s q = Some COMMITMENT_MAGIC \<and>
    s' = store_commit (path_key H (sent_path H q)) COMMITMENT_MAGIC_ACK s \<and>
    r = respond [TimeoutPacketEv (source_channel_id q) (commit_packets H [q]) rel]
          [CallModule port (OnTimeoutPacket (sender info) q rel) []]"
  using assms
  by (auto simp: timeout_packet_def result_simps get_timestamp_at_height_def client_impl_def query_light_client_def
      mark_Inr receipt_path_def timestamp_is_zero_def)

lemma sent_path_other:
  assumes "packet_unique K p" "q \<noteq> p"
  shows "sent_path K q \<noteq> sent_path K p" "receipt_path K q \<noteq> receipt_path K p"
  using assms sent_path_eq(1) [OF assms(1), of "[q]"] receipt_path_eq(1) [OF assms(1), of "[q]"]
  by (simp_all add: sent_path_def receipt_path_def)

lemma sent_path_not_receipt [simp]: "sent_path K q \<noteq> receipt_path K p" "receipt_path K q \<noteq> sent_path K p"
  by (simp_all add: sent_path_def receipt_path_def)

lemma receipt_commit_after_sent:
  assumes "packet_unique K p"
  shows "receipt_commit K (store_commit (path_key K (sent_path K q)) v s) p = receipt_commit K s p"
  using receipt_key_eq [OF assms] by (metis fun_upd_other sent_path_not_receipt(1) store_commit_simps(1))

lemma packet_effect_timeout:
  assumes u: "packet_unique H p" and t: "timeout_packet H info q pr h rel s = Inr (r, s')"
  shows "only_commits s s' \<and> packet_effect H p s r s'"
proof -
  obtain port where q: "sent_commit H s q = Some COMMITMENT_MAGIC"
    "s' = store_commit (path_key H (sent_path H q)) COMMITMENT_MAGIC_ACK s"
    and r: "r = respond [TimeoutPacketEv (source_channel_id q) (commit_packets H [q]) rel]
          [CallModule port (OnTimeoutPacket (sender info) q rel) []]"
    using timeout_packet_Inr [OF t] by blast
  have "packet_effect H p s r s'"
  proof (cases "q = p")
    case True
    with q receipt_commit_after_sent [OF u] show ?thesis
      by (simp add: packet_effect_def source_life_def r sends_def settled_by_def delivered_by_def)
  next
    case False
    with q show ?thesis
      by (intro packet_effect_idle [OF u, of "\<lambda>x. x = sent_path H q"])
        (simp_all add: r sends_def settled_by_def delivered_by_def sent_path_other [OF u, symmetric]
          sent_path_not_receipt [symmetric])
  qed
  with q show ?thesis by simp
qed

lemma packet_effect_send:
  assumes u: "packet_unique H p" and t: "send_packet H caller src t d s = Inr (r, s')"
  shows "only_commits s s' \<and> packet_effect H p s r s'"
proof -
  obtain q where q: "r_data r = Some q" "r_messages r = []" "sent_commit H s q = None"
    "s' = store_commit (path_key H (sent_path H q)) COMMITMENT_MAGIC s"
    using send_packet_Inr [OF t] by blast
  have "packet_effect H p s r s'"
  proof (cases "q = p")
    case True
    with q receipt_commit_after_sent [OF u] show ?thesis
      by (simp add: packet_effect_def source_life_def sends_def settled_by_def delivered_by_def)
  next
    case False
    with q show ?thesis
      by (intro packet_effect_idle [OF u, of "\<lambda>x. x = sent_path H q"])
        (simp_all add: sends_def settled_by_def delivered_by_def sent_path_other [OF u, symmetric]
          sent_path_not_receipt [symmetric])
  qed
  with q show ?thesis by simp
qed

lemma batch_send_Inr:
  assumes "batch_send H ps s = Inr (r, s')"
  shows "2 \<le> length ps \<and> r_messages r = [] \<and> r_data r = None \<and>
    s' = store_commit (path_key H (BatchPackets (commit_packets H ps))) COMMITMENT_MAGIC s"
  using assms by (auto simp: batch_send_def result_simps split: list.splits)

lemma batch_acks_Inr:
  assumes "batch_acks H ps acks s = Inr (r, s')"
  shows "2 \<le> length ps \<and> r_messages r = [] \<and> r_data r = None \<and>
    s' = store_commit (path_key H (BatchReceipts (commit_packets H ps))) (commit_acks H acks) s"
  using assms by (auto simp: batch_acks_def result_simps split: list.splits)

lemma long_batch_path:
  assumes "packet_unique K p" "2 \<le> length ps"
  shows "sent_path K p \<noteq> BatchPackets (commit_packets K ps)" "receipt_path K p \<noteq> BatchReceipts (commit_packets K ps)"
proof -
  have "ps \<noteq> [p]" using assms(2) by auto
  then show "sent_path K p \<noteq> BatchPackets (commit_packets K ps)"
    "receipt_path K p \<noteq> BatchReceipts (commit_packets K ps)"
    using sent_path_eq(1) [OF assms(1), of ps] receipt_path_eq(1) [OF assms(1), of ps] by metis+
qed

lemma packet_effect_batch_send:
  assumes u: "packet_unique H p" and b: "batch_send H ps s = Inr (r, s')"
  shows "only_commits s s' \<and> packet_effect H p s r s'"
proof -
  note b' = batch_send_Inr [OF b]
  have "packet_effect H p s r s'"
  proof (rule packet_effect_idle [OF u, of "\<lambda>x. x = BatchPackets (commit_packets H ps)"])
    show "\<not> sent_path H p = BatchPackets (commit_packets H ps)"
      using b' by (intro long_batch_path [OF u]) simp
  qed (use b' in \<open>simp_all add: sends_def settled_by_def delivered_by_def receipt_path_def\<close>)
  with b' show ?thesis by simp
qed

lemma packet_effect_batch_acks:
  assumes u: "packet_unique H p" and b: "batch_acks H ps acks s = Inr (r, s')"
  shows "only_commits s s' \<and> packet_effect H p s r s'"
proof -
  note b' = batch_acks_Inr [OF b]
  have "packet_effect H p s r s'"
  proof (rule packet_effect_idle [OF u, of "\<lambda>x. x = BatchReceipts (commit_packets H ps)"])
    show "\<not> receipt_path H p = BatchReceipts (commit_packets H ps)"
      using b' by (intro long_batch_path [OF u]) simp
  qed (use b' in \<open>simp_all add: sends_def settled_by_def delivered_by_def sent_path_def\<close>)
  with b' show ?thesis by simp
qed

lemma write_acknowledgement_Inr:
  assumes "write_acknowledgement H caller q ack s = Inr (r, s')"
  shows "ack \<noteq> [] \<and> channel_owner s (destination_channel_id q) = Some caller \<and>
    receipt_commit H s q = Some COMMITMENT_MAGIC \<and>
    s' = store_commit (path_key H (receipt_path H q)) (commit_ack H ack) s \<and>
    r = respond [WriteAckEv (destination_channel_id q) (packet_hash H q) ack] []"
  using assms
  by (auto simp: write_acknowledgement_def result_simps Let_def read_commit_def receipt_path_def split: option.splits)

lemma packet_effect_write_ack:
  assumes u: "packet_unique H p" and w: "write_acknowledgement H caller q ack s = Inr (r, s')" and "q \<noteq> p"
  shows "packet_effect H p s r s'"
  using write_acknowledgement_Inr [OF w] \<open>q \<noteq> p\<close>
  by (intro packet_effect_idle [OF u, of "\<lambda>x. x = receipt_path H q"])
    (simp_all add: sends_def settled_by_def delivered_by_def sent_path_other [OF u, symmetric]
      sent_path_not_receipt [symmetric])

lemma write_ack_effect:
  assumes u: "packet_unique H p" and w: "write_acknowledgement H caller p ack s = Inr (r, s')"
  shows "source_life (sent_commit H s p) (sends p r) (settled_by p r) (sent_commit H s' p) \<and> delivered_by p r = 0 \<and>
    receipt_commit H s p = Some COMMITMENT_MAGIC \<and> receipt_commit H s' p = Some (commit_ack H ack)"
proof -
  note w' = write_acknowledgement_Inr [OF w]
  have "sent_commit H s' p = sent_commit H s p"
    using w' sent_key_eq [OF u] by (metis fun_upd_other sent_path_not_receipt(2) store_commit_simps(1))
  with w' show ?thesis by (simp add: sends_def settled_by_def delivered_by_def)
qed

section \<open>Every call\<close>

lemma save_connection_simps [simp]:
  "commitments (save_connection H co c s) = (commitments s)(path_key H (Connection co) \<mapsto> commit_connection H c)"
  "connections (save_connection H co c s) = (connections s)(co \<mapsto> c)"
  "channels (save_connection H co c s) = channels s"
  "channel_owner (save_connection H co c s) = channel_owner s"
  "contract_channels (save_connection H co c s) = contract_channels s"
  "next_channel_id (save_connection H co c s) = next_channel_id s"
  "next_connection_id (save_connection H co c s) = next_connection_id s"
  "state_version (save_connection H co c s) = state_version s"
  by (simp_all add: save_connection_def)

lemma save_channel_simps [simp]:
  "commitments (save_channel H ch c s) = (commitments s)(path_key H (Channel ch) \<mapsto> commit_channel H c)"
  "channels (save_channel H ch c s) = (channels s)(ch \<mapsto> c)"
  "connections (save_channel H ch c s) = connections s"
  "channel_owner (save_channel H ch c s) = channel_owner s"
  "contract_channels (save_channel H ch c s) = contract_channels s"
  "next_channel_id (save_channel H ch c s) = next_channel_id s"
  "next_connection_id (save_channel H ch c s) = next_connection_id s"
  "state_version (save_channel H ch c s) = state_version s"
  by (simp_all add: save_channel_def)

lemma commits_end1:
  "end_path p \<Longrightarrow> commitments s' = (commitments s)(path_key H p \<mapsto> v) \<Longrightarrow> commits_only H end_path s s'"
  by (auto simp: commits_only_def)

lemma conn_step_commits: "conn_step H s s' \<Longrightarrow> commits_only H end_path s s'"
  unfolding conn_step_def by (elim disjE exE conjE; rule commits_end1 [of "Connection _"]) simp_all

lemma chan_step_commits: "chan_step H s s' \<Longrightarrow> commits_only H end_path s s'"
  unfolding chan_step_def by (elim disjE exE conjE; rule commits_end1 [of "Channel _"]) (simp_all add: add_channel_def)

lemma client_frame_effect: "packet_unique H p \<Longrightarrow> client_frame H s r s' \<Longrightarrow> packet_effect H p s r s'"
  unfolding client_frame_def
  by (rule packet_effect_idle [of _ _ client_path]) (simp_all add: sends_def settled_by_def delivered_by_def)

lemma conn_step_effect:
  "packet_unique H p \<Longrightarrow> conn_step H s s' \<and> r_messages r = [] \<and> r_data r = None \<Longrightarrow> packet_effect H p s r s'"
  using conn_step_commits [of H s s']
  by (intro packet_effect_idle [of _ _ end_path]) (simp_all add: sends_def settled_by_def delivered_by_def)

lemma chan_step_effect:
  assumes "packet_unique H p" "chan_step H s s' \<and> no_packet_msgs r"
  shows "packet_effect H p s r s'"
proof (rule packet_effect_idle [OF assms(1), of end_path])
  show "commits_only H end_path s s'" using assms(2) chan_step_commits by blast
  show "settled_by p r = 0" "delivered_by p r = 0" "sends p r = 0"
    using assms(2) by (simp_all add: settled_by_def delivered_by_def sends_def no_packet_msgs_def filter_empty_conv)
qed simp_all

lemma upgrade_effect: "packet_effect H p s (upgradable_execute env u) s"
  by (cases u) (simp add: packet_effect_def sends_def settled_by_def delivered_by_def)

lemmas packet_handler_effects = packet_effect_send packet_effect_receive packet_effect_acknowledge
  packet_effect_timeout packet_effect_batch_send packet_effect_batch_acks

lemmas packet_effects = packet_handler_effects [THEN conjunct2]
  client_frames [THEN client_frame_effect [rotated], rotated] conn_steps [THEN conn_step_effect [rotated], rotated]
  chan_steps [THEN chan_step_effect [rotated], rotated]

text \<open>Either the call is of the kinds above, or it is the module writing the acknowledgement of \<open>p\<close>.\<close>

lemma execute_packet_effect:
  assumes u: "packet_unique H p" and e: "execute H env info msg s = Inr (r, s')"
  shows "packet_effect H p s r s' \<or>
    (\<exists>a. msg = WriteAcknowledgement p a \<and> write_acknowledgement H (sender info) p a s = Inr (r, s'))"
  using e
proof (cases rule: execute_cases)
  case (scheduled subs)
  then show ?thesis using client_frame_effect [OF u client_frame_scheduled] by simp
next
  case (upgrade v)
  then show ?thesis using upgrade_effect [of H p s env v] by simp
next
  case (write_ack q a)
  then show ?thesis using packet_effect_write_ack [OF u write_ack(2)] by (cases "q = p") auto
qed (rule disjI1, erule packet_effects [OF u])+

lemma execute_source_life:
  assumes "packet_unique H p" "execute H env info msg s = Inr (r, s')"
  shows "source_life (sent_commit H s p) (sends p r) (settled_by p r) (sent_commit H s' p)"
  using execute_packet_effect [OF assms] write_ack_effect [OF assms(1)] unfolding packet_effect_def by blast

lemma execute_dest_life:
  assumes "packet_unique H p" "execute H env info msg s = Inr (r, s')"
  shows "dest_life (receipt_commit H s p) (delivered_by p r) (receipt_commit H s' p)"
  using execute_packet_effect [OF assms]
proof
  assume "\<exists>a. msg = WriteAcknowledgement p a \<and> write_acknowledgement H (sender info) p a s = Inr (r, s')"
  then show ?thesis using write_ack_effect [OF assms(1)] by (auto simp: dest_life_def)
qed (simp add: packet_effect_def receive_life_dest)

section \<open>Where a delivery and a settlement come from\<close>

lemma no_messages_delivered: "r_messages r = [] \<Longrightarrow> delivered_by p r = 0 \<and> settled_by p r = 0"
  by (simp add: delivered_by_def settled_by_def)

lemma client_frame_silent: "client_frame H s r s' \<Longrightarrow> delivered_by p r = 0 \<and> settled_by p r = 0"
  by (simp add: client_frame_def no_messages_delivered)

lemma conn_step_silent:
  "conn_step H s s' \<and> r_messages r = [] \<and> r_data r = None \<Longrightarrow> delivered_by p r = 0 \<and> settled_by p r = 0"
  by (simp add: no_messages_delivered)

lemma chan_step_silent: "chan_step H s s' \<and> no_packet_msgs r \<Longrightarrow> delivered_by p r = 0 \<and> settled_by p r = 0"
  by (simp add: delivered_by_def settled_by_def no_packet_msgs_def filter_empty_conv)

lemma send_silent: "send_packet H caller src t d s = Inr (r, s') \<Longrightarrow> delivered_by p r = 0 \<and> settled_by p r = 0"
  using send_packet_Inr no_messages_delivered by blast

lemma write_ack_silent: "write_acknowledgement H caller q ack s = Inr (r, s') \<Longrightarrow> delivered_by p r = 0 \<and> settled_by p r = 0"
  using write_acknowledgement_Inr no_messages_delivered respond_simps(1) by metis

lemma batch_send_silent: "batch_send H ps s = Inr (r, s') \<Longrightarrow> delivered_by p r = 0 \<and> settled_by p r = 0"
  using batch_send_Inr no_messages_delivered by blast

lemma batch_acks_silent: "batch_acks H ps acks s = Inr (r, s') \<Longrightarrow> delivered_by p r = 0 \<and> settled_by p r = 0"
  using batch_acks_Inr no_messages_delivered by blast

lemma upgrade_silent: "delivered_by p (upgradable_execute env u) = 0 \<and> settled_by p (upgradable_execute env u) = 0"
  by (cases u) (simp add: settled_by_def delivered_by_def)

lemmas silent_handlers = send_silent write_ack_silent batch_send_silent batch_acks_silent
  client_frames [THEN client_frame_silent] conn_steps [THEN conn_step_silent] chan_steps [THEN chan_step_silent]

lemma acknowledge_loop_msgs:
  "acknowledge_loop H info port src rel ps s = Inr ((evs, msgs), s') \<Longrightarrow>
     msgs = map (\<lambda>(q, a). CallModule port (OnAcknowledgementPacket (sender info) q a rel) []) ps"
  by (induction ps arbitrary: s evs msgs) (auto simp: result_simps)

lemma acknowledge_packet_Inr:
  assumes "acknowledge_packet H info ps acks pr h rel s = Inr (r, s')"
  shows "\<exists>p0 rest c conn impl port. ps = p0 # rest \<and> channels s (source_channel_id p0) = Some c \<and>
    ch_state c = ChanOpen \<and> connections s (ch_connection_id c) = Some conn \<and> co_state conn = ConnOpen \<and>
    channel_owner s (source_channel_id p0) = Some port \<and> client_impls s (co_client_id conn) = Some impl \<and>
    q_unit H impl s (VerifyMembership (co_client_id conn) h pr
      (h256_bytes (path_key H (BatchReceipts (commit_packets H ps)))) (h256_bytes (commit_acks H acks))) = Inr () \<and>
    r_messages r = map (\<lambda>(q, a). CallModule port (OnAcknowledgementPacket (sender info) q a rel) []) (zip ps acks)"
proof (cases ps)
  case Nil
  with assms show ?thesis by (auto simp: acknowledge_packet_def)
next
  case (Cons p0 rest)
  then obtain c conn impl port evs msgs where "ensure_channel_state s (source_channel_id p0) = Inr c"
    "ensure_connection_state s (ch_connection_id c) = Inr conn" "client_impl s (co_client_id conn) = Inr impl"
    "verify_membership H s impl (co_client_id conn) h pr (h256_bytes (path_key H (batch_receipts_path H ps)))
       (h256_bytes (commit_acks H acks)) = Inr ()"
    "sread (channel_owner s) (source_channel_id p0) = Inr port"
    "acknowledge_loop H info port (source_channel_id p0) rel (zip ps acks) s = Inr ((evs, msgs), s')"
    "r = respond evs msgs"
    using assms unfolding acknowledge_packet_def by (auto simp: bindE_eq_Inr)
  then show ?thesis using Cons acknowledge_loop_msgs
    by (auto simp: result_simps client_impl_def verify_membership_def query_light_client_def)
qed

lemma acknowledge_no_delivery: "acknowledge_packet H info ps acks pr h rel s = Inr (r, s') \<Longrightarrow> delivered_by p r = 0"
  using acknowledge_packet_Inr [of H info ps acks pr h rel s r s'] by (auto simp: delivered_by_def filter_empty_conv)

lemma timeout_no_delivery: "timeout_packet H info q pr h rel s = Inr (r, s') \<Longrightarrow> delivered_by p r = 0"
  using timeout_packet_Inr [of H info q pr h rel s r s'] by (auto simp: delivered_by_def)

lemma receive_no_settlement:
  assumes "packet_unique H p" "process_receive H env info ps ms rel pr h intent s = Inr (r, s')"
  shows "settled_by p r = 0"
  using process_receive_Inr [OF assms(2)] receive_loop_Inr [OF assms(1)] by (auto simp: settled_by_def)

lemma execute_delivers:
  assumes e: "execute H env info msg s = Inr (r, s')" and d: "delivered_by p r \<noteq> 0"
  shows "\<exists>ps ms rel pr h intent. process_receive H env info ps ms rel pr h intent s = Inr (r, s')"
  using e
proof (cases rule: execute_cases)
  case (scheduled subs)
  with d show ?thesis using client_frame_silent [OF client_frame_scheduled] by simp
next
  case (upgrade v)
  with d show ?thesis using upgrade_silent by simp
next
  case (recv ps msgs rel pr h intent)
  then show ?thesis by blast
qed (drule silent_handlers [where p = p] acknowledge_no_delivery [where p = p]
    timeout_no_delivery [where p = p], use d in simp)+

lemma execute_settles:
  assumes u: "packet_unique H p" and e: "execute H env info msg s = Inr (r, s')" and d: "settled_by p r \<noteq> 0"
  shows "(\<exists>ps acks pr h rel. acknowledge_packet H info ps acks pr h rel s = Inr (r, s')) \<or>
    (\<exists>q pr h rel. timeout_packet H info q pr h rel s = Inr (r, s'))"
  using e
proof (cases rule: execute_cases)
  case (scheduled subs)
  with d show ?thesis using client_frame_silent [OF client_frame_scheduled] by simp
next
  case (upgrade v)
  with d show ?thesis using upgrade_silent by simp
next
  case (ack ps acks pr h rel)
  then show ?thesis by blast
next
  case (timeout q pr h rel)
  then show ?thesis by blast
qed (drule silent_handlers [where p = p] receive_no_settlement [OF u], use d in simp)+

lemma process_receive_in_time:
  assumes "packet_unique H p" "process_receive H env info ps ms rel pr h intent s = Inr (r, s')"
    and "delivered_by p r \<noteq> 0"
  shows "p \<in> set ps \<and> block_time env < timeout_timestamp p"
proof -
  obtain port dst maker evs msgs where
    "receive_loop H env info intent port dst rel maker (zip ps ms) s = Inr ((evs, msgs), s')"
    and "r = respond evs msgs"
    using process_receive_Inr [OF assms(2)] by blast
  with receive_loop_Inr [OF assms(1)] assms(3) show ?thesis
    by (fastforce simp: delivered_by_def dest: set_zip_leftD)
qed

lemma delivered_in_time:
  assumes "packet_unique H p" "execute H env info msg s = Inr (r, s')" "delivered_by p r \<noteq> 0"
  shows "block_time env < timeout_timestamp p"
  using execute_delivers [OF assms(2,3)] process_receive_in_time [OF assms(1)] assms(3) by blast

section \<open>Footprints of the packet handlers\<close>

definition single_path :: "'z crypto_scheme \<Rightarrow> store_path \<Rightarrow> bool" where
  "single_path K x \<longleftrightarrow> (\<exists>q. x = sent_path K q \<or> x = receipt_path K q)"

lemma commits_only_trans: "commits_only K P s t \<Longrightarrow> commits_only K P t u \<Longrightarrow> commits_only K P s u"
  unfolding commits_only_def by metis

lemma commits_only_mono: "commits_only K P s s' \<Longrightarrow> (\<And>x. P x \<Longrightarrow> Q x) \<Longrightarrow> commits_only K Q s s'"
  unfolding commits_only_def by blast

lemma single_path_store:
  "commits_only K (single_path K) s (store_commit (path_key K (sent_path K q)) v s)"
  "commits_only K (single_path K) s (store_commit (path_key K (receipt_path K q)) v s)"
  by (rule commits_only_mono [OF store_commit_commits_only], auto simp: single_path_def)+

lemma acknowledge_loop_commits:
  "acknowledge_loop H info port src rel ps s = Inr ((evs, msgs), s') \<Longrightarrow> commits_only H (single_path H) s s'"
proof (induction ps arbitrary: s evs msgs)
  case Nil
  then show ?case by (simp add: commits_only_refl)
next
  case (Cons qa ps)
  obtain s1 evs1 msgs1 where "mark_packet_as_acknowledged H (fst qa) s = Inr s1"
    and "acknowledge_loop H info port src rel ps s1 = Inr ((evs1, msgs1), s')"
    using Cons.prems by (cases qa) (auto simp: result_simps)
  then show ?case using Cons.IH commits_only_trans single_path_store(1) unfolding mark_Inr by blast
qed

lemma receive_loop_commits:
  "receive_loop H env info intent port dst rel maker ps s = Inr ((evs, msgs), s') \<Longrightarrow> commits_only H (single_path H) s s'"
proof (induction ps arbitrary: s evs msgs)
  case Nil
  then show ?case by (simp add: commits_only_refl)
next
  case (Cons qa ps)
  obtain received s1 evs1 msgs1 where
    recv: "set_packet_receive (path_key H (receipt_path H (fst qa))) s = (received, s1)"
    and rest: "receive_loop H env info intent port dst rel maker ps s1 = Inr ((evs1, msgs1), s')"
    using Cons.prems by (cases qa) (auto simp: result_simps receipt_path_def split: prod.splits if_splits)
  have "commits_only H (single_path H) s s1"
    using recv single_path_store(2) [of H s "fst qa" COMMITMENT_MAGIC]
    by (auto simp: set_packet_receive_def commits_only_refl split: if_splits)
  then show ?case using Cons.IH [OF rest] commits_only_trans by blast
qed

text \<open>Whether the call wrote under the key of a longer batch.\<close>

definition narrow_step :: "'z crypto_scheme \<Rightarrow> core_state \<Rightarrow> core_state \<Rightarrow> bool" where
  "narrow_step K s s' \<longleftrightarrow> commits_only K (\<lambda>x. client_path x \<or> end_path x \<or> single_path K x) s s'"

lemma narrow_stepI:
  "commits_only K client_path s s' \<Longrightarrow> narrow_step K s s'"
  "commits_only K end_path s s' \<Longrightarrow> narrow_step K s s'"
  "commits_only K (single_path K) s s' \<Longrightarrow> narrow_step K s s'"
  unfolding narrow_step_def by (erule commits_only_mono, simp)+

lemma narrow_client: "client_frame H s r s' \<Longrightarrow> narrow_step H s s'"
  by (simp add: client_frame_def narrow_stepI(1))

lemma narrow_conn: "conn_step H s s' \<and> r_messages r = [] \<and> r_data r = None \<Longrightarrow> narrow_step H s s'"
  by (simp add: narrow_stepI(2) conn_step_commits)

lemma narrow_chan: "chan_step H s s' \<and> no_packet_msgs r \<Longrightarrow> narrow_step H s s'"
  by (simp add: narrow_stepI(2) chan_step_commits)

lemma narrow_send: "send_packet H caller src t d s = Inr (r, s') \<Longrightarrow> narrow_step H s s'"
  using send_packet_Inr narrow_stepI(3) single_path_store(1) by metis

lemma narrow_write_ack: "write_acknowledgement H caller q a s = Inr (r, s') \<Longrightarrow> narrow_step H s s'"
  using write_acknowledgement_Inr narrow_stepI(3) single_path_store(2) by metis

lemma narrow_timeout: "timeout_packet H info q pr h rel s = Inr (r, s') \<Longrightarrow> narrow_step H s s'"
  using timeout_packet_Inr narrow_stepI(3) single_path_store(1) by metis

lemma narrow_receive: "process_receive H env info ps ms rel pr h intent s = Inr (r, s') \<Longrightarrow> narrow_step H s s'"
  using process_receive_Inr [of H env info ps ms rel pr h intent s r s'] receive_loop_commits narrow_stepI(3) by blast

lemma narrow_acknowledge:
  assumes "acknowledge_packet H info ps acks pr h rel s = Inr (r, s')"
  shows "narrow_step H s s'"
proof -
  obtain port src evs msgs where "acknowledge_loop H info port src rel (zip ps acks) s = Inr ((evs, msgs), s')"
    using assms by (auto simp: acknowledge_packet_def result_simps split: list.splits)
  then show ?thesis using acknowledge_loop_commits narrow_stepI(3) by blast
qed

lemmas narrow_steps = narrow_send narrow_write_ack narrow_timeout narrow_receive narrow_acknowledge
  client_frames [THEN narrow_client] conn_steps [THEN narrow_conn] chan_steps [THEN narrow_chan]

lemma execute_footprint:
  assumes "execute H env info msg s = Inr (r, s')"
  shows "narrow_step H s s' \<or> (\<exists>ps. batch_send H ps s = Inr (r, s')) \<or> (\<exists>ps acks. batch_acks H ps acks s = Inr (r, s'))"
  using assms
proof (cases rule: execute_cases)
  case (scheduled subs)
  then show ?thesis by (simp add: narrow_stepI(1) commits_only_refl)
next
  case (upgrade v)
  then show ?thesis by (simp add: narrow_stepI(1) commits_only_refl)
qed ((rule disjI1, erule narrow_steps) | blast)+

lemma batch_send_loop_Inr:
  "batch_send_loop H ch b ps s = Inr evs \<Longrightarrow> q \<in> set ps \<Longrightarrow>
     sent_commit H s q = Some COMMITMENT_MAGIC \<and> source_channel_id q = ch"
  by (induction ps arbitrary: evs) (auto simp: result_simps sent_path_def)

lemma batch_send_sent:
  assumes "batch_send H ps s = Inr (r, s')" "q \<in> set ps"
  shows "sent_commit H s q = Some COMMITMENT_MAGIC"
proof -
  obtain ch b evs where "batch_send_loop H ch b ps s = Inr evs"
    using assms(1) by (auto simp: batch_send_def result_simps split: list.splits)
  with assms(2) show ?thesis using batch_send_loop_Inr by blast
qed

text \<open>A batch of at least two packets, none of whose hashes collides.\<close>

definition batch_ok :: "'z crypto_scheme \<Rightarrow> packet list \<Rightarrow> bool" where
  "batch_ok K ps \<longleftrightarrow> batch_unique K ps \<and> key_unique K (BatchPackets (commit_packets K ps)) \<and>
     (\<forall>q \<in> set ps. packet_unique K q)"

lemma batch_key_step:
  assumes "batch_ok H ps" "2 \<le> length ps" "execute H env info msg s = Inr (r, s')"
  shows "commitments s' (path_key H (BatchPackets (commit_packets H ps))) =
      commitments s (path_key H (BatchPackets (commit_packets H ps))) \<or> batch_send H ps s = Inr (r, s')"
proof -
  have key: "\<And>x. path_key H x = path_key H (BatchPackets (commit_packets H ps)) \<longleftrightarrow> x = BatchPackets (commit_packets H ps)"
    using assms(1) by (simp add: batch_ok_def key_uniqueD)
  have "\<not> single_path H (BatchPackets (commit_packets H ps))"
  proof
    assume "single_path H (BatchPackets (commit_packets H ps))"
    then obtain q where "commit_packets H [q] = commit_packets H ps"
      by (auto simp: single_path_def sent_path_def receipt_path_def)
    then have "[q] = ps" using assms(1) by (simp add: batch_ok_def batch_uniqueD)
    with assms(2) show False by auto
  qed
  with execute_footprint [OF assms(3)] show ?thesis
  proof (elim disjE exE)
    assume "narrow_step H s s'" "\<not> single_path H (BatchPackets (commit_packets H ps))"
    then show ?thesis using assms(1) commits_onlyD unfolding narrow_step_def batch_ok_def by fastforce
  next
    fix qs assume b: "batch_send H qs s = Inr (r, s')"
    show ?thesis
    proof (cases "qs = ps")
      case False
      then have "BatchPackets (commit_packets H qs) \<noteq> BatchPackets (commit_packets H ps)"
        using assms(1) by (simp add: batch_ok_def batch_uniqueD)
      then show ?thesis using batch_send_Inr [OF b] key by (metis fun_upd_other store_commit_simps(1))
    qed (use b in simp)
  next
    fix qs acks assume b: "batch_acks H qs acks s = Inr (r, s')"
    have "path_key H (BatchPackets (commit_packets H ps)) \<noteq> path_key H (BatchReceipts (commit_packets H qs))"
      using key [of "BatchReceipts (commit_packets H qs)"] by auto
    with batch_acks_Inr [OF b] show ?thesis by simp
  qed
qed

end
