(* ===== verification/Core_Run.thy ===== *)
theory Core_Run
  imports Core_Life
begin

text \<open>
  Runs of the IBC core contract: the calls that succeeded, in order (a failed call changes nothing
  and leaves no trace). Each call comes with its own \<open>host\<close>, because the other contracts and the
  light clients change between calls; only the hash and the encoders, \<open>K\<close>, stay the same. The
  theorems about packets hold of every run, whatever the callers and the light clients do.
\<close>

section \<open>Runs\<close>

type_synonym trace = "(block_env \<times> message_info \<times> execute_msg \<times> response) list"

inductive core_run :: "crypto \<Rightarrow> core_state \<Rightarrow> trace \<Rightarrow> core_state \<Rightarrow> bool" for K s0 where
  run_refl: "core_run K s0 [] s0"
| run_execute: "core_run K s0 tr s \<Longrightarrow> crypto.truncate H = K \<Longrightarrow> execute H env info msg s = Inr (r, s') \<Longrightarrow>
     core_run K s0 (tr @ [(env, info, msg, r)]) s'"
| run_reply: "core_run K s0 tr s \<Longrightarrow> reply i ok s = Inr (r, s') \<Longrightarrow> core_run K s0 tr s'"
| run_migrate: "core_run K s0 tr s \<Longrightarrow> migrate m s = Inr (r, s') \<Longrightarrow> core_run K s0 tr s'"

text \<open>A deployed contract: initialised once, then run.\<close>

definition core_reachable :: "crypto \<Rightarrow> trace \<Rightarrow> core_state \<Rightarrow> bool" where
  "core_reachable K tr s \<longleftrightarrow>
     (\<exists>a r0 s0. migrate (UpgradeInit a) empty_state = Inr (r0, s0) \<and> core_run K s0 tr s)"

definition total :: "(response \<Rightarrow> nat) \<Rightarrow> trace \<Rightarrow> nat" where
  "total f tr = sum_list (map (\<lambda>(_, _, _, r). f r) tr)"

lemma total_simps [simp]:
  "total f [] = 0" "total f (tr @ tr') = total f tr + total f tr'" "total f [(env, info, msg, r)] = f r"
  by (simp_all add: total_def)

lemma truncate_simps [simp]:
  "path_key (crypto.truncate H) q = path_key H q"
  "commit_packets (crypto.truncate H) ps = commit_packets H ps"
  "sent_path (crypto.truncate H) p = sent_path H p"
  "receipt_path (crypto.truncate H) p = receipt_path H p"
  "commit (crypto.truncate H) bs = commit H bs"
  "commit_ack (crypto.truncate H) a = commit_ack H a"
  "commit_acks (crypto.truncate H) as = commit_acks H as"
  "commit_connection (crypto.truncate H) c = commit_connection H c"
  "commit_channel (crypto.truncate H) d = commit_channel H d"
  by (simp_all add: path_key_def commit_packets_def sent_path_def receipt_path_def commit_def commit_ack_def
      commit_acks_def commit_connection_def commit_channel_def crypto.defs)

lemma truncate_unique [simp]:
  "key_unique (crypto.truncate H) q \<longleftrightarrow> key_unique H q"
  "batch_unique (crypto.truncate H) ps \<longleftrightarrow> batch_unique H ps"
  "packet_unique (crypto.truncate H) p \<longleftrightarrow> packet_unique H p"
  by (simp_all add: key_unique_def batch_unique_def packet_unique_def)

text \<open>Replies and migrations change neither commitments nor ends of a deployed contract.\<close>

lemma reply_Inr: "reply i ok s = Inr (r, s') \<Longrightarrow> s' = s\<lparr>consuming_schedule := Some False\<rparr> \<and> r = response_new"
  by (auto simp: reply_def split: if_splits)

lemma migrate_Inr:
  assumes "migrate m s = Inr (r, s')"
  shows "r = response_new \<and> (case state_version s of
      None \<Rightarrow> \<exists>a. m = UpgradeInit a \<and> s' = (access_managed_init a s)
        \<lparr>next_channel_id := Some 1, next_connection_id := Some 1, next_client_id := Some 1,
         state_version := Some LATEST_VERSION\<rparr>
    | Some v \<Rightarrow> m = UpgradeMigrate \<and> v = LATEST_VERSION \<and> s' = s)"
  using assms
  by (cases "state_version s"; cases m)
    (auto simp: migrate_def migrate_from_def put_state_version_def upgrade_run_def init_def LATEST_VERSION_def result_simps split: if_splits)

lemma migrate_commitments: "migrate m s = Inr (r, s') \<Longrightarrow> commitments s' = commitments s"
  using migrate_Inr [of m s r s'] by (auto simp: access_managed_init_def split: option.splits)

lemma run_append: "core_run K s1 tr2 s2 \<Longrightarrow> core_run K s0 tr1 s1 \<Longrightarrow> core_run K s0 (tr1 @ tr2) s2"
proof (induction rule: core_run.induct)
  case (run_execute tr s H env info msg r s')
  then show ?case
    using core_run.run_execute [of K s0 "tr1 @ tr" s H env info msg r s'] by simp
qed (auto intro: core_run.intros)

lemma reachable_start:
  assumes "core_reachable K tr s"
  obtains s0 where "core_run K s0 tr s" "commitments s0 = Map.empty"
proof -
  obtain a r0 s0 where "migrate (UpgradeInit a) empty_state = Inr (r0, s0)" "core_run K s0 tr s"
    using assms unfolding core_reachable_def by blast
  moreover from this(1) have "commitments s0 = Map.empty" by (simp add: migrate_commitments empty_state_def)
  ultimately show thesis by (intro that)
qed

section \<open>The source chain: sent once, settled once\<close>

lemma source_run:
  assumes "core_run K s0 tr s" "packet_unique K p" "sent_commit K s0 p = None"
  shows "(sent_commit K s p, total (sends p) tr, total (settled_by p) tr) \<in>
    {(None, 0, 0), (Some COMMITMENT_MAGIC, 1, 0), (Some COMMITMENT_MAGIC_ACK, 1, 1)}"
  using assms
proof (induction rule: core_run.induct)
  case (run_execute tr s H env info msg r s')
  then have "source_life (sent_commit H s p) (sends p r) (settled_by p r) (sent_commit H s' p)"
    using execute_source_life by (metis truncate_unique(3))
  with run_execute show ?case by (auto simp: source_life_def)
qed (auto dest!: reply_Inr migrate_commitments)

lemma dest_run:
  assumes "core_run K s0 tr s" "packet_unique K p" "receipt_commit K s0 p = None"
  shows "total (delivered_by p) tr = (if receipt_commit K s p = None then 0 else 1)"
  using assms
proof (induction rule: core_run.induct)
  case (run_execute tr s H env info msg r s')
  then have "dest_life (receipt_commit H s p) (delivered_by p r) (receipt_commit H s' p)"
    using execute_dest_life by (metis truncate_unique(3))
  with run_execute show ?case by (auto simp: dest_life_def)
qed (auto dest!: reply_Inr migrate_commitments)

section \<open>Running a list of calls\<close>

text \<open>\<open>run_calls\<close> executes calls one after the other in one block; it is how concrete runs are built.\<close>

fun run_calls :: "host \<Rightarrow> block_env \<Rightarrow> (addr \<times> execute_msg) list \<Rightarrow> core_state \<Rightarrow> contract_error + trace \<times> core_state" where
  "run_calls H env [] s = Inr ([], s)"
| "run_calls H env ((a, msg) # calls) s =
     bindE (execute H env \<lparr>sender = a, funds = []\<rparr> msg s) (\<lambda>(r, s1).
     bindE (run_calls H env calls s1) (\<lambda>(tr, s2). Inr ((env, \<lparr>sender = a, funds = []\<rparr>, msg, r) # tr, s2)))"

lemma run_calls_run: "run_calls H env calls s = Inr (tr, s') \<Longrightarrow> core_run (crypto.truncate H) s tr s'"
proof (induction calls arbitrary: s tr)
  case Nil
  then show ?case by (auto intro: run_refl)
next
  case (Cons c calls)
  obtain a msg where c: "c = (a, msg)" by (cases c)
  obtain r s1 tr1 where "execute H env \<lparr>sender = a, funds = []\<rparr> msg s = Inr (r, s1)"
    and "run_calls H env calls s1 = Inr (tr1, s')" and tr: "tr = (env, \<lparr>sender = a, funds = []\<rparr>, msg, r) # tr1"
    using Cons.prems unfolding c by (auto simp: bindE_eq_Inr)
  with Cons.IH [of s1 tr1] run_execute [OF run_refl refl, of H env _ msg s r s1] show ?case
    using run_append by fastforce
qed

end
