(* ===== verification/Core_Demo.thy ===== *)
theory Core_Demo
  imports Core_Run
begin

text \<open>
  A concrete chain, for evaluating the contract on real inputs: a hash table in place of Keccak, a
  light client that accepts everything, an authority that lets everybody call. On it a client is
  registered and created, a connection and a channel are opened, and one packet travels.
\<close>

section \<open>A small chain\<close>

definition demo_packet :: packet where
  "demo_packet = \<lparr>source_channel_id = 1, destination_channel_id = 1, packet_data = [1],
     timeout_height = MustBeZero, timeout_timestamp = 5\<rparr>"

definition demo_hash :: "bytes \<Rightarrow> h256" where
  "demo_hash x =
     (if x = [7] then 1
      else if x = [6] then 9
      else if x = [4] then 10
      else if x = [5] then 11
      else if x = path_preimage (BatchPackets 1) then 2
      else if x = path_preimage (BatchReceipts 1) then 3
      else if x = path_preimage (Connection 1) then 4
      else if x = path_preimage (Channel 1) then 5
      else 0)"

definition demo_host :: host where
  "demo_host = \<lparr>keccak256 = demo_hash,
     abi_packets = (\<lambda>ts. if ts = [packet_to_tokens demo_packet] then [7] else []),
     abi_packet = (\<lambda>_. []),
     abi_channel = (\<lambda>t. if t = (2, 1, 1, str_bytes ''port'', ''v'') then [5] else []),
     abi_connection = (\<lambda>t. if t = (2, 1, 1, 1) then [4] else []), abi_acks = (\<lambda>_. [6]),
     addr_validate = Inr,
     q_timestamp = (\<lambda>_ _ _. Inr 10), q_height = (\<lambda>_ _ _. Inr 1), q_status = (\<lambda>_ _ _. Inr Active),
     q_unit = (\<lambda>_ _ _. Inr ()),
     q_creation = (\<lambda>_ _ _. Inr \<lparr>vcr_counterparty_chain_id = ''b'', vcr_client_state_bytes = None,
        vcr_storage_writes = [], vcr_events = []\<rparr>),
     q_update = (\<lambda>_ _ _. Inr \<lparr>usr_height = 2, usr_client_state_bytes = None, usr_consensus_state_bytes = [],
        usr_storage_writes = []\<rparr>),
     q_misbehaviour = (\<lambda>_ _ _. Inr \<lparr>mr_client_state_bytes = []\<rparr>),
     q_can_call = (\<lambda>_ _ _ _. Inr Immediate), q_contract_info = (\<lambda>_. Inr ())\<rparr>"

definition demo_env :: block_env where
  "demo_env = \<lparr>contract_address = ''core'', block_time = 3\<rparr>"

text \<open>The calls that open connection 1 and channel 1, owned by the module \<open>port\<close>.\<close>

definition demo_open :: "(addr \<times> execute_msg) list" where
  "demo_open =
     [(''r'', Restricted (RegisterClient ''c'' ''lc'')),
      (''r'', Restricted (CreateClient ''c'' [] [] ''r'')),
      (''r'', Restricted (ConnectionOpenInit 1 1)),
      (''r'', Restricted (ForceConnectionOpenAck 1 1 [] 0)),
      (''r'', Restricted (ChannelOpenInit ''port'' [9] 1 ''v'' ''r'')),
      (''r'', Restricted (ForceChannelOpenAck 1 ''v'' 1 [] 0 ''r''))]"

definition demo_sent :: "(addr \<times> execute_msg) list" where
  "demo_sent = demo_open @ [(''port'', PacketSend 1 5 [1])]"

definition demo_timed_out :: "(addr \<times> execute_msg) list" where
  "demo_timed_out = demo_sent @ [(''r'', Restricted (PacketTimeout demo_packet [] 1 ''r''))]"

definition demo_received :: "(addr \<times> execute_msg) list" where
  "demo_received = demo_open @ [(''r'', Restricted (PacketRecv [demo_packet] [[]] ''r'' [] 1))]"

definition demo_acked :: "(addr \<times> execute_msg) list" where
  "demo_acked = demo_received @ [(''port'', WriteAcknowledgement demo_packet [8])]"

definition demo_start :: core_state where
  "demo_start = (access_managed_init ''auth'' empty_state)
     \<lparr>next_channel_id := Some 1, next_connection_id := Some 1, next_client_id := Some 1,
      state_version := Some LATEST_VERSION\<rparr>"

section \<open>What it evaluates to\<close>

lemma path_preimage_neq [simp]: "path_preimage p \<noteq> [x]" "[x] \<noteq> path_preimage p" "path_preimage p \<noteq> []" "[] \<noteq> path_preimage p"
proof -
  have "length (path_preimage p) \<noteq> length [x]" "length (path_preimage p) \<noteq> length ([] :: bytes)"
    by (simp_all add: path_preimage_def)
  then show "path_preimage p \<noteq> [x]" "[x] \<noteq> path_preimage p" "path_preimage p \<noteq> []" "[] \<noteq> path_preimage p"
    by metis+
qed

lemma demo_keccak [simp]: "keccak256 demo_host = demo_hash"
  by (simp add: demo_host_def)

lemma demo_commit_packets [simp]: "commit_packets demo_host [demo_packet] = 1"
  by (simp add: commit_packets_def demo_host_def demo_hash_def)

lemma demo_commit_none: "commit_packets demo_host ps = 1 \<Longrightarrow> ps = [demo_packet]"
  by (auto simp: commit_packets_def demo_host_def demo_hash_def packet_to_tokens_inj split: if_splits)

lemma demo_keys [simp]:
  "path_key demo_host (BatchPackets 1) = 2"
  "path_key demo_host (BatchReceipts 1) = 3"
  "path_key demo_host (Connection 1) = 4"
  "path_key demo_host (Channel 1) = 5"
  "path_key demo_host (ClientState cl) = 0"
  "path_key demo_host (ConsensusState cl h) = 0"
  by (simp_all add: path_key_def demo_hash_def path_preimage_inj)

lemma demo_packet_unique: "packet_unique demo_host demo_packet"
proof -
  have "batch_unique demo_host [demo_packet]"
    unfolding batch_unique_def using demo_commit_none by simp
  moreover have "key_unique demo_host (BatchPackets 1)" "key_unique demo_host (BatchReceipts 1)"
    by (simp_all add: key_unique_def path_key_def demo_hash_def path_preimage_inj)
  ultimately show ?thesis by (simp add: packet_unique_def sent_path_def receipt_path_def)
qed

lemma demo_paths [simp]:
  "sent_path demo_host demo_packet = BatchPackets 1"
  "receipt_path demo_host demo_packet = BatchReceipts 1"
  by (simp_all add: sent_path_def receipt_path_def)

lemma demo_start_reachable: "core_run K demo_start tr s \<Longrightarrow> core_reachable K tr s"
  unfolding core_reachable_def
  by (rule exI [of _ "''auth''"])
    (auto simp: migrate_def migrate_from_def put_state_version_def upgrade_run_def init_def empty_state_def demo_start_def access_managed_init_def)

lemma demo_host_simps [simp]:
  "validate demo_host a = Inr a"
  "query_light_client (q_timestamp demo_host) s i q = Inr 10"
  "query_light_client (q_height demo_host) s i q = Inr 1"
  "query_light_client (q_status demo_host) s i q = Inr Active"
  "query_light_client (q_unit demo_host) s i q = Inr ()"
  "query_light_client (q_creation demo_host) s i q = Inr \<lparr>vcr_counterparty_chain_id = ''b'',
     vcr_client_state_bytes = None, vcr_storage_writes = [], vcr_events = []\<rparr>"
  "q_can_call demo_host a n c d = Inr Immediate"
  "commit demo_host [] = 0"
  by (simp_all add: demo_host_def validate_def query_light_client_def commit_def demo_hash_def)

lemma demo_can_call [simp]: "authority s = Some a \<Longrightarrow> ensure_can_call demo_host env info m s = Inr (Msg m, s)"
  by (simp add: ensure_can_call_def am_read_def)

text \<open>What is needed of the state in which the channel is open.\<close>

definition demo_is_open :: "core_state \<Rightarrow> bool" where
  "demo_is_open s \<longleftrightarrow> authority s = Some ''auth'' \<and> client_impls s 1 = Some ''lc'' \<and>
     connections s 1 = Some \<lparr>co_state = ConnOpen, co_client_id = 1, co_counterparty_client_id = 1,
       co_counterparty_connection_id = Some 1\<rparr> \<and>
     channels s 1 = Some \<lparr>ch_state = ChanOpen, ch_connection_id = 1, ch_counterparty_channel_id = Some 1,
       ch_counterparty_port_id = [9], ch_version = ''v''\<rparr> \<and>
     channel_owner s 1 = Some ''port'' \<and> commitments s 2 = None \<and> commitments s 3 = None"

lemmas eval_defs = register_client_def create_client_def init_client_def connection_open_init_def connection_open_ack_def
  verify_connection_def save_connection_def channel_open_init_def channel_open_ack_def verify_channel_def save_channel_def
  create_channel_def ensure_connection_state_def ensure_channel_state_def take_next_client_id_def
  take_next_connection_id_def take_next_channel_id_def id_checked_add_def client_impl_def write_client_store_def
  store_commit_def read_commit_def sread_def Let_def

lemma demo_open_run:
  "\<exists>tr s. run_calls demo_host demo_env demo_open demo_start = Inr (tr, s) \<and> demo_is_open s"
  by (simp add: demo_open_def demo_start_def access_managed_init_def empty_state_def eval_defs demo_is_open_def)

lemma run_calls_append:
  "run_calls H env (cs @ ds) s = bindE (run_calls H env cs s) (\<lambda>(tr, s1).
     bindE (run_calls H env ds s1) (\<lambda>(tr', s2). Inr (tr @ tr', s2)))"
proof (induction cs arbitrary: s)
  case Nil
  then show ?case by (cases "run_calls H env ds s") auto
next
  case (Cons c cs)
  then show ?case by (cases c) (auto simp: bindE_assoc split_def bindE_def split: sum.splits)
qed

lemma demo_keys_packet [simp]:
  "path_key demo_host (BatchPackets (commit_packets demo_host [demo_packet])) = 2"
  "path_key demo_host (BatchReceipts (commit_packets demo_host [demo_packet])) = 3"
  by simp_all

lemma demo_packet_simps [simp]:
  "source_channel_id demo_packet = 1" "destination_channel_id demo_packet = 1" "timeout_timestamp demo_packet = 5"
  "\<lparr>source_channel_id = 1, destination_channel_id = 1, packet_data = [1],
     timeout_height = MustBeZero, timeout_timestamp = 5\<rparr> = demo_packet"
  by (simp_all add: demo_packet_def)

lemma demo_send:
  assumes "demo_is_open s"
  shows "\<exists>r. execute demo_host demo_env \<lparr>sender = ''port'', funds = []\<rparr> (PacketSend 1 5 [1]) s =
      Inr (r, store_commit 2 COMMITMENT_MAGIC s) \<and> r_data r = Some demo_packet"
  using assms by (auto simp: demo_is_open_def send_packet_def timestamp_is_zero_def ensure_channel_state_def
      read_commit_def Let_def)

lemma demo_timeout:
  assumes "demo_is_open s"
  shows "\<exists>r. execute demo_host demo_env \<lparr>sender = ''r'', funds = []\<rparr>
        (Restricted (PacketTimeout demo_packet [] 1 ''r'')) (store_commit 2 COMMITMENT_MAGIC s) =
      Inr (r, store_commit 2 COMMITMENT_MAGIC_ACK (store_commit 2 COMMITMENT_MAGIC s)) \<and>
      r_messages r = [CallModule ''port'' (OnTimeoutPacket ''r'' demo_packet ''r'') []]"
  using assms by (auto simp: demo_is_open_def timeout_packet_def timestamp_is_zero_def ensure_channel_state_def
      ensure_connection_state_def get_timestamp_at_height_def client_impl_def mark_packet_as_acknowledged_def Let_def)

lemma demo_recv:
  assumes "demo_is_open s"
  shows "\<exists>r. execute demo_host demo_env \<lparr>sender = ''r'', funds = []\<rparr>
        (Restricted (PacketRecv [demo_packet] [[]] ''r'' [] 1)) s = Inr (r, store_commit 3 COMMITMENT_MAGIC s) \<and>
      r_messages r = [CallModule ''port'' (OnRecvPacket ''r'' demo_packet ''r'' []) []]"
  using assms by (auto simp: demo_is_open_def process_receive_def ensure_channel_state_def demo_env_def
      ensure_connection_state_def client_impl_def verify_membership_def set_packet_receive_def read_commit_def
      recv_callback_def)

lemma demo_write_ack:
  assumes "demo_is_open s"
  shows "\<exists>r. execute demo_host demo_env \<lparr>sender = ''port'', funds = []\<rparr> (WriteAcknowledgement demo_packet [8])
      (store_commit 3 COMMITMENT_MAGIC s) =
      Inr (r, store_commit 3 (commit_ack demo_host [8]) (store_commit 3 COMMITMENT_MAGIC s))"
  using assms by (auto simp: demo_is_open_def write_acknowledgement_def read_commit_def Let_def)

lemma demo_sent_run:
  "\<exists>tr s. run_calls demo_host demo_env demo_sent demo_start = Inr (tr, store_commit 2 COMMITMENT_MAGIC s) \<and> demo_is_open s"
  using demo_open_run demo_send by (fastforce simp: demo_sent_def run_calls_append)

lemma demo_timed_out_run:
  "\<exists>tr s. run_calls demo_host demo_env demo_timed_out demo_start = Inr (tr, s) \<and>
     commitments s 2 = Some COMMITMENT_MAGIC_ACK"
  using demo_sent_run demo_timeout by (fastforce simp: demo_timed_out_def run_calls_append)

lemma demo_received_run:
  "\<exists>tr s. run_calls demo_host demo_env demo_received demo_start = Inr (tr, store_commit 3 COMMITMENT_MAGIC s) \<and>
     demo_is_open s"
  using demo_open_run demo_recv by (fastforce simp: demo_received_def run_calls_append)

lemma demo_acked_run:
  "\<exists>tr s. run_calls demo_host demo_env demo_acked demo_start = Inr (tr, s) \<and>
     commitments s 3 = Some (commit_ack demo_host [8])"
proof -
  obtain tr s where "run_calls demo_host demo_env demo_received demo_start = Inr (tr, store_commit 3 COMMITMENT_MAGIC s)"
    and "demo_is_open s" using demo_received_run by blast
  moreover from demo_write_ack [OF this(2)] obtain r where
    "execute demo_host demo_env \<lparr>sender = ''port'', funds = []\<rparr> (WriteAcknowledgement demo_packet [8])
      (store_commit 3 COMMITMENT_MAGIC s) =
      Inr (r, store_commit 3 (commit_ack demo_host [8]) (store_commit 3 COMMITMENT_MAGIC s))" by blast
  ultimately show ?thesis by (simp add: demo_acked_def run_calls_append del: execute.simps)
qed

lemma last_to_be_bytes: "to_be_bytes (Suc n) x ! n = word_of_nat (x mod 256)"
  by (simp add: nth_append)

text \<open>The acknowledgement of the small chain does not look like an empty receipt.\<close>

lemma demo_ack_not_magic: "commit_ack demo_host [8] \<noteq> COMMITMENT_MAGIC"
proof
  have "commit_ack demo_host [8] = h256_of_bytes ((h256_bytes 9)[0 := 1])"
    by (simp add: commit_ack_def commit_acks_def commit_def merge_ack_def demo_host_def demo_hash_def)
  moreover assume "commit_ack demo_host [8] = COMMITMENT_MAGIC"
  ultimately have "(h256_bytes 9)[0 := 1] = (replicate 32 0)[0 := 1]"
    unfolding COMMITMENT_MAGIC_def by (metis h256_of_bytes_inj length_h256_bytes length_list_update length_replicate)
  then have "((h256_bytes 9)[0 := 1]) ! 31 = ((replicate 32 0)[0 := 1]) ! 31" by simp
  then show False using last_to_be_bytes [of 31 9] by (simp add: h256_bytes_def)
qed

text \<open>The hash and the encoders of the small chain.\<close>

definition demo_crypto :: crypto where
  "demo_crypto = crypto.truncate demo_host"

lemma demo_crypto_simps [simp]:
  "crypto.truncate demo_host = demo_crypto"
  "packet_unique demo_crypto demo_packet"
  "path_key demo_crypto q = path_key demo_host q"
  "sent_path demo_crypto p = sent_path demo_host p"
  "receipt_path demo_crypto p = receipt_path demo_host p"
  unfolding demo_crypto_def by (simp_all add: demo_packet_unique)

lemma demo_timed_out_reachable:
  "\<exists>tr s. core_reachable demo_crypto tr s \<and> commitments s 2 = Some COMMITMENT_MAGIC_ACK"
  using demo_timed_out_run run_calls_run demo_start_reachable demo_crypto_simps(1) by metis

lemma demo_received_reachable:
  "\<exists>tr s. core_reachable demo_crypto tr (store_commit 3 COMMITMENT_MAGIC s) \<and> demo_is_open s"
  using demo_received_run run_calls_run demo_start_reachable demo_crypto_simps(1) by metis

end
