(* ===== verification/Core_Safety.thy ===== *)
theory Core_Safety
  imports Core_Demo
begin

text \<open>
  The life of a packet over whole runs of the contract, on each chain and between two chains.
\<close>

section \<open>One chain\<close>

text \<open>C1: Over every run of a deployed contract, whoever calls it, a packet is settled (its module gets
  an acknowledgement or a timeout) at most once and only after it was sent; its commitment is absent
  until it is sent, \<open>COMMITMENT_MAGIC\<close> while it is in flight and \<open>COMMITMENT_MAGIC_ACK\<close> for ever after
  it is settled.\<close>

theorem packet_settled_at_most_once:
  assumes "core_reachable K tr s" "packet_unique K p"
  shows "(sent_commit K s p, total (sends p) tr, total (settled_by p) tr) \<in>
    {(None, 0, 0), (Some COMMITMENT_MAGIC, 1, 0), (Some COMMITMENT_MAGIC_ACK, 1, 1)}"
  using reachable_start [OF assms(1)] source_run [OF _ assms(2)] by (metis (full_types))

theorem packet_settled_at_most_once_witness:
  "\<exists>tr s. core_reachable demo_crypto tr s \<and> packet_unique demo_crypto demo_packet \<and>
     total (sends demo_packet) tr = 1 \<and> total (settled_by demo_packet) tr = 1"
proof -
  obtain tr s where "core_reachable demo_crypto tr s" "commitments s 2 = Some COMMITMENT_MAGIC_ACK"
    using demo_timed_out_reachable by blast
  with packet_settled_at_most_once [OF this(1), of demo_packet] show ?thesis by auto
qed

text \<open>C2: Over every run of a deployed contract a packet is delivered to its module exactly once if it has a
  receipt and never if it has none, counting ordinary and intent deliveries together.\<close>

theorem packet_delivered_once:
  assumes "core_reachable K tr s" "packet_unique K p"
  shows "total (delivered_by p) tr = (if receipt_commit K s p = None then 0 else 1)"
  using reachable_start [OF assms(1)] dest_run [OF _ assms(2)] by (metis (full_types))

theorem packet_delivered_once_witness:
  "\<exists>tr s. core_reachable demo_crypto tr s \<and> packet_unique demo_crypto demo_packet \<and>
     total (delivered_by demo_packet) tr = 1"
proof -
  obtain tr s where "core_reachable demo_crypto tr (store_commit 3 COMMITMENT_MAGIC s)"
    using demo_received_reachable by blast
  with packet_delivered_once [OF this, of demo_packet] show ?thesis by auto
qed

section \<open>Two chains\<close>

text \<open>
  What the contract relies on of a light client. \<open>view h\<close> is the state of the counterparty's
  contract and the block time at height \<open>h\<close>, if the counterparty has reached it. A client tracks it
  when what it verifies at a height is true of the state at that height.
\<close>

type_synonym view = "u64 \<Rightarrow> (core_state \<times> timestamp) option"

definition client_tracks :: "host \<Rightarrow> core_state \<Rightarrow> client_id \<Rightarrow> view \<Rightarrow> bool" where
  "client_tracks H s cl view \<longleftrightarrow> (\<forall>impl h. client_impls s cl = Some impl \<longrightarrow>
     (\<forall>ts. q_timestamp H impl s (GetTimestamp cl h) = Inr ts \<longrightarrow> ts \<noteq> 0 \<longrightarrow> (\<exists>s'. view h = Some (s', ts))) \<and>
     (\<forall>pr path v. q_unit H impl s (VerifyMembership cl h pr path v) = Inr () \<longrightarrow>
        (\<exists>s' ts. view h = Some (s', ts) \<and> commitments s' (h256_of_bytes path) = Some (h256_of_bytes v))) \<and>
     (\<forall>pr path. q_unit H impl s (VerifyNonMembership cl h pr path) = Inr () \<longrightarrow>
        (\<exists>s' ts. view h = Some (s', ts) \<and> commitments s' (h256_of_bytes path) = None)))"

definition channel_tracks :: "host \<Rightarrow> core_state \<Rightarrow> channel_id \<Rightarrow> view \<Rightarrow> bool" where
  "channel_tracks H s ch view \<longleftrightarrow> (\<forall>c conn. channels s ch = Some c \<longrightarrow> connections s (ch_connection_id c) = Some conn \<longrightarrow>
     client_tracks H s (co_client_id conn) view)"

text \<open>The states of the view lie on one run of the counterparty, along which time does not go back.\<close>

definition on_history :: "crypto \<Rightarrow> view \<Rightarrow> trace \<Rightarrow> core_state \<Rightarrow> bool" where
  "on_history K view tr s \<longleftrightarrow> (\<forall>h s1 ts. view h = Some (s1, ts) \<longrightarrow>
     (\<exists>tr1 tr2. tr = tr1 @ tr2 \<and> core_reachable K tr1 s1 \<and> core_run K s1 tr2 s \<and>
        (\<forall>(env, _) \<in> set tr2. ts \<le> block_time env)))"

lemma on_history_now:
  assumes "core_reachable K tr s"
  shows "on_history K (\<lambda>h. if h = k then Some (s, ts) else None) tr s"
  unfolding on_history_def
proof (intro allI impI)
  fix h s1 ts' assume "(if h = k then Some (s, ts) else None) = Some (s1, ts')"
  then have "s1 = s" by (simp split: if_splits)
  with assms show "\<exists>tr1 tr2. tr = tr1 @ tr2 \<and> core_reachable K tr1 s1 \<and> core_run K s1 tr2 s \<and>
      (\<forall>(env, _) \<in> set tr2. ts' \<le> block_time env)"
    by - (rule exI [of _ tr], rule exI [of _ "[]"], simp add: run_refl)
qed

lemma client_tracksD:
  assumes "client_tracks H s cl view" "client_impls s cl = Some impl"
  shows "q_timestamp H impl s (GetTimestamp cl h) = Inr ts \<Longrightarrow> ts \<noteq> 0 \<Longrightarrow> \<exists>s'. view h = Some (s', ts)"
    and "q_unit H impl s (VerifyMembership cl h pr path v) = Inr () \<Longrightarrow>
      \<exists>s' ts. view h = Some (s', ts) \<and> commitments s' (h256_of_bytes path) = Some (h256_of_bytes v)"
    and "q_unit H impl s (VerifyNonMembership cl h pr path) = Inr () \<Longrightarrow>
      \<exists>s' ts. view h = Some (s', ts) \<and> commitments s' (h256_of_bytes path) = None"
  using assms unfolding client_tracks_def by blast+

lemma reachable_run: "core_reachable K tr1 s1 \<Longrightarrow> core_run K s1 tr2 s2 \<Longrightarrow> core_reachable K (tr1 @ tr2) s2"
  unfolding core_reachable_def using run_append by blast

lemma late_run_no_delivery:
  assumes "core_run K s0 tr s" "packet_unique K p" "receipt_commit K s0 p = None"
    and "\<forall>(env, _) \<in> set tr. timeout_timestamp p \<le> block_time env"
  shows "receipt_commit K s p = None"
  using assms
proof (induction rule: core_run.induct)
  case (run_execute tr s H env info msg r s')
  then have u: "packet_unique H p" by (metis truncate_unique(3))
  have "dest_life (receipt_commit H s p) (delivered_by p r) (receipt_commit H s' p)"
    using execute_dest_life [OF u run_execute(3)] .
  moreover have "receipt_commit H s p = None" using run_execute by auto
  moreover have "delivered_by p r = 0"
    using delivered_in_time [OF u run_execute(3)] run_execute.prems(3) by (fastforce simp: not_less)
  ultimately show ?case using run_execute(2) by (auto simp: dest_life_def)
qed (auto dest!: reply_Inr migrate_commitments)

text \<open>A small chain whose light client is honest about \<open>view\<close>.\<close>

definition honest_host :: "view \<Rightarrow> host" where
  "honest_host view = demo_host\<lparr>
     q_timestamp := (\<lambda>_ _ q. case q of
         GetTimestamp cl h \<Rightarrow> (case view h of Some (_, ts) \<Rightarrow> Inr ts | None \<Rightarrow> Inl (GenericErr ''no such height''))
       | _ \<Rightarrow> Inl (GenericErr ''bad query'')),
     q_unit := (\<lambda>_ _ q. case q of
         VerifyMembership cl h pr path v \<Rightarrow> (case view h of
             Some (s, _) \<Rightarrow> if commitments s (h256_of_bytes path) = Some (h256_of_bytes v) then Inr ()
                           else Inl (GenericErr ''not a member'')
           | None \<Rightarrow> Inl (GenericErr ''no such height''))
       | VerifyNonMembership cl h pr path \<Rightarrow> (case view h of
             Some (s, _) \<Rightarrow> if commitments s (h256_of_bytes path) = None then Inr ()
                           else Inl (GenericErr ''member'')
           | None \<Rightarrow> Inl (GenericErr ''no such height''))
       | _ \<Rightarrow> Inl (GenericErr ''bad query''))\<rparr>"

lemma honest_tracks: "client_tracks (honest_host view) s cl view" "channel_tracks (honest_host view) s ch view"
  unfolding channel_tracks_def client_tracks_def honest_host_def by (auto split: option.splits if_splits)

lemma honest_crypto [simp]:
  "crypto.truncate (honest_host view) = demo_crypto"
  "path_key (honest_host view) q = path_key demo_host q"
  "commit_packets (honest_host view) ps = commit_packets demo_host ps"
  "receipt_path (honest_host view) p = receipt_path demo_host p"
  "sent_path (honest_host view) p = sent_path demo_host p"
  "validate (honest_host view) a = Inr a"
  unfolding demo_crypto_def
  by (simp_all add: honest_host_def crypto.defs path_key_def commit_packets_def receipt_path_def sent_path_def validate_def
      demo_host_def)

lemma honest_queries:
  "view h = Some (t, ts) \<Longrightarrow> query_light_client (q_timestamp (honest_host view)) s i (GetTimestamp cl h) = Inr ts"
  "view h = Some (t, ts) \<Longrightarrow> commitments t (h256_of_bytes path) = None \<Longrightarrow>
     query_light_client (q_unit (honest_host view)) s i (VerifyNonMembership cl h pr path) = Inr ()"
  "view h = Some (t, ts) \<Longrightarrow> commitments t (h256_of_bytes path) = Some (h256_of_bytes v) \<Longrightarrow>
     query_light_client (q_unit (honest_host view)) s i (VerifyMembership cl h pr path v) = Inr ()"
  by (simp_all add: honest_host_def query_light_client_def)

lemma honest_timeout:
  assumes "demo_is_open s" "view 1 = Some (t, 10)" "commitments t 3 = None"
  shows "\<exists>r. timeout_packet (honest_host view) info demo_packet [] 1 rel (store_commit 2 COMMITMENT_MAGIC s) =
      Inr (r, store_commit 2 COMMITMENT_MAGIC_ACK (store_commit 2 COMMITMENT_MAGIC s))"
  using assms by (auto simp: demo_is_open_def timeout_packet_def timestamp_is_zero_def ensure_channel_state_def
      ensure_connection_state_def get_timestamp_at_height_def client_impl_def mark_packet_as_acknowledged_def Let_def
      honest_queries)

text \<open>C3: A packet that was timed out on its source chain is never delivered on its destination chain, neither
  before the timeout nor after, if the light client of the channel is right about the destination
  chain and time does not go back there.\<close>

theorem timeout_excludes_delivery:
  assumes "timeout_packet H info p pr h rel s = Inr (r, s')"
    and "packet_unique (crypto.truncate H) p"
    and "channel_tracks H s (source_channel_id p) view"
    and "on_history (crypto.truncate H) view tr t"
  shows "total (delivered_by p) tr = 0 \<and> receipt_commit H t p = None"
proof -
  let ?K = "crypto.truncate H"
  obtain c conn impl ts where "channels s (source_channel_id p) = Some c"
    "connections s (ch_connection_id c) = Some conn" and impl: "client_impls s (co_client_id conn) = Some impl"
    and ts: "q_timestamp H impl s (GetTimestamp (co_client_id conn) h) = Inr ts" "ts \<noteq> 0" "timeout_timestamp p \<le> ts"
    and nm: "q_unit H impl s (VerifyNonMembership (co_client_id conn) h pr (h256_bytes (path_key H (receipt_path H p)))) = Inr ()"
    using timeout_packet_Inr [OF assms(1)] by blast
  then have cl: "client_tracks H s (co_client_id conn) view"
    using assms(3) unfolding channel_tracks_def by blast
  obtain s1 where v: "view h = Some (s1, ts)" "receipt_commit H s1 p = None"
    using client_tracksD(1) [OF cl impl ts(1,2)] client_tracksD(3) [OF cl impl nm] by force
  then obtain tr1 tr2 where tr: "tr = tr1 @ tr2" and r1: "core_reachable ?K tr1 s1" and r2: "core_run ?K s1 tr2 t"
    and late: "\<forall>(env, _) \<in> set tr2. ts \<le> block_time env"
    using assms(4) unfolding on_history_def by blast
  have none: "receipt_commit H t p = None"
    using late_run_no_delivery [OF r2 assms(2)] v(2) late ts(3) by (fastforce intro: order_trans)
  obtain s0 where "core_run ?K s0 tr t" "commitments s0 = Map.empty"
    using reachable_start [OF reachable_run [OF r1 r2]] tr by blast
  with none dest_run [OF this(1) assms(2)] show ?thesis by simp
qed

theorem timeout_excludes_delivery_witness:
  "\<exists>r s s' view. timeout_packet (honest_host view) \<lparr>sender = ''r'', funds = []\<rparr> demo_packet [] 1 ''r'' s = Inr (r, s') \<and>
     view 1 = Some (demo_start, 10) \<and> on_history demo_crypto view [] demo_start \<and>
     total (delivered_by demo_packet) [] = 0 \<and> receipt_commit demo_host demo_start demo_packet = None"
proof -
  define view :: view where "view = (\<lambda>h. if h = 1 then Some (demo_start, 10) else None)"
  obtain s where "demo_is_open s" using demo_open_run by blast
  moreover have "commitments demo_start 3 = None"
    by (simp add: demo_start_def access_managed_init_def empty_state_def)
  ultimately obtain r s' where t: "timeout_packet (honest_host view) \<lparr>sender = ''r'', funds = []\<rparr> demo_packet [] 1 ''r''
      (store_commit 2 COMMITMENT_MAGIC s) = Inr (r, s')"
    using honest_timeout [of s view demo_start] by (fastforce simp: view_def)
  have h: "on_history demo_crypto view [] demo_start"
    unfolding view_def by (intro on_history_now demo_start_reachable run_refl)
  have "total (delivered_by demo_packet) [] = 0 \<and> receipt_commit (honest_host view) demo_start demo_packet = None"
    using timeout_excludes_delivery [OF t _ honest_tracks(2)] h by simp
  with t h show ?thesis by (metis view_def honest_crypto(2,4))
qed

lemma sent_commit_stays:
  assumes "packet_unique H q" "execute H env info msg s = Inr (r, s')" "sent_commit H s q \<noteq> None"
  shows "sent_commit H s' q \<noteq> None"
  using execute_source_life [OF assms(1,2)] assms(3) by (auto simp: source_life_def)

lemma batch_commit_sent:
  assumes "core_run K s0 tr s" "commitments s0 = Map.empty" "batch_ok K ps" "2 \<le> length ps"
    and "commitments s (path_key K (BatchPackets (commit_packets K ps))) \<noteq> None" and "q \<in> set ps"
  shows "sent_commit K s q \<noteq> None"
  using assms
proof (induction rule: core_run.induct)
  case (run_execute tr s H env info msg r s')
  let ?k = "path_key H (BatchPackets (commit_packets H ps))"
  have ok: "batch_ok H ps" and q: "packet_unique H q"
    using run_execute.prems(2,5) run_execute(2) by (auto simp: batch_ok_def)
  have "sent_commit H s q \<noteq> None"
    using batch_key_step [OF ok run_execute.prems(3) run_execute(3)]
  proof
    assume "commitments s' ?k = commitments s ?k"
    with run_execute show ?thesis by auto
  next
    assume "batch_send H ps s = Inr (r, s')"
    then show ?thesis using batch_send_sent run_execute.prems(5) by blast
  qed
  with sent_commit_stays [OF q run_execute(3)] run_execute(2) show ?case by auto
qed (auto dest!: reply_Inr migrate_commitments)

lemma history_point:
  assumes "on_history K view tr t" "view h = Some (s1, ts)"
  obtains tr1 tr2 s0 where "tr = tr1 @ tr2" "core_run K s0 tr1 s1" "core_run K s1 tr2 t" "core_run K s0 tr t"
    "commitments s0 = Map.empty"
proof -
  obtain tr1 tr2 where "tr = tr1 @ tr2" "core_reachable K tr1 s1" "core_run K s1 tr2 t"
    using assms unfolding on_history_def by blast
  then show thesis using that run_append reachable_start by metis
qed

text \<open>C4: Every packet of a batch that is received with a proof was sent on the counterparty chain, exactly once,
  if the light client of the channel is right about that chain: packets cannot be forged by
  whoever relays or batches them.\<close>

theorem received_packets_were_sent:
  assumes "process_receive H env info ps ms rel pr h False s = Inr (r, s')"
    and "batch_ok (crypto.truncate H) ps"
    and "channel_tracks H s (destination_channel_id (hd ps)) view"
    and "on_history (crypto.truncate H) view tr t"
    and "p \<in> set ps"
  shows "total (sends p) tr = 1"
proof -
  let ?K = "crypto.truncate H"
  have u: "packet_unique ?K p" using assms(2,5) by (simp add: batch_ok_def)
  obtain c conn impl where "channels s (destination_channel_id (hd ps)) = Some c"
    "connections s (ch_connection_id c) = Some conn" and impl: "client_impls s (co_client_id conn) = Some impl"
    and m: "q_unit H impl s (VerifyMembership (co_client_id conn) h pr
         (h256_bytes (path_key H (BatchPackets (commit_packets H ps)))) (h256_bytes COMMITMENT_MAGIC)) = Inr ()"
    and ps: "ps \<noteq> []"
    using process_receive_Inr [OF assms(1)] by fastforce
  then have cl: "client_tracks H s (co_client_id conn) view"
    using assms(3) unfolding channel_tracks_def by blast
  obtain s1 ts where v: "view h = Some (s1, ts)"
    and k: "commitments s1 (path_key H (BatchPackets (commit_packets H ps))) = Some COMMITMENT_MAGIC"
    using client_tracksD(2) [OF cl impl m] by auto
  obtain tr1 tr2 s0 where tr: "tr = tr1 @ tr2" and r1: "core_run ?K s0 tr1 s1" and r: "core_run ?K s0 tr t"
    and s0: "commitments s0 = Map.empty"
    using history_point [OF assms(4) v] by metis
  have "sent_commit ?K s1 p \<noteq> None"
  proof (cases "2 \<le> length ps")
    case True
    with batch_commit_sent [OF r1 s0 assms(2) True _ assms(5)] k show ?thesis by simp
  next
    case False
    with ps assms(5) have "ps = [p]" by (cases ps) (auto simp: Suc_le_eq)
    with k show ?thesis by (simp add: sent_path_def)
  qed
  with source_run [OF r1 u] s0 have "total (sends p) tr1 = 1" by auto
  with source_run [OF r u] s0 tr show ?thesis by auto
qed

lemma honest_receive:
  assumes "demo_is_open s" "view 1 = Some (t, 10)" "commitments t 2 = Some COMMITMENT_MAGIC"
  shows "\<exists>r. process_receive (honest_host view) demo_env info [demo_packet] [[]] ''r'' [] 1 False s =
      Inr (r, store_commit 3 COMMITMENT_MAGIC s)"
  using assms by (auto simp: demo_is_open_def process_receive_def ensure_channel_state_def demo_env_def
      ensure_connection_state_def client_impl_def verify_membership_def set_packet_receive_def read_commit_def
      recv_callback_def honest_queries)

lemma demo_batch_ok: "batch_ok demo_crypto [demo_packet]"
  using demo_crypto_simps(2) unfolding batch_ok_def packet_unique_def sent_path_def by simp

theorem received_packets_were_sent_witness:
  "\<exists>r s s' view tr t. process_receive (honest_host view) demo_env \<lparr>sender = ''r'', funds = []\<rparr> [demo_packet] [[]] ''r'' [] 1
       False s = Inr (r, s') \<and> on_history demo_crypto view tr t \<and> total (sends demo_packet) tr = 1"
proof -
  obtain tr0 s where run: "run_calls demo_host demo_env demo_sent demo_start = Inr (tr0, store_commit 2 COMMITMENT_MAGIC s)"
    and s: "demo_is_open s" using demo_sent_run by blast
  let ?t = "store_commit 2 COMMITMENT_MAGIC s"
  define view :: view where "view = (\<lambda>h. if h = 1 then Some (?t, 10) else None)"
  have "core_reachable demo_crypto tr0 ?t" using demo_start_reachable run_calls_run [OF run] by simp
  then have h: "on_history demo_crypto view tr0 ?t"
    unfolding view_def by (rule on_history_now)
  obtain r s' where t: "process_receive (honest_host view) demo_env \<lparr>sender = ''r'', funds = []\<rparr> [demo_packet] [[]] ''r'' [] 1
      False s = Inr (r, s')"
    using honest_receive [OF s, of view ?t] by (fastforce simp: view_def)
  have "total (sends demo_packet) tr0 = 1"
    using received_packets_were_sent [OF t _ honest_tracks(2)] h demo_batch_ok by simp
  with t h show ?thesis by blast
qed

lemma receipt_written:
  assumes "core_run K s0 tr s" "commitments s0 = Map.empty" "packet_unique K p"
    and "receipt_commit K s p = Some x" "x \<noteq> COMMITMENT_MAGIC"
  shows "\<exists>env info b r. (env, info, WriteAcknowledgement p b, r) \<in> set tr \<and> commit_ack K b = x"
  using assms
proof (induction rule: core_run.induct)
  case (run_execute tr s H env info msg r s')
  then have u: "packet_unique H p" by (metis truncate_unique(3))
  show ?case
  proof (cases "receipt_commit H s p = Some x")
    case True
    with run_execute show ?thesis by fastforce
  next
    case False
    then have "\<not> packet_effect H p s r s'"
      using run_execute.prems(3,4) run_execute(2) by (auto simp: packet_effect_def receive_life_def)
    then obtain b where "msg = WriteAcknowledgement p b" "write_acknowledgement H (sender info) p b s = Inr (r, s')"
      using execute_packet_effect [OF u run_execute(3)] by blast
    with write_ack_effect [OF u] run_execute.prems(3) run_execute(2) show ?thesis by fastforce
  qed
qed (auto dest!: reply_Inr migrate_commitments)

lemma final_receipt_stays:
  assumes "core_run K s0 tr s" "packet_unique K p" "receipt_commit K s0 p = Some x" "x \<noteq> COMMITMENT_MAGIC"
  shows "receipt_commit K s p = Some x"
  using assms
proof (induction rule: core_run.induct)
  case (run_execute tr s H env info msg r s')
  then have "packet_unique H p" by (metis truncate_unique(3))
  from execute_dest_life [OF this run_execute(3)] run_execute show ?case by (auto simp: dest_life_def)
qed (auto dest!: reply_Inr migrate_commitments)


lemma honest_acknowledge:
  assumes "demo_is_open s" "view 1 = Some (t, 10)" "commitments t 3 = Some (commit_ack demo_host [8])"
  shows "\<exists>r. acknowledge_packet (honest_host view) info [demo_packet] [[8]] [] 1 ''r'' (store_commit 2 COMMITMENT_MAGIC s) =
      Inr (r, store_commit 2 COMMITMENT_MAGIC_ACK (store_commit 2 COMMITMENT_MAGIC s))"
proof -
  have "commit_acks (honest_host view) [[8]] = commit_ack demo_host [8]"
    by (simp add: commit_ack_def commit_acks_def commit_def honest_host_def)
  with assms show ?thesis by (auto simp: demo_is_open_def acknowledge_packet_def ensure_channel_state_def demo_env_def
      ensure_connection_state_def client_impl_def verify_membership_def mark_packet_as_acknowledged_def Let_def
      honest_queries)
qed

lemma honest_ack_not_magic: "commit_ack (honest_host view) [8] \<noteq> COMMITMENT_MAGIC"
  using demo_ack_not_magic by (simp add: commit_ack_def commit_acks_def commit_def honest_host_def)


end
