(* ===== verification/Core_Inv.thy ===== *)
theory Core_Inv
  imports Core_Safety
begin

text \<open>
  Invariants of the state of the IBC core contract: which ends exist, who owns them and in which
  states they are, and that the commitments of connections and channels are those of the stored
  ends. From them it follows that no call of a deployed contract panics, that the ends only move
  forward, and that two chains agree on the ends of a connection.
\<close>

section \<open>Every call keeps the ends or takes one handshake step\<close>

lemma only_commits_ends: "only_commits s s' \<Longrightarrow> same_ends s s'"
  unfolding only_commits_def same_ends_def
  by (metis core_state.select_convs(1-4,12,13,18) core_state.surjective core_state.update_convs(14))

lemma acknowledge_loop_only:
  "acknowledge_loop H info port src rel ps s = Inr ((evs, msgs), s') \<Longrightarrow> only_commits s s'"
proof (induction ps arbitrary: s evs msgs)
  case (Cons qa ps)
  obtain s1 evs1 msgs1 where "mark_packet_as_acknowledged H (fst qa) s = Inr s1"
    and "acknowledge_loop H info port src rel ps s1 = Inr ((evs1, msgs1), s')"
    using Cons.prems by (cases qa) (auto simp: result_simps)
  then show ?case using Cons.IH only_commits_trans only_commits_store unfolding mark_Inr by blast
qed simp

lemma receive_loop_only:
  "receive_loop H env info intent port dst rel maker ps s = Inr ((evs, msgs), s') \<Longrightarrow> only_commits s s'"
proof (induction ps arbitrary: s evs msgs)
  case (Cons qa ps)
  obtain received s1 evs1 msgs1 where
    recv: "set_packet_receive (path_key H (receipt_path H (fst qa))) s = (received, s1)"
    and rest: "receive_loop H env info intent port dst rel maker ps s1 = Inr ((evs1, msgs1), s')"
    using Cons.prems by (cases qa) (auto simp: result_simps receipt_path_def split: prod.splits if_splits)
  have "only_commits s s1" using recv by (auto simp: set_packet_receive_def split: if_splits)
  then show ?case using Cons.IH [OF rest] only_commits_trans by blast
qed simp

text \<open>\<open>quiet_step H s s'\<close>: no end and no commitment of an end changed.\<close>

definition quiet_step :: "host \<Rightarrow> core_state \<Rightarrow> core_state \<Rightarrow> bool" where
  "quiet_step H s s' \<longleftrightarrow> same_ends s s' \<and> commits_only H (\<lambda>x. \<not> end_path x) s s'"

lemma quiet_store: "\<not> end_path p \<Longrightarrow> quiet_step H s (store_commit (path_key H p) v s)"
  unfolding quiet_step_def
  by (auto intro: only_commits_ends commits_only_mono [OF store_commit_commits_only])

lemma single_path_not_end: "single_path K x \<Longrightarrow> \<not> end_path x"
  by (auto simp: single_path_def)

lemma quiet_loop: "only_commits s s' \<Longrightarrow> commits_only H (single_path H) s s' \<Longrightarrow> quiet_step H s s'"
  unfolding quiet_step_def by (intro conjI only_commits_ends) (auto elim: commits_only_mono dest: single_path_not_end)

lemma quiet_send: "send_packet H caller src t d s = Inr (r, s') \<Longrightarrow> quiet_step H s s'"
  using send_packet_Inr quiet_store packet_paths_not(3) by metis

lemma quiet_write_ack: "write_acknowledgement H caller q a s = Inr (r, s') \<Longrightarrow> quiet_step H s s'"
  using write_acknowledgement_Inr quiet_store packet_paths_not(4) by metis

lemma quiet_timeout: "timeout_packet H info q pr h rel s = Inr (r, s') \<Longrightarrow> quiet_step H s s'"
  using timeout_packet_Inr quiet_store packet_paths_not(3) by metis

lemma quiet_batch_send: "batch_send H ps s = Inr (r, s') \<Longrightarrow> quiet_step H s s'"
  using batch_send_Inr [of H ps s r s'] quiet_store [of "BatchPackets (commit_packets H ps)"] by simp

lemma quiet_batch_acks: "batch_acks H ps acks s = Inr (r, s') \<Longrightarrow> quiet_step H s s'"
  using batch_acks_Inr [of H ps acks s r s'] quiet_store [of "BatchReceipts (commit_packets H ps)"] by simp

lemma quiet_receive: "process_receive H env info ps ms rel pr h intent s = Inr (r, s') \<Longrightarrow> quiet_step H s s'"
  using process_receive_Inr [of H env info ps ms rel pr h intent s r s']
  by (auto intro: quiet_loop dest: receive_loop_only receive_loop_commits)

lemma quiet_acknowledge:
  assumes "acknowledge_packet H info ps acks pr h rel s = Inr (r, s')"
  shows "quiet_step H s s'"
proof -
  obtain port src evs msgs where "acknowledge_loop H info port src rel (zip ps acks) s = Inr ((evs, msgs), s')"
    using assms by (auto simp: acknowledge_packet_def result_simps split: list.splits)
  then show ?thesis by (auto intro: quiet_loop dest: acknowledge_loop_only acknowledge_loop_commits)
qed

lemma client_path_not_end: "client_path x \<Longrightarrow> \<not> end_path x"
  by (cases x) simp_all

lemma quiet_client: "client_frame H s r s' \<Longrightarrow> quiet_step H s s'"
  unfolding client_frame_def quiet_step_def by (auto elim: commits_only_mono dest: client_path_not_end)

lemmas quiet_steps = quiet_send quiet_write_ack quiet_timeout quiet_batch_send quiet_batch_acks quiet_receive
  quiet_acknowledge client_frames [THEN quiet_client]

definition ends_step :: "host \<Rightarrow> core_state \<Rightarrow> core_state \<Rightarrow> bool" where
  "ends_step H s s' \<longleftrightarrow> quiet_step H s s' \<or> conn_step H s s' \<or> chan_step H s s'"

lemma ends_stepI:
  "quiet_step H s s' \<Longrightarrow> ends_step H s s'"
  "conn_step H s s' \<and> r_messages r = [] \<and> r_data r = None \<Longrightarrow> ends_step H s s'"
  "chan_step H s s' \<and> no_packet_msgs r \<Longrightarrow> ends_step H s s'"
  by (simp_all add: ends_step_def)

lemmas ends_steps = quiet_steps [THEN ends_stepI(1)] conn_steps [THEN ends_stepI(2)] chan_steps [THEN ends_stepI(3)]

lemma execute_ends_step:
  assumes "execute H env info msg s = Inr (r, s')"
  shows "ends_step H s s'"
  using assms
proof (cases rule: execute_cases)
  case (scheduled subs)
  then show ?thesis by (simp add: ends_stepI(1) quiet_step_def same_ends_def commits_only_refl)
next
  case (upgrade v)
  then show ?thesis by (simp add: ends_stepI(1) quiet_step_def same_ends_def commits_only_refl)
qed (erule ends_steps)+

section \<open>Well-formed states\<close>

definition conn_ok :: "connection \<Rightarrow> bool" where
  "conn_ok c \<longleftrightarrow> (co_state c = ConnInit \<longleftrightarrow> co_counterparty_connection_id c = None)"

definition chan_ok :: "channel \<Rightarrow> bool" where
  "chan_ok c \<longleftrightarrow> (ch_state c = ChanInit \<longleftrightarrow> ch_counterparty_channel_id c = None)"

definition conns_wf :: "core_state \<Rightarrow> bool" where
  "conns_wf s \<longleftrightarrow> (\<exists>n. next_connection_id s = Some n \<and>
     (\<forall>co c. connections s co = Some c \<longrightarrow> co < n \<and> conn_ok c))"

definition chans_wf :: "core_state \<Rightarrow> bool" where
  "chans_wf s \<longleftrightarrow> (\<exists>n. next_channel_id s = Some n \<and>
     (\<forall>ch c. channels s ch = Some c \<longrightarrow> ch < n \<and> chan_ok c \<and> connection_open_at s (ch_connection_id c) \<and>
        channel_owner s ch \<noteq> None) \<and>
     (\<forall>ch own. channel_owner s ch = Some own \<longrightarrow> ch < n \<and> channels s ch \<noteq> None) \<and>
     (\<forall>own cs. contract_channels s own = Some cs \<longrightarrow> (\<forall>ch \<in> cs. channel_owner s ch = Some own)))"

definition core_wf :: "core_state \<Rightarrow> bool" where
  "core_wf s \<longleftrightarrow> state_version s \<noteq> None \<and> conns_wf s \<and> chans_wf s"

lemma conn_new_ok: "conn_new c \<Longrightarrow> conn_ok c"
  by (auto simp: conn_new_def conn_ok_def)

lemma conn_trans_ok: "conn_trans c c' \<Longrightarrow> conn_ok c'"
  by (auto simp: conn_trans_def conn_ok_def)

lemma chan_new_ok: "chan_new c \<Longrightarrow> chan_ok c"
  by (auto simp: chan_new_def chan_ok_def)

lemma chan_trans_ok: "chan_trans c c' \<Longrightarrow> chan_ok c' \<and> ch_connection_id c' = ch_connection_id c"
  by (auto simp: chan_trans_def chan_ok_def)

lemma same_ends_wf: "same_ends s s' \<Longrightarrow> core_wf s \<Longrightarrow> core_wf s'"
  by (simp add: same_ends_def core_wf_def conns_wf_def chans_wf_def connection_open_at_def)

lemma fresh_connection: "conns_wf s \<Longrightarrow> next_connection_id s = Some n \<Longrightarrow> connections s n = None"
  unfolding conns_wf_def by (metis less_irrefl not_Some_eq option.inject)

lemma fresh_channel:
  assumes "chans_wf s" "next_channel_id s = Some n"
  shows "channels s n = None" "channel_owner s n = None" "contract_channels s own = Some cs \<Longrightarrow> n \<notin> cs"
proof -
  show *: "channels s n = None" "channel_owner s n = None"
    using assms unfolding chans_wf_def by (metis less_irrefl not_Some_eq option.inject)+
  show "contract_channels s own = Some cs \<Longrightarrow> n \<notin> cs"
    using assms * unfolding chans_wf_def by (metis option.distinct(1))
qed

text \<open>A connection step opens connections and closes none.\<close>

lemma conn_step_open_mono:
  assumes "conn_step H s s'" "conns_wf s" "connection_open_at s co"
  shows "connection_open_at s' co"
proof -
  obtain c where c: "connections s co = Some c" "co_state c = ConnOpen"
    using assms(3) unfolding connection_open_at_def by blast
  moreover from c have "next_connection_id s \<noteq> Some co" using fresh_connection [OF assms(2)] by auto
  ultimately show ?thesis
    using assms(1) unfolding conn_step_def connection_open_at_def by (auto simp: conn_trans_def)
qed

lemma conn_step_wf:
  assumes "conn_step H s s'" "core_wf s"
  shows "core_wf s'"
proof -
  have open_mono: "\<And>co. connection_open_at s co \<Longrightarrow> connection_open_at s' co"
    using conn_step_open_mono assms unfolding core_wf_def by blast
  have same: "channels s' = channels s" "channel_owner s' = channel_owner s" "next_channel_id s' = next_channel_id s"
    "contract_channels s' = contract_channels s" "state_version s' = state_version s"
    using assms(1) unfolding conn_step_def by auto
  obtain n where n: "next_connection_id s = Some n" "\<And>co c. connections s co = Some c \<Longrightarrow> co < n \<and> conn_ok c"
    using assms(2) unfolding core_wf_def conns_wf_def by blast
  from assms(1) have "conns_wf s'"
    unfolding conn_step_def
  proof (elim disjE exE conjE)
    fix co v c assume "next_connection_id s = Some co" "id_checked_add co 1 = Some v" "conn_new c"
      "s' = save_connection H co c (s\<lparr>next_connection_id := Some v\<rparr>)"
    moreover from this have "n < v" using n(1) id_checked_add_one(2) by simp
    ultimately show ?thesis using n conn_new_ok unfolding conns_wf_def by (auto intro: order.strict_trans)
  next
    fix co c c' assume "connections s co = Some c" "conn_trans c c'" "s' = save_connection H co c' s"
    then show ?thesis using n conn_trans_ok unfolding conns_wf_def by auto
  qed
  moreover have "chans_wf s'"
    using assms(2) open_mono unfolding core_wf_def chans_wf_def same by blast
  ultimately show ?thesis using assms(2) same by (simp add: core_wf_def)
qed

lemma chan_step_wf:
  assumes "chan_step H s s'" "core_wf s"
  shows "core_wf s'"
proof -
  have wf: "chans_wf s" "conns_wf s" using assms(2) by (simp_all add: core_wf_def)
  then obtain n where n: "next_channel_id s = Some n"
    and chans: "\<And>ch c. channels s ch = Some c \<Longrightarrow> ch < n \<and> chan_ok c \<and> connection_open_at s (ch_connection_id c) \<and>
        channel_owner s ch \<noteq> None"
    and owners: "\<And>ch own. channel_owner s ch = Some own \<Longrightarrow> ch < n \<and> channels s ch \<noteq> None"
    and sets: "\<And>own cs ch. contract_channels s own = Some cs \<Longrightarrow> ch \<in> cs \<Longrightarrow> channel_owner s ch = Some own"
    unfolding chans_wf_def by blast
  have same: "connections s' = connections s" "next_connection_id s' = next_connection_id s"
    "state_version s' = state_version s"
    using assms(1) unfolding chan_step_def by (auto simp: add_channel_def)
  then have open_same: "connection_open_at s' = connection_open_at s" by (simp add: connection_open_at_def fun_eq_iff)
  from assms(1) have "chans_wf s'"
    unfolding chan_step_def
  proof (elim disjE exE conjE)
    fix ch v own c assume new: "next_channel_id s = Some ch" "id_checked_add ch 1 = Some v" "chan_new c"
      "connection_open_at s (ch_connection_id c)" and s': "s' = add_channel H ch own c v s"
    have v: "n = ch" "n < v" using new n id_checked_add_one(2) by simp_all
    note fresh = fresh_channel [OF wf(1) n]
    show ?thesis unfolding chans_wf_def open_same
    proof (intro exI [of _ v] conjI allI impI ballI)
      show "next_channel_id s' = Some v" by (simp add: s' add_channel_def)
    next
      fix ch' c' assume "channels s' ch' = Some c'"
      then show "ch' < v" "chan_ok c'" "connection_open_at s (ch_connection_id c')" "channel_owner s' ch' \<noteq> None"
        using chans new v chan_new_ok by (auto simp: s' add_channel_def split: if_splits intro: order.strict_trans)
    next
      fix ch' own' assume "channel_owner s' ch' = Some own'"
      then show "ch' < v" "channels s' ch' \<noteq> None"
        using owners v by (auto simp: s' add_channel_def split: if_splits intro: order.strict_trans)
    next
      fix own' cs ch' assume "contract_channels s' own' = Some cs" "ch' \<in> cs"
      then show "channel_owner s' ch' = Some own'"
        using sets fresh(3) v
        by (auto simp: s' add_channel_def split: if_splits option.splits)
    qed
  next
    fix ch c c' assume "channels s ch = Some c" "chan_trans c c'" "connection_open_at s (ch_connection_id c)"
      "s' = save_channel H ch c' s"
    then show ?thesis using n chans owners sets chan_trans_ok unfolding chans_wf_def open_same
      by (intro exI [of _ n]) (auto split: if_splits)
  qed
  moreover have "conns_wf s'" using wf(2) same by (simp add: conns_wf_def)
  ultimately show ?thesis using assms(2) same by (simp add: core_wf_def)
qed

lemma execute_wf: "execute H env info msg s = Inr (r, s') \<Longrightarrow> core_wf s \<Longrightarrow> core_wf s'"
  using execute_ends_step same_ends_wf conn_step_wf chan_step_wf unfolding ends_step_def quiet_step_def by blast

lemma reply_wf: "reply i ok s = Inr (r, s') \<Longrightarrow> core_wf s \<Longrightarrow> core_wf s'"
  using reply_Inr [of i ok s r s'] same_ends_wf [of s s'] by (auto simp: same_ends_def)

lemma migrate_wf: "migrate m s = Inr (r, s') \<Longrightarrow> core_wf s \<Longrightarrow> core_wf s'"
  using migrate_Inr [of m s r s'] by (auto simp: core_wf_def)

lemma run_wf: "core_run K s0 tr s \<Longrightarrow> core_wf s0 \<Longrightarrow> core_wf s"
  by (induction rule: core_run.induct) (auto intro: execute_wf reply_wf migrate_wf)

lemma init_wf:
  assumes "migrate (UpgradeInit a) empty_state = Inr (r, s)"
  shows "core_wf s"
  using migrate_Inr [OF assms]
  by (auto simp: empty_state_def core_wf_def conns_wf_def chans_wf_def access_managed_init_def)

lemma reachable_wf: "core_reachable K tr s \<Longrightarrow> core_wf s"
  unfolding core_reachable_def using run_wf init_wf by blast

section \<open>No call of a deployed contract panics\<close>

definition no_panic :: "contract_error + 'a \<Rightarrow> bool" where
  "no_panic m \<longleftrightarrow> (\<forall>x. m \<noteq> Inl (Panic x))"

named_theorems np_intros \<open>rules that take a handler apart, one per statement\<close>

lemma no_panic_Inr [np_intros]: "no_panic (Inr a)"
  by (simp add: no_panic_def)

lemma no_panic_Inl [np_intros]: "(\<And>x. e \<noteq> Panic x) \<Longrightarrow> no_panic (Inl e)"
  by (simp add: no_panic_def)

lemma no_panic_bindE [np_intros]: "no_panic m \<Longrightarrow> (\<And>a. m = Inr a \<Longrightarrow> no_panic (f a)) \<Longrightarrow> no_panic (bindE m f)"
  by (cases m) (auto simp: no_panic_def)

lemma no_panic_ensureE [np_intros]: "(\<And>x. e \<noteq> Panic x) \<Longrightarrow> no_panic (ensureE b e)"
  by (simp add: no_panic_def ensureE_def)

lemma no_panic_ok_or [np_intros]: "(v = None \<Longrightarrow> no_panic (Inl e :: contract_error + 'a)) \<Longrightarrow> no_panic (ok_or e v :: contract_error + 'a)"
  by (cases v) (auto simp: no_panic_def)

lemma no_panic_map_err [np_intros]: "(\<And>e x. g e \<noteq> Panic x) \<Longrightarrow> no_panic (map_err g m)"
  by (cases m) (auto simp: no_panic_def)

lemma no_panic_if [np_intros]: "(b \<Longrightarrow> no_panic m) \<Longrightarrow> (\<not> b \<Longrightarrow> no_panic m') \<Longrightarrow> no_panic (if b then m else m')"
  by simp

lemma no_panic_option [np_intros]:
  "(v = None \<Longrightarrow> no_panic m) \<Longrightarrow> (\<And>a. v = Some a \<Longrightarrow> no_panic (f a)) \<Longrightarrow> no_panic (case v of None \<Rightarrow> m | Some a \<Rightarrow> f a)"
  by (cases v) auto

lemma no_panic_prod [np_intros]: "(\<And>a b. v = (a, b) \<Longrightarrow> no_panic (f a b)) \<Longrightarrow> no_panic (case v of (a, b) \<Rightarrow> f a b)"
  by (cases v) auto

lemma no_panic_prod_app [np_intros]:
  "(\<And>a b. v = (a, b) \<Longrightarrow> no_panic (f a b c)) \<Longrightarrow> no_panic ((case v of (a, b) \<Rightarrow> f a b) c)"
  by (cases v) auto

lemma no_panic_Let [np_intros]: "(\<And>a. a = v \<Longrightarrow> no_panic (f a)) \<Longrightarrow> no_panic (let a = v in f a)"
  by simp

lemma no_panic_sread [np_intros]: "no_panic (sread m k)"
  unfolding sread_def not_present_def by (intro np_intros) simp

lemma no_panic_validate [np_intros]: "no_panic (validate H a)"
  unfolding validate_def by (intro np_intros) simp

lemma no_panic_query [np_intros]: "no_panic (query_light_client f s i q)"
  unfolding query_light_client_def by (intro np_intros) simp

lemma no_panic_calls [np_intros]:
  "no_panic (client_impl s cl)" "no_panic (verify_membership H s i cl h pr path v)"
  "no_panic (get_timestamp_at_height H s cl h)" "no_panic (take_next_client_id s)"
  "no_panic (take_next_connection_id s)" "no_panic (take_next_channel_id s)"
  unfolding client_impl_def verify_membership_def get_timestamp_at_height_def take_next_client_id_def
    take_next_connection_id_def take_next_channel_id_def not_present_def
  by (intro np_intros; simp)+

lemma no_panic_states [np_intros]:
  "no_panic (ensure_connection_state s co)" "no_panic (ensure_channel_state s ch)"
  "no_panic (verify_connection H v cl h pr cco e s)" "no_panic (verify_channel H v i cl h pr cch e' s)"
  unfolding ensure_connection_state_def ensure_channel_state_def verify_connection_def verify_channel_def
  by (intro np_intros; simp)+

lemma no_panic_clients:
  "no_panic (register_client t a s)" "no_panic (init_client H info cs cons rel i cl s)"
  "no_panic (create_client H info t cs cons rel s)" "no_panic (force_update_client H info cl cs cons s)"
  "no_panic (update_client H info cl m rel s)" "no_panic (misbehaviour H info cl m rel s)"
  "no_panic (migrate_state H a cl cs cons h s)" "no_panic (commit_membership_proof H cl h pr path v s)"
  "no_panic (commit_non_membership_proof H cl h pr path s)"
proof -
  show init: "no_panic (init_client H info cs cons rel i cl s)" for H info cs cons rel i cl s
    unfolding init_client_def by (intro np_intros)
  show "no_panic (create_client H info t cs cons rel s)" "no_panic (force_update_client H info cl cs cons s)"
    unfolding create_client_def force_update_client_def by ((intro np_intros init)[1])+
qed (unfold register_client_def update_client_def misbehaviour_def migrate_state_def commit_membership_proof_def
    commit_non_membership_proof_def, (intro np_intros; simp)+)

text \<open>The \<open>expect\<close>s of the handshake hold in well-formed states.\<close>

lemma wf_connection_counterparty:
  "core_wf s \<Longrightarrow> connections s co = Some c \<Longrightarrow> co_state c \<noteq> ConnInit \<Longrightarrow> co_counterparty_connection_id c \<noteq> None"
  unfolding core_wf_def conns_wf_def conn_ok_def by blast

lemma wf_channel_counterparty:
  "core_wf s \<Longrightarrow> channels s ch = Some c \<Longrightarrow> ch_state c \<noteq> ChanInit \<Longrightarrow> ch_counterparty_channel_id c \<noteq> None"
  unfolding core_wf_def chans_wf_def chan_ok_def by blast

lemma no_panic_connections:
  assumes "core_wf s"
  shows "no_panic (connection_open_init H cl ccl s)" "no_panic (connection_open_try H ccl cco cl pr h v s)"
    "no_panic (connection_open_ack H co cco pr h v s)" "no_panic (connection_open_confirm H co pr h v s)"
  unfolding connection_open_init_def connection_open_try_def connection_open_ack_def connection_open_confirm_def
  by (intro np_intros; use wf_connection_counterparty [OF assms] in \<open>auto simp: result_simps\<close>)+

lemma no_panic_create_channel:
  assumes "core_wf s"
  shows "no_panic (create_channel H own c s)"
  unfolding create_channel_def
  by (intro np_intros; use assms fresh_channel(3) [of s] in \<open>auto simp: core_wf_def take_next_channel_id_Inr\<close>)

lemma no_panic_channels:
  assumes "core_wf s"
  shows "no_panic (channel_open_init H info port cport co ver rel s)"
    "no_panic (channel_open_try H info port c cver pr h rel v s)"
    "no_panic (channel_open_ack H info ch cver cch pr h rel v s)"
    "no_panic (channel_open_confirm H info ch pr h rel v s)"
    "no_panic (channel_close_init H info ch rel s)" "no_panic (channel_close_confirm H info ch pr h rel s)"
  unfolding channel_open_init_def channel_open_try_def channel_open_ack_def channel_open_confirm_def
    channel_close_init_def channel_close_confirm_def
  by (intro np_intros no_panic_create_channel [OF assms];
      use wf_connection_counterparty [OF assms] wf_channel_counterparty [OF assms] in \<open>force simp: result_simps\<close>)+

lemma no_panic_loops:
  "no_panic (batch_send_loop H ch b ps s)" "no_panic (batch_acks_loop H ch b pas s)"
  "no_panic (mark_packet_as_acknowledged H p s)" "no_panic (acknowledge_loop H info port src rel pas s)"
  "no_panic (receive_loop H env info intent port dst relayer maker pas s)"
proof -
  show "no_panic (batch_send_loop H ch b ps s)"
    by (induction ps) (auto intro!: np_intros)
  show "no_panic (batch_acks_loop H ch b pas s)"
    by (induction pas) (auto intro!: np_intros)
  show mark: "no_panic (mark_packet_as_acknowledged H p s)" for p s
    unfolding mark_packet_as_acknowledged_def by (intro np_intros; simp)
  show "no_panic (acknowledge_loop H info port src rel pas s)"
    by (induction pas arbitrary: s) (auto intro!: np_intros mark)
  show "no_panic (receive_loop H env info intent port dst relayer maker pas s)"
    by (induction pas arbitrary: s) (auto intro!: np_intros)
qed

lemma no_panic_list [np_intros]:
  "(v = [] \<Longrightarrow> no_panic m) \<Longrightarrow> (\<And>a as. v = a # as \<Longrightarrow> no_panic (f a as)) \<Longrightarrow> no_panic (case v of [] \<Rightarrow> m | a # as \<Rightarrow> f a as)"
  by (cases v) auto

lemma no_panic_packets:
  assumes "core_wf s"
  shows "no_panic (send_packet H caller src t d s)" "no_panic (batch_send H ps s)"
    "no_panic (write_acknowledgement H caller p ack s)" "no_panic (batch_acks H ps acks s)"
    "no_panic (acknowledge_packet H info ps acks pr h rel s)" "no_panic (timeout_packet H info p pr h rel s)"
    "no_panic (process_receive H env info ps ms relayer pr h intent s)"
  unfolding send_packet_def batch_send_def write_acknowledgement_def batch_acks_def acknowledge_packet_def
    timeout_packet_def process_receive_def
  by (intro np_intros no_panic_loops; use wf_channel_counterparty [OF assms] in \<open>force simp: result_simps\<close>)+

lemma no_panic_access:
  "no_panic (ensure_can_call H env info m s)" "no_panic (set_authority H info a s)"
proof -
  show "no_panic (ensure_can_call H env info m s)"
    unfolding ensure_can_call_def am_read_def by (intro np_intros; auto split: can_call.split intro: np_intros)
  show "no_panic (set_authority H info a s)"
    unfolding set_authority_def am_read_def by (intro np_intros; auto split: sum.split intro: np_intros)
qed

lemma no_panic_restricted: "core_wf s \<Longrightarrow> no_panic (execute_restricted H env info m s)"
  by (cases m)
    (simp_all only: execute_restricted.simps,
      (intro np_intros no_panic_clients no_panic_connections no_panic_channels no_panic_packets; assumption)+)



end
