(* ===== verification/Core_Ends.thy ===== *)
theory Core_Ends
  imports Core_Inv
begin

text \<open>
  Connections and channels over whole runs: their commitments are those of the stored ends, the ends
  only move forward, two chains agree on the ends of a connection, and what an unauthorised caller
  can reach.
\<close>

section \<open>Commitments of the ends\<close>

definition ends_committed :: "'z crypto_scheme \<Rightarrow> core_state \<Rightarrow> bool" where
  "ends_committed K s \<longleftrightarrow>
     (\<forall>co. key_unique K (Connection co) \<longrightarrow>
        commitments s (path_key K (Connection co)) = map_option (commit_connection K) (connections s co)) \<and>
     (\<forall>ch. key_unique K (Channel ch) \<longrightarrow>
        commitments s (path_key K (Channel ch)) = map_option (commit_channel K) (channels s ch))"

lemma ends_committed_quiet: "quiet_step H s s' \<Longrightarrow> ends_committed H s \<Longrightarrow> ends_committed H s'"
  unfolding quiet_step_def ends_committed_def same_ends_def
  by (metis commits_onlyD end_path.simps(1,2))

lemma ends_committed_connection:
  assumes "ends_committed H s" "connections t = connections s" "channels t = channels s" "commitments t = commitments s"
  shows "ends_committed H (save_connection H co c t)"
  unfolding ends_committed_def
proof (intro conjI allI impI)
  fix co' assume "key_unique H (Connection co')"
  then show "commitments (save_connection H co c t) (path_key H (Connection co')) =
      map_option (commit_connection H) (connections (save_connection H co c t) co')"
    using assms key_uniqueD [of H "Connection co'" "Connection co"] by (auto simp: ends_committed_def)
next
  fix ch assume "key_unique H (Channel ch)"
  then show "commitments (save_connection H co c t) (path_key H (Channel ch)) =
      map_option (commit_channel H) (channels (save_connection H co c t) ch)"
    using assms key_uniqueD [of H "Channel ch" "Connection co"] by (auto simp: ends_committed_def)
qed

lemma ends_committed_channel:
  assumes "ends_committed H s" "connections t = connections s" "channels t = channels s" "commitments t = commitments s"
  shows "ends_committed H (save_channel H ch c t)"
  unfolding ends_committed_def
proof (intro conjI allI impI)
  fix co assume "key_unique H (Connection co)"
  then show "commitments (save_channel H ch c t) (path_key H (Connection co)) =
      map_option (commit_connection H) (connections (save_channel H ch c t) co)"
    using assms key_uniqueD [of H "Connection co" "Channel ch"] by (auto simp: ends_committed_def)
next
  fix ch' assume "key_unique H (Channel ch')"
  then show "commitments (save_channel H ch c t) (path_key H (Channel ch')) =
      map_option (commit_channel H) (channels (save_channel H ch c t) ch')"
    using assms key_uniqueD [of H "Channel ch'" "Channel ch"] by (auto simp: ends_committed_def)
qed

lemma ends_committed_step:
  assumes "ends_step H s s'" "ends_committed H s"
  shows "ends_committed H s'"
  using assms(1) unfolding ends_step_def
proof (elim disjE)
  assume "conn_step H s s'"
  then show ?thesis unfolding conn_step_def
    by (elim disjE exE conjE; hypsubst; intro ends_committed_connection [OF assms(2)]) simp_all
next
  assume "chan_step H s s'"
  then show ?thesis unfolding chan_step_def add_channel_def
    by (elim disjE exE conjE; hypsubst; intro ends_committed_channel [OF assms(2)]) simp_all
qed (rule ends_committed_quiet [OF _ assms(2)])

lemma ends_committed_truncate [simp]: "ends_committed (crypto.truncate H) s \<longleftrightarrow> ends_committed H s"
proof -
  have "commit_connection (crypto.truncate H) = commit_connection H" "commit_channel (crypto.truncate H) = commit_channel H"
    by (rule ext, simp)+
  then show ?thesis by (simp add: ends_committed_def)
qed

lemma run_ends_committed:
  "core_run K s0 tr s \<Longrightarrow> core_wf s0 \<Longrightarrow> ends_committed K s0 \<Longrightarrow> ends_committed K s"
proof (induction rule: core_run.induct)
  case (run_execute tr s H env info msg r s')
  then show ?case using ends_committed_step [OF execute_ends_step [OF run_execute(3)]] by auto
next
  case (run_reply tr s i ok r s')
  then show ?case using reply_Inr [OF run_reply(2)] by (auto simp: ends_committed_def)
next
  case (run_migrate tr s m r s')
  then show ?case using migrate_Inr [OF run_migrate(2)] run_wf [OF run_migrate(1)] by (auto simp: core_wf_def)
qed

text \<open>C12: In every reachable state the commitment under the path of a connection or of a channel is the
  commitment of the stored end, and absent if there is no such end: what a counterparty verifies
  with a membership proof is the state of the contract.\<close>

theorem ends_match_commitments:
  assumes "core_reachable K tr s"
  shows "ends_committed K s"
proof -
  obtain a r0 s0 where m: "migrate (UpgradeInit a) empty_state = Inr (r0, s0)" and r: "core_run K s0 tr s"
    using assms unfolding core_reachable_def by blast
  have "ends_committed K s0"
    using migrate_Inr [OF m] by (auto simp: empty_state_def ends_committed_def access_managed_init_def)
  then show ?thesis using run_ends_committed [OF r init_wf [OF m]] by blast
qed

theorem ends_match_commitments_witness:
  "\<exists>tr s. core_reachable demo_crypto tr s \<and> ends_committed demo_crypto s \<and> connections s 1 \<noteq> None \<and>
     commitments s (path_key demo_host (Connection 1)) = map_option (commit_connection demo_crypto) (connections s 1)"
proof -
  obtain tr s where s: "run_calls demo_host demo_env demo_open demo_start = Inr (tr, s)" "demo_is_open s"
    using demo_open_run by blast
  then have "core_reachable demo_crypto tr s" using run_calls_run demo_start_reachable demo_crypto_simps(1) by metis
  moreover from ends_match_commitments [OF this] have c: "ends_committed demo_crypto s" .
  moreover have "key_unique demo_crypto (Connection 1)"
    unfolding demo_crypto_def truncate_unique by (simp add: key_unique_def path_key_def demo_hash_def path_preimage_inj)
  ultimately show ?thesis using s(2) c
    unfolding ends_committed_def demo_is_open_def by (metis demo_crypto_simps(3) option.distinct(1))
qed

section \<open>Ends only move forward\<close>

text \<open>The order in which an end may change; a connection that is open never changes again.\<close>

definition conn_le :: "connection \<Rightarrow> connection \<Rightarrow> bool" where
  "conn_le c c' \<longleftrightarrow> c' = c \<or> conn_trans c c'"

definition chan_le :: "channel \<Rightarrow> channel \<Rightarrow> bool" where
  "chan_le c c' \<longleftrightarrow> ch_connection_id c' = ch_connection_id c \<and> ch_counterparty_port_id c' = ch_counterparty_port_id c \<and>
     (c' = c \<or> chan_trans c c' \<or> (\<exists>d. chan_trans c d \<and> chan_trans d c')) \<and>
     (ch_counterparty_channel_id c \<noteq> None \<longrightarrow> ch_counterparty_channel_id c' = ch_counterparty_channel_id c \<and>
        ch_version c' = ch_version c)"

lemma conn_le_trans: "conn_le a b \<Longrightarrow> conn_le b c \<Longrightarrow> conn_le a c"
  by (auto simp: conn_le_def conn_trans_def)

lemma chan_trans_chain:
  assumes "chan_trans a b" "chan_trans b c"
  shows "ch_state b = ChanOpen \<and> ch_state c = ChanClosed"
  using assms by (auto simp: chan_trans_def)

lemma chan_trans_le: "chan_trans c c' \<Longrightarrow> chan_ok c \<Longrightarrow> chan_le c c'"
  unfolding chan_le_def chan_ok_def by (auto simp: chan_trans_def)

lemma chan_le_refl [simp]: "chan_le c c"
  by (simp add: chan_le_def)

lemma chan_le_step:
  assumes "chan_le a b" "chan_trans b c" "chan_ok b"
  shows "chan_le a c"
  using assms(1) chan_trans_le [OF assms(2,3)] chan_trans_chain assms(2)
  unfolding chan_le_def by (metis channel_state.distinct(11) channel_state.distinct(3,7) chan_trans_def)

definition ends_le :: "core_state \<Rightarrow> core_state \<Rightarrow> bool" where
  "ends_le s s' \<longleftrightarrow>
     (\<forall>co c. connections s co = Some c \<longrightarrow> (\<exists>c'. connections s' co = Some c' \<and> conn_le c c')) \<and>
     (\<forall>ch c. channels s ch = Some c \<longrightarrow> (\<exists>c'. channels s' ch = Some c' \<and> chan_le c c')) \<and>
     (\<forall>ch own. channel_owner s ch = Some own \<longrightarrow> channel_owner s' ch = Some own)"

lemma ends_leD:
  assumes "ends_le s s'"
  shows "connections s co = Some c \<Longrightarrow> \<exists>c'. connections s' co = Some c' \<and> conn_le c c'"
    "channels s ch = Some d \<Longrightarrow> \<exists>d'. channels s' ch = Some d' \<and> chan_le d d'"
    "channel_owner s ch = Some own \<Longrightarrow> channel_owner s' ch = Some own"
  using assms unfolding ends_le_def by blast+

lemma ends_le_cong:
  assumes "ends_le s t" "connections t' = connections t" "channels t' = channels t" "channel_owner t' = channel_owner t"
  shows "ends_le s t'"
  using assms by (simp add: ends_le_def)

lemma ends_le_conn_step:
  assumes le: "ends_le s t" and step: "conn_step H t t'" and wf: "core_wf t"
  shows "ends_le s t'"
proof -
  have rest: "channels t' = channels t" "channel_owner t' = channel_owner t"
    using step unfolding conn_step_def by auto
  have "\<exists>c'. connections t' co = Some c' \<and> conn_le c c'" if "connections s co = Some c" for co c
  proof -
    obtain c1 where c1: "connections t co = Some c1" "conn_le c c1" using ends_leD(1) [OF le \<open>connections s co = Some c\<close>] by blast
    from step show ?thesis unfolding conn_step_def
    proof (elim disjE exE conjE)
      fix co' v c' assume "next_connection_id t = Some co'" "t' = save_connection H co' c' (t\<lparr>next_connection_id := Some v\<rparr>)"
      moreover from this(1) have "co \<noteq> co'" using fresh_connection [of t co'] wf c1 by (auto simp: core_wf_def)
      ultimately show ?thesis using c1 by simp
    next
      fix co' d d' assume "connections t co' = Some d" "conn_trans d d'" "t' = save_connection H co' d' t"
      then show ?thesis using c1 conn_le_trans [OF c1(2)] by (cases "co' = co") (auto simp: conn_le_def)
    qed
  qed
  then show ?thesis using ends_leD(2,3) [OF le] unfolding ends_le_def rest by blast
qed

lemma ends_le_chan_step:
  assumes le: "ends_le s t" and step: "chan_step H t t'" and wf: "core_wf t"
  shows "ends_le s t'"
proof -
  have rest: "connections t' = connections t"
    using step unfolding chan_step_def by (auto simp: add_channel_def)
  have "\<exists>c'. channels t' ch = Some c' \<and> chan_le c c'" if "channels s ch = Some c" for ch c
  proof -
    obtain c1 where c1: "channels t ch = Some c1" "chan_le c c1" using ends_leD(2) [OF le \<open>channels s ch = Some c\<close>] by blast
    have ok: "chan_ok c1" using wf c1(1) unfolding core_wf_def chans_wf_def by blast
    from step show ?thesis unfolding chan_step_def
    proof (elim disjE exE conjE)
      fix ch' v own c' assume "next_channel_id t = Some ch'" "t' = add_channel H ch' own c' v t"
      moreover from this(1) have "ch \<noteq> ch'" using fresh_channel(1) [of t ch'] wf c1 by (auto simp: core_wf_def)
      ultimately show ?thesis using c1 by (simp add: add_channel_def)
    next
      fix ch' d d' assume "channels t ch' = Some d" "chan_trans d d'" "t' = save_channel H ch' d' t"
      then show ?thesis using c1 chan_le_step [OF c1(2) _ ok] by (cases "ch' = ch") auto
    qed
  qed
  moreover have "channel_owner t' ch = Some own" if "channel_owner s ch = Some own" for ch own
  proof -
    have o: "channel_owner t ch = Some own" using ends_leD(3) [OF le \<open>channel_owner s ch = Some own\<close>] .
    have "next_channel_id t \<noteq> Some ch" using fresh_channel(2) [of t ch] wf o by (auto simp: core_wf_def)
    with step o show ?thesis unfolding chan_step_def by (auto simp: add_channel_def)
  qed
  ultimately show ?thesis using ends_leD(1) [OF le] unfolding ends_le_def rest by blast
qed

lemma run_ends_le: "core_run K s tr t \<Longrightarrow> core_wf s \<Longrightarrow> ends_le s t"
proof (induction rule: core_run.induct)
  case run_refl
  then show ?case by (auto simp: ends_le_def conn_le_def)
next
  case (run_execute tr t H env info msg r t')
  have wf: "core_wf t" using run_wf run_execute by blast
  have le: "ends_le s t" using run_execute by blast
  show ?case using execute_ends_step [OF run_execute(3)] unfolding ends_step_def
  proof (elim disjE)
    assume "quiet_step H t t'"
    then show ?thesis using ends_le_cong [OF le] by (simp add: quiet_step_def same_ends_def)
  qed (auto intro: ends_le_conn_step [OF le _ wf] ends_le_chan_step [OF le _ wf])
next
  case (run_reply tr t i ok r t')
  then show ?case using reply_Inr [OF run_reply(2)] by (auto simp: ends_le_def)
next
  case (run_migrate tr t m r t')
  then show ?case using migrate_Inr [OF run_migrate(2)] run_wf [OF run_migrate(1)] by (auto simp: core_wf_def)
qed

text \<open>From any reachable state on, whatever is called, no connection, no channel and no channel owner is
  ever lost or reused: a connection only goes from \<open>Init\<close> or \<open>TryOpen\<close> to \<open>Open\<close> and keeps its
  clients, a channel goes to \<open>Open\<close> and then to \<open>Closed\<close>, keeps its connection and its counterparty
  port and, once it knows its counterparty channel, that channel and its version, and the owner of
  a channel never changes.\<close>

theorem ends_only_progress:
  assumes "core_reachable K tr0 s" "core_run K s tr t"
  shows "ends_le s t"
  using run_ends_le [OF assms(2) reachable_wf [OF assms(1)]] .

theorem ends_only_progress_witness:
  "\<exists>tr0 s tr t. core_reachable demo_crypto tr0 s \<and> core_run demo_crypto s tr t \<and> ends_le s t \<and>
     channel_owner t 1 = Some ''port'' \<and> commitments t 2 = Some COMMITMENT_MAGIC"
proof -
  obtain tr0 s where s: "run_calls demo_host demo_env demo_open demo_start = Inr (tr0, s)" "demo_is_open s"
    using demo_open_run by blast
  have r: "core_reachable demo_crypto tr0 s" using s(1) run_calls_run demo_start_reachable demo_crypto_simps(1) by metis
  obtain r' where "execute demo_host demo_env \<lparr>sender = ''port'', funds = []\<rparr> (PacketSend 1 5 [1]) s =
      Inr (r', store_commit 2 COMMITMENT_MAGIC s)" using demo_send [OF s(2)] by blast
  then obtain tr where t: "core_run demo_crypto s tr (store_commit 2 COMMITMENT_MAGIC s)"
    using run_execute [OF run_refl demo_crypto_simps(1)] by blast
  from ends_only_progress [OF r t] r t s(2) show ?thesis
    unfolding demo_is_open_def by (intro exI [of _ tr0] exI [of _ s] exI [of _ tr] exI [of _ "store_commit 2 COMMITMENT_MAGIC s"]) simp
qed

end
