(* ===== verification/Core_Agree.thy ===== *)
theory Core_Agree
  imports Core_Ends
begin

text \<open>
  Agreement of two chains on the ends of a connection and of a channel, and access control.
\<close>

section \<open>Agreement\<close>

text \<open>No other end has this commitment.\<close>

definition connection_unique :: "'z crypto_scheme \<Rightarrow> connection \<Rightarrow> bool" where
  "connection_unique K c \<longleftrightarrow> (\<forall>d. commit_connection K d = commit_connection K c \<longrightarrow> d = c)"

definition channel_unique :: "'z crypto_scheme \<Rightarrow> channel \<Rightarrow> bool" where
  "channel_unique K c \<longleftrightarrow> (\<forall>d. commit_channel K d = commit_channel K c \<longrightarrow> d = c)"

lemma history_wf:
  assumes "on_history K view tr t" "view h = Some (s1, ts)"
  shows "ends_committed K s1 \<and> ends_le s1 t"
proof -
  obtain tr1 tr2 where "core_reachable K tr1 s1" "core_run K s1 tr2 t"
    using assms unfolding on_history_def by blast
  then show ?thesis using ends_match_commitments run_ends_le reachable_wf by blast
qed

lemma proved_connection:
  assumes "client_tracks H s cl view" "client_impls s cl = Some impl"
    and "q_unit H impl s (VerifyMembership cl h pr (h256_bytes (path_key H (Connection cco)))
      (h256_bytes (commit_connection H e))) = Inr ()"
    and "on_history (crypto.truncate H) view tr t" "key_unique H (Connection cco)" "connection_unique H e"
  shows "\<exists>d. connections t cco = Some d \<and> conn_le e d"
proof -
  obtain s1 ts where v: "view h = Some (s1, ts)"
    and k: "commitments s1 (path_key H (Connection cco)) = Some (commit_connection H e)"
    using client_tracksD(2) [OF assms(1-3)] by auto
  have "ends_committed H s1" "ends_le s1 t" using history_wf [OF assms(4) v] by simp_all
  moreover from this(1) k assms(5) obtain d where "connections s1 cco = Some d" "commit_connection H d = commit_connection H e"
    unfolding ends_committed_def by fastforce
  ultimately show ?thesis using assms(6) ends_leD(1) unfolding connection_unique_def by metis
qed

lemma proved_channel:
  assumes "client_tracks H s cl view" "client_impls s cl = Some impl"
    and "q_unit H impl s (VerifyMembership cl h pr (h256_bytes (path_key H (Channel cch)))
      (h256_bytes (commit_channel H e))) = Inr ()"
    and "on_history (crypto.truncate H) view tr t" "key_unique H (Channel cch)" "channel_unique H e"
  shows "\<exists>d. channels t cch = Some d \<and> chan_le e d"
proof -
  obtain s1 ts where v: "view h = Some (s1, ts)"
    and k: "commitments s1 (path_key H (Channel cch)) = Some (commit_channel H e)"
    using client_tracksD(2) [OF assms(1-3)] by auto
  have "ends_committed H s1" "ends_le s1 t" using history_wf [OF assms(4) v] by simp_all
  moreover from this(1) k assms(5) obtain d where "channels s1 cch = Some d" "commit_channel H d = commit_channel H e"
    unfolding ends_committed_def by fastforce
  ultimately show ?thesis using assms(6) ends_leD(2) unfolding channel_unique_def by metis
qed

definition mirror_connection :: "connection_id \<Rightarrow> connection \<Rightarrow> connection" where
  "mirror_connection co c = \<lparr>co_state = ConnTryOpen, co_client_id = co_counterparty_client_id c,
     co_counterparty_client_id = co_client_id c, co_counterparty_connection_id = Some co\<rparr>"

text \<open>C13: When a connection is opened by a verified acknowledgement, the counterparty chain has the other end,
  now and for ever: it points back to this connection and the two ends name each other's clients,
  if the light client is right about the counterparty and the commitment of the expected end is
  not shared with another one.\<close>

theorem connection_ack_agreement:
  assumes "connection_open_ack H co cco pr h True s = Inr (r, s')" "connections s co = Some c"
    and "client_tracks H s (co_client_id c) view" "on_history (crypto.truncate H) view tr t"
    and "key_unique H (Connection cco)" "connection_unique H (mirror_connection co c)"
  shows "\<exists>d e. connections s' co = Some d \<and> connections t cco = Some e \<and>
    co_state d = ConnOpen \<and> co_state e \<noteq> ConnInit \<and>
    co_counterparty_connection_id d = Some cco \<and> co_counterparty_connection_id e = Some co \<and>
    co_client_id e = co_counterparty_client_id d \<and> co_counterparty_client_id e = co_client_id d"
proof -
  obtain impl where impl: "client_impls s (co_client_id c) = Some impl"
    and q: "q_unit H impl s (VerifyMembership (co_client_id c) h pr (h256_bytes (path_key H (Connection cco)))
      (h256_bytes (commit_connection H (mirror_connection co c)))) = Inr ()"
    and s': "s' = save_connection H co (c\<lparr>co_state := ConnOpen, co_counterparty_connection_id := Some cco\<rparr>) s"
    using assms(1,2) by (auto simp: connection_open_ack_def result_simps verify_connection_def client_impl_def
        verify_membership_def query_light_client_def mirror_connection_def)
  obtain e where "connections t cco = Some e" "conn_le (mirror_connection co c) e"
    using proved_connection [OF assms(3) impl q assms(4-6)] by blast
  then show ?thesis by (auto simp: s' conn_le_def conn_trans_def mirror_connection_def)
qed

lemma chan_le_not_init:
  assumes "chan_le c e" "ch_state c \<noteq> ChanInit"
  shows "ch_state e \<noteq> ChanInit"
proof -
  have "ch_state d' \<noteq> ChanInit" if "chan_trans d d'" for d d' using that by (auto simp: chan_trans_def)
  with assms show ?thesis unfolding chan_le_def by metis
qed

definition mirror_channel :: "channel_id \<Rightarrow> connection_id \<Rightarrow> addr \<Rightarrow> string \<Rightarrow> channel" where
  "mirror_channel ch cco port ver = \<lparr>ch_state = ChanTryOpen, ch_connection_id = cco, ch_counterparty_channel_id = Some ch,
     ch_counterparty_port_id = str_bytes port, ch_version = ver\<rparr>"

text \<open>When a channel is opened by a verified acknowledgement, the counterparty chain has the other end, now
  and for ever: it points back to this channel, lies over the counterparty connection, names the
  owner of this channel as its counterparty port, and both ends have the same version.\<close>

theorem channel_ack_agreement:
  assumes "channel_open_ack H info ch ver cch pr h rel True s = Inr (r, s')"
    and "channels s ch = Some c" "connections s (ch_connection_id c) = Some conn"
    and "co_counterparty_connection_id conn = Some cco" "channel_owner s ch = Some port"
    and "client_tracks H s (co_client_id conn) view" "on_history (crypto.truncate H) view tr t"
    and "key_unique H (Channel cch)" "channel_unique H (mirror_channel ch cco port ver)"
  shows "\<exists>d e. channels s' ch = Some d \<and> channels t cch = Some e \<and> ch_state d = ChanOpen \<and> ch_state e \<noteq> ChanInit \<and>
    ch_counterparty_channel_id d = Some cch \<and> ch_counterparty_channel_id e = Some ch \<and>
    ch_connection_id e = cco \<and> ch_counterparty_port_id e = str_bytes port \<and> ch_version d = ver \<and> ch_version e = ver"
proof -
  obtain impl where impl: "client_impls s (co_client_id conn) = Some impl"
    and q: "q_unit H impl s (VerifyMembership (co_client_id conn) h pr (h256_bytes (path_key H (Channel cch)))
      (h256_bytes (commit_channel H (mirror_channel ch cco port ver)))) = Inr ()"
    and s': "s' = save_channel H ch (c\<lparr>ch_state := ChanOpen, ch_version := ver, ch_counterparty_channel_id := Some cch\<rparr>) s"
    using assms(1-5) by (auto simp: channel_open_ack_def result_simps verify_channel_def client_impl_def Let_def
        verify_membership_def query_light_client_def mirror_channel_def)
  obtain e where e: "channels t cch = Some e" "chan_le (mirror_channel ch cco port ver) e"
    using proved_channel [OF assms(6) impl q assms(7-9)] by blast
  have "ch_state e \<noteq> ChanInit"
    using chan_le_not_init [OF e(2)] by (simp add: mirror_channel_def)
  moreover have "ch_counterparty_channel_id e = Some ch \<and> ch_connection_id e = cco \<and>
      ch_counterparty_port_id e = str_bytes port \<and> ch_version e = ver"
    using e(2) unfolding chan_le_def mirror_channel_def by auto
  ultimately show ?thesis using e(1) by (simp add: s')
qed

section \<open>Two small chains that agree\<close>

text \<open>The counterparty of the small chain, after its \<open>TryOpen\<close> steps.\<close>

definition demo_conn_try :: "(addr \<times> execute_msg) list" where
  "demo_conn_try =
     [(''r'', Restricted (RegisterClient ''c'' ''lc'')),
      (''r'', Restricted (CreateClient ''c'' [] [] ''r'')),
      (''r'', Restricted (ForceConnectionOpenTry 1 1 1 [] 0))]"

definition demo_chan_try :: "(addr \<times> execute_msg) list" where
  "demo_chan_try = demo_conn_try @
     [(''r'', Restricted (ForceConnectionOpenConfirm 1 [] 0)),
      (''r'', Restricted (ForceChannelOpenTry ''q'' \<lparr>ch_state = ChanTryOpen, ch_connection_id = 1,
         ch_counterparty_channel_id = Some 1, ch_counterparty_port_id = str_bytes ''port'', ch_version = ''v''\<rparr>
         ''v'' [] 0 ''r''))]"

lemmas eval_try_defs = eval_defs connection_open_try_def connection_open_confirm_def channel_open_try_def

lemma demo_commit_ends [simp]:
  "commit_connection demo_host (mirror_connection 1 \<lparr>co_state = ConnInit, co_client_id = 1, co_counterparty_client_id = 1,
     co_counterparty_connection_id = None\<rparr>) = 10"
  "commit_channel demo_host (mirror_channel 1 1 ''port'' ''v'') = 11"
  by (simp_all add: commit_connection_def commit_channel_def commit_def mirror_connection_def mirror_channel_def
      connection_to_tokens_def channel_to_tokens_def demo_host_def demo_hash_def)

lemma demo_conn_try_run:
  "\<exists>tr s. run_calls demo_host demo_env demo_conn_try demo_start = Inr (tr, s) \<and> commitments s 4 = Some 10"
  by (simp add: demo_conn_try_def demo_start_def access_managed_init_def empty_state_def eval_try_defs
      demo_commit_ends(1) [unfolded mirror_connection_def, simplified])

lemma demo_chan_try_run:
  "\<exists>tr s. run_calls demo_host demo_env demo_chan_try demo_start = Inr (tr, s) \<and> commitments s 5 = Some 11"
  by (simp add: demo_chan_try_def demo_conn_try_def demo_start_def access_managed_init_def empty_state_def eval_try_defs
      demo_commit_ends(2) [unfolded mirror_channel_def, simplified])

definition demo_init_conn :: connection where
  "demo_init_conn = \<lparr>co_state = ConnInit, co_client_id = 1, co_counterparty_client_id = 1,
     co_counterparty_connection_id = None\<rparr>"

definition demo_half_open :: core_state where
  "demo_half_open = demo_start\<lparr>connections := [1 \<mapsto> demo_init_conn], client_impls := [1 \<mapsto> ''lc'']\<rparr>"

lemma demo_connection_unique: "connection_unique (honest_host view) (mirror_connection 1 demo_init_conn)"
proof -
  have eq: "commit_connection (honest_host view) d = commit_connection demo_host d" for d
    by (simp add: commit_connection_def commit_def honest_host_def)
  have "d = mirror_connection 1 demo_init_conn" if "commit_connection demo_host d = 10" for d
  proof -
    have "connection_to_tokens d = (2, 1, 1, 1)"
      using that by (simp add: commit_connection_def commit_def demo_host_def demo_hash_def split: if_splits)
    then show ?thesis
      by (cases d, cases "co_state d")
        (auto simp: connection_to_tokens_def mirror_connection_def demo_init_conn_def split: option.splits)
  qed
  then show ?thesis unfolding connection_unique_def eq by (simp add: demo_init_conn_def)
qed

lemma demo_channel_unique: "channel_unique (honest_host view) (mirror_channel 1 1 ''port'' ''v'')"
proof -
  have eq: "commit_channel (honest_host view) d = commit_channel demo_host d" for d
    by (simp add: commit_channel_def commit_def honest_host_def)
  have "d = mirror_channel 1 1 ''port'' ''v''" if "commit_channel demo_host d = 11" for d
  proof -
    have "channel_to_tokens d = (2, 1, 1, str_bytes ''port'', ''v'')"
      using that by (simp add: commit_channel_def commit_def demo_host_def demo_hash_def split: if_splits)
    then show ?thesis
      by (cases d, cases "ch_state d") (auto simp: channel_to_tokens_def mirror_channel_def split: option.splits)
  qed
  then show ?thesis unfolding channel_unique_def eq by simp
qed

lemma demo_end_keys: "key_unique (honest_host view) (Connection 1)" "key_unique (honest_host view) (Channel 1)"
  by (simp_all add: key_unique_def honest_host_def path_key_def demo_hash_def path_preimage_inj)

theorem connection_ack_agreement_witness:
  "\<exists>r s' view tr t d e. connection_open_ack (honest_host view) 1 1 [] 1 True demo_half_open = Inr (r, s') \<and>
     on_history demo_crypto view tr t \<and> connections s' 1 = Some d \<and> connections t 1 = Some e \<and>
     co_counterparty_connection_id d = Some 1 \<and> co_counterparty_connection_id e = Some 1"
proof -
  obtain tr t where t: "core_reachable demo_crypto tr t" "commitments t 4 = Some 10"
    using demo_conn_try_run run_calls_run demo_start_reachable demo_crypto_simps(1) by metis
  define view :: view where "view = (\<lambda>h. if h = 1 then Some (t, 10) else None)"
  have h: "on_history demo_crypto view tr t" unfolding view_def by (rule on_history_now [OF t(1)])
  have c: "connections demo_half_open 1 = Some demo_init_conn" by (simp add: demo_half_open_def)
  have m: "commit_connection (honest_host view) (mirror_connection 1 demo_init_conn) = 10"
    using demo_commit_ends(1) by (simp add: commit_connection_def commit_def honest_host_def demo_init_conn_def)
  have "query_light_client (q_unit (honest_host view)) demo_half_open ''lc'' (VerifyMembership 1 1 []
      (h256_bytes (path_key (honest_host view) (Connection 1)))
      (h256_bytes (commit_connection (honest_host view) (mirror_connection 1 demo_init_conn)))) = Inr ()"
    by (rule honest_queries(3) [of _ _ t 10]) (simp_all add: view_def t(2) m [unfolded view_def])
  then obtain r s' where a: "connection_open_ack (honest_host view) 1 1 [] 1 True demo_half_open = Inr (r, s')"
    by (auto simp: connection_open_ack_def c demo_init_conn_def verify_connection_def client_impl_def
        verify_membership_def demo_half_open_def mirror_connection_def)
  from connection_ack_agreement [OF a c honest_tracks(1) _ demo_end_keys(1) demo_connection_unique, of tr t] h
  obtain d e where "connections s' 1 = Some d" "connections t 1 = Some e"
    "co_counterparty_connection_id d = Some 1" "co_counterparty_connection_id e = Some 1"
    by (auto simp: honest_crypto)
  with a h show ?thesis by blast
qed

definition demo_init_chan :: channel where
  "demo_init_chan = \<lparr>ch_state = ChanInit, ch_connection_id = 1, ch_counterparty_channel_id = None,
     ch_counterparty_port_id = [9], ch_version = ''u''\<rparr>"

definition demo_open_conn :: connection where
  "demo_open_conn = \<lparr>co_state = ConnOpen, co_client_id = 1, co_counterparty_client_id = 1,
     co_counterparty_connection_id = Some 1\<rparr>"

definition demo_chan_half_open :: core_state where
  "demo_chan_half_open = demo_start\<lparr>connections := [1 \<mapsto> demo_open_conn], channels := [1 \<mapsto> demo_init_chan],
     channel_owner := [1 \<mapsto> ''port''], client_impls := [1 \<mapsto> ''lc'']\<rparr>"

theorem channel_ack_agreement_witness:
  "\<exists>r s' view tr t d e. channel_open_ack (honest_host view) \<lparr>sender = ''r'', funds = []\<rparr> 1 ''v'' 1 [] 1 ''r'' True
       demo_chan_half_open = Inr (r, s') \<and>
     on_history demo_crypto view tr t \<and> channels s' 1 = Some d \<and> channels t 1 = Some e \<and>
     ch_counterparty_channel_id d = Some 1 \<and> ch_counterparty_channel_id e = Some 1 \<and> ch_version d = ch_version e"
proof -
  obtain tr t where t: "core_reachable demo_crypto tr t" "commitments t 5 = Some 11"
    using demo_chan_try_run run_calls_run demo_start_reachable demo_crypto_simps(1) by metis
  define view :: view where "view = (\<lambda>h. if h = 1 then Some (t, 10) else None)"
  have h: "on_history demo_crypto view tr t" unfolding view_def by (rule on_history_now [OF t(1)])
  have s: "channels demo_chan_half_open 1 = Some demo_init_chan" "channel_owner demo_chan_half_open 1 = Some ''port''"
    "connections demo_chan_half_open (ch_connection_id demo_init_chan) = Some demo_open_conn"
    "co_counterparty_connection_id demo_open_conn = Some 1" "co_state demo_open_conn = ConnOpen"
    "ch_state demo_init_chan = ChanInit" "client_impls demo_chan_half_open (co_client_id demo_open_conn) = Some ''lc''"
    by (simp_all add: demo_chan_half_open_def demo_init_chan_def demo_open_conn_def)
  have m: "commit_channel (honest_host view) (mirror_channel 1 1 ''port'' ''v'') = 11"
    using demo_commit_ends(2) by (simp add: commit_channel_def commit_def honest_host_def)
  have "query_light_client (q_unit (honest_host view)) demo_chan_half_open ''lc'' (VerifyMembership (co_client_id demo_open_conn) 1 []
      (h256_bytes (path_key (honest_host view) (Channel 1)))
      (h256_bytes (commit_channel (honest_host view) (mirror_channel 1 1 ''port'' ''v'')))) = Inr ()"
    by (rule honest_queries(3) [of _ _ t 10]) (simp_all add: view_def t(2) m [unfolded view_def])
  then obtain r s' where a: "channel_open_ack (honest_host view) \<lparr>sender = ''r'', funds = []\<rparr> 1 ''v'' 1 [] 1 ''r'' True
       demo_chan_half_open = Inr (r, s')"
    by (simp add: channel_open_ack_def s ensure_connection_state_def verify_channel_def client_impl_def Let_def
        verify_membership_def mirror_channel_def)
  from channel_ack_agreement [OF a s(1,3,4,2) honest_tracks(1) _ demo_end_keys(2) demo_channel_unique, of tr t] h
  obtain d e where "channels s' 1 = Some d" "channels t 1 = Some e" "ch_counterparty_channel_id d = Some 1"
    "ch_counterparty_channel_id e = Some 1" "ch_version d = ch_version e"
    by (auto simp: honest_crypto)
  with a h show ?thesis by blast
qed

section \<open>Access control\<close>

text \<open>Calls that a module or a light client makes on its own behalf, without the authority.\<close>

definition immediate_call :: "host \<Rightarrow> block_env \<Rightarrow> message_info \<Rightarrow> restricted_msg \<Rightarrow> core_state \<Rightarrow> bool" where
  "immediate_call H env info m s \<longleftrightarrow> (\<exists>auth. authority s = Some auth \<and>
     q_can_call H auth (msg_selector m) (contract_address env) (sender info) = Inr Immediate)"

lemma ensure_can_call_Msg:
  assumes "ensure_can_call H env info m s = Inr (Msg m', s1)"
  shows "immediate_call H env info m s \<and> m' = m \<and> s1 = s"
proof -
  obtain auth can where "authority s = Some auth"
    "q_can_call H auth (msg_selector m) (contract_address env) (sender info) = Inr can"
    and "(case can of
       Immediate \<Rightarrow> Inr (Msg m, s)
     | NotAuthorized \<Rightarrow> Inl (AccessManagedErr (AccessManagedUnauthorized (sender info)))
     | WithDelay _ \<Rightarrow>
         Inr (Scheduled [ConsumeScheduledOp auth (sender info) m,
                ExecuteSelf (contract_address env) m CONSUME_REPLY_ID],
              s\<lparr>consuming_schedule := Some True\<rparr>)) = Inr (Msg m', s1)"
    using assms by (auto simp: ensure_can_call_def am_read_def bindE_eq_Inr ok_or_eq_Inr map_err_eq_Inr)
  then show ?thesis unfolding immediate_call_def by (cases can) auto
qed

text \<open>C23: What a caller achieves without the immediate consent of the authority is limited: a successful call
  either had that consent for its selector, or it only marked a scheduled operation as being
  consumed (and asks the authority to consume it, in a submessage), or it is a module sending on a
  channel it owns or acknowledging a packet of a channel it owns, or the light client of a client
  migrating that client's states, or the authority handing over.\<close>

theorem only_authorized_calls:
  assumes "execute H env info msg s = Inr (r, s')"
  shows "(\<exists>m. msg = Restricted m \<and> immediate_call H env info m s) \<or>
    (\<exists>m. msg = Restricted m \<and> s' = s\<lparr>consuming_schedule := Some True\<rparr> \<and> r_messages r = [] \<and> r_events r = []) \<or>
    (\<exists>src t d. msg = PacketSend src t d \<and> channel_owner s src = Some (sender info)) \<or>
    (\<exists>p a. msg = WriteAcknowledgement p a \<and> channel_owner s (destination_channel_id p) = Some (sender info)) \<or>
    (\<exists>cl cs cons h. msg = MigrateState cl cs cons h \<and> client_impls s cl = Some (sender info)) \<or>
    (\<exists>a. msg = SetAuthority a \<and> authority s = Some (sender info) \<and> s' = s\<lparr>authority := Some a\<rparr>)"
proof (cases msg)
  case (PacketSend src t d)
  with assms send_packet_Inr [of H "sender info" src t d s r s'] show ?thesis by auto
next
  case (WriteAcknowledgement p a)
  with assms write_acknowledgement_Inr [of H "sender info" p a s r s'] show ?thesis by auto
next
  case (MigrateState cl cs cons h)
  with assms show ?thesis by (auto simp: migrate_state_def result_simps Let_def)
next
  case (SetAuthority a)
  with assms show ?thesis
    by (auto simp: set_authority_def am_read_def result_simps split: sum.splits)
next
  case (Restricted m)
  with assms obtain x s1 where x: "ensure_can_call H env info m s = Inr (x, s1)"
    and rest: "(case x of Msg m \<Rightarrow> execute_restricted H env info m s1
      | Scheduled subs \<Rightarrow> Inr (response_new\<lparr>r_submessages := subs\<rparr>, s1)) = Inr (r, s')"
    by (auto simp: bindE_eq_Inr)
  show ?thesis
  proof (cases x)
    case (Msg m')
    with ensure_can_call_Msg x Restricted show ?thesis by blast
  next
    case (Scheduled subs)
    with ensure_can_call_Inr [OF x] rest Restricted show ?thesis by (auto simp: response_new_def)
  qed
qed

theorem only_authorized_calls_witness:
  "\<exists>r s s'. execute demo_host demo_env \<lparr>sender = ''port'', funds = []\<rparr> (PacketSend 1 5 [1]) s = Inr (r, s') \<and>
     channel_owner s 1 = Some ''port''"
proof -
  obtain s where s: "demo_is_open s" using demo_open_run by blast
  then obtain r s' where e: "execute demo_host demo_env \<lparr>sender = ''port'', funds = []\<rparr> (PacketSend 1 5 [1]) s = Inr (r, s')"
    using demo_send by blast
  from only_authorized_calls [OF e] e show ?thesis by auto
qed

section \<open>Initialisation\<close>

text \<open>A deployed contract cannot be initialised again, whatever has been called since, so its identifiers and
  its authority cannot be reset that way.\<close>

theorem init_only_once:
  assumes "core_reachable K tr s"
  shows "migrate (UpgradeInit a) s = Inl (MigrateErr AlreadyInitiated)"
proof -
  have "state_version s \<noteq> None" using reachable_wf [OF assms] by (simp add: core_wf_def)
  then show ?thesis by (auto simp: migrate_def core.init_once)
qed

theorem init_only_once_witness:
  "\<exists>tr s. core_reachable demo_crypto tr s \<and> migrate (UpgradeInit ''eve'') s = Inl (MigrateErr AlreadyInitiated)"
proof -
  obtain tr s where "core_reachable demo_crypto tr s" using demo_timed_out_reachable by blast
  with init_only_once [OF this] show ?thesis by blast
qed

section \<open>Where the code departs from what it says\<close>

text \<open>Confirming the close of a channel tells the owner of the channel that the channel was opened: the only
  message that leaves is \<open>OnChannelOpenConfirm\<close>.\<close>

theorem close_confirm_reports_open:
  assumes "channel_close_confirm H info ch pr h rel s = Inr (r, s')"
  shows "\<exists>port. channel_owner s ch = Some port \<and>
    r_messages r = [CallModule port (OnChannelOpenConfirm (sender info) ch rel) []] \<and>
    (\<exists>c. channels s' ch = Some c \<and> ch_state c = ChanClosed)"
  using assms by (auto simp: channel_close_confirm_def result_simps Let_def)

theorem close_confirm_reports_open_witness:
  "\<exists>s r s'. channel_close_confirm demo_host \<lparr>sender = ''r'', funds = []\<rparr> 1 [] 1 ''r'' s = Inr (r, s') \<and>
     r_messages r = [CallModule ''port'' (OnChannelOpenConfirm ''r'' 1 ''r'') []]"
proof -
  obtain s where s: "demo_is_open s" using demo_open_run by blast
  then obtain r s' where e: "channel_close_confirm demo_host \<lparr>sender = ''r'', funds = []\<rparr> 1 [] 1 ''r'' s = Inr (r, s')"
    by (auto simp: demo_is_open_def channel_close_confirm_def ensure_connection_state_def client_impl_def Let_def
        verify_channel_def verify_membership_def)
  with close_confirm_reports_open [OF e] s show ?thesis by (auto simp: demo_is_open_def)
qed

text \<open>When the light client answers the creation of a client with a client state of its own, that state is
  stored but the state of the message is committed, so the commitment is not that of what is stored.\<close>

theorem client_commitment_is_of_the_message:
  assumes "init_client H info cs cons rel impl cl s = Inr ((vcr, h), s')" "vcr_client_state_bytes vcr = Some b"
    and "key_unique H (ClientState cl)"
  shows "client_states s' cl = Some b \<and> commitments s' (path_key H (ClientState cl)) = Some (commit H cs)"
proof -
  have "path_key H (ConsensusState cl h) \<noteq> path_key H (ClientState cl)"
    using key_uniqueD [OF assms(3), of "ConsensusState cl h"] by auto
  then show ?thesis using init_client_Inr [OF assms(1)] assms(2) by simp
qed

text \<open>A host whose hash is free of collisions at the client state of client 1 and whose light client answers
  with a state of its own.\<close>

definition rewriting_host :: host where
  "rewriting_host = demo_host\<lparr>
     keccak256 := (\<lambda>x. if x = path_preimage (ClientState 1) then 1 else if x = [] then 2 else 0),
     q_creation := (\<lambda>_ _ _. Inr \<lparr>vcr_counterparty_chain_id = ''b'', vcr_client_state_bytes = Some [7],
        vcr_storage_writes = [], vcr_events = []\<rparr>)\<rparr>"

theorem client_commitment_is_of_the_message_witness:
  "\<exists>r s'. init_client rewriting_host \<lparr>sender = ''r'', funds = []\<rparr> [] [] ''r'' ''lc'' 1 demo_start = Inr (r, s') \<and>
     client_states s' 1 = Some [7] \<and> commitments s' (path_key rewriting_host (ClientState 1)) = Some (commit rewriting_host []) \<and>
     commit rewriting_host [7] \<noteq> commit rewriting_host []"
proof -
  define v where "v = \<lparr>vcr_counterparty_chain_id = ''b'', vcr_client_state_bytes = Some [7 :: u8],
      vcr_storage_writes = ([] :: storage_writes), vcr_events = []\<rparr>"
  have e: "\<exists>s'. init_client rewriting_host \<lparr>sender = ''r'', funds = []\<rparr> [] [] ''r'' ''lc'' 1 demo_start = Inr ((v, 1), s')"
    by (simp add: init_client_def rewriting_host_def demo_host_def query_light_client_def Let_def v_def)
  then obtain s' where e: "init_client rewriting_host \<lparr>sender = ''r'', funds = []\<rparr> [] [] ''r'' ''lc'' 1 demo_start =
      Inr ((v, 1), s')" by blast
  have u: "key_unique rewriting_host (ClientState 1)"
    by (simp add: key_unique_def path_key_def rewriting_host_def path_preimage_inj)
  have "commit rewriting_host [7] \<noteq> commit rewriting_host []"
    by (simp add: commit_def rewriting_host_def)
  with client_commitment_is_of_the_message [OF e _ u] e show ?thesis by (auto simp: v_def)
qed

section \<open>Paths\<close>

text \<open>Two commitment paths feed the same bytes to the hash only if they are the same path, so different
  paths have different keys unless the hash itself collides.\<close>

theorem paths_have_distinct_preimages:
  "path_preimage p = path_preimage q \<longleftrightarrow> p = q"
  by (rule path_preimage_inj)

end
