(* ===== verification/Am_Core.thy ===== *)
theory Am_Core
  imports Am_Tx Core_Agree
begin

text \<open>
  The access manager and the core contract together: the core contract's authority is an access manager,
  and its question whether a caller may call is answered by the manager's \<open>CanCall\<close> query on the
  manager's state. \<open>managed_host\<close> is the core contract's host with this answer.
\<close>

definition managed_host :: "host \<Rightarrow> am_host \<Rightarrow> block_env \<Rightarrow> am_store \<Rightarrow> host" where
  "managed_host H A menv ms = H\<lparr>q_can_call := (\<lambda>auth sel target caller.
     if auth = contract_address menv then map_err (\<lambda>_. QuerierErr ''CanCall'') (am_can_call A menv ms caller target sel)
     else q_can_call H auth sel target caller)\<rparr>"

lemma managed_can_call [simp]:
  "q_can_call (managed_host H A menv ms) (contract_address menv) sel target caller =
     map_err (\<lambda>_. QuerierErr ''CanCall'') (am_can_call A menv ms caller target sel)"
  by (simp add: managed_host_def)

lemma core_selectors_public [simp]: "\<not> is_internal (msg_selector m)"
  by (cases m) (simp_all add: is_internal_def INTERNAL_PREFIX_def)

text \<open>The role that the manager asks for.\<close>

definition function_role :: "am_store \<Rightarrow> addr \<Rightarrow> selector \<Rightarrow> role_id" where
  "function_role ms target sel = unwrap_or ADMIN_ROLE (target_allowed_roles ms (target, sel))"

lemma has_role_cong: "role_members s' = role_members s \<Longrightarrow> has_role env s' r a = has_role env s r a"
  by (simp add: has_role_def get_access_def)

lemma am_can_call_member:
  assumes "am_can_call A menv ms caller target sel = Inr can" "can \<noteq> NotAuthorized" "\<not> is_internal sel"
  shows "\<not> is_target_closed ms target \<and>
    (if caller = contract_address menv then is_executing A ms target sel \<and> can = Immediate
     else is_member (has_role menv ms (function_role ms target sel) caller))"
  using assms
  by (auto simp: am_can_call_def address_this_def get_target_function_role_def function_role_def is_member_def
      split: if_splits has_role_result.splits option.splits)

lemma am_can_call_role:
  assumes "\<not> is_internal sel" "\<not> is_target_closed ms target" "caller \<noteq> contract_address menv"
  shows "am_can_call A menv ms caller target sel =
    (case has_role menv ms (function_role ms target sel) caller of
       HasRoleNo \<Rightarrow> Inr NotAuthorized
     | HasRoleYes (Some d) \<Rightarrow> Inr (WithDelay d)
     | HasRoleYes None \<Rightarrow> Inr Immediate)"
  using assms by (simp add: am_can_call_def address_this_def get_target_function_role_def function_role_def)

text \<open>C21: When the core contract is managed by an access manager, a restricted call that has an effect was made on an
  open contract by an account that holds the role of the called function without delay, or by the manager itself in
  an execution of exactly this function of this contract.\<close>

theorem managed_core_calls_need_role:
  assumes "execute (managed_host H A menv ms) env info (Restricted m) s = Inr (r, s')"
    and "authority s = Some (contract_address menv)" "r_submessages r = []"
  shows "\<not> is_target_closed ms (contract_address env) \<and>
    (if sender info = contract_address menv then is_executing A ms (contract_address env) (msg_selector m)
     else has_role menv ms (function_role ms (contract_address env) (msg_selector m)) (sender info) = HasRoleYes None)"
proof -
  let ?a = "am_can_call A menv ms (sender info) (contract_address env) (msg_selector m)"
  obtain can where can: "?a = Inr can"
    using assms(1,2) by (auto simp: ensure_can_call_def am_read_def bindE_eq_Inr map_err_eq_Inr)
  then have "can = Immediate"
    using assms by (cases can) (auto simp: ensure_can_call_def am_read_def)
  with am_can_call_member [OF can] am_can_call_role [of "msg_selector m" ms "contract_address env" "sender info" menv A] can
  show ?thesis by (auto split: if_splits has_role_result.splits option.splits)
qed

text \<open>Closing the core contract in its access manager stops every restricted call to it, whoever calls.\<close>

theorem closed_core_rejects_calls:
  assumes "authority s = Some (contract_address menv)" "is_target_closed ms (contract_address env)"
  shows "execute (managed_host H A menv ms) env info (Restricted m) s =
    Inl (AccessManagedErr (AccessManagedUnauthorized (sender info)))"
  using assms by (simp add: ensure_can_call_def am_read_def am_can_call_def)

text \<open>An execution through the manager reaches the core contract: while the manager executes a function of the
  core contract, a call of this function in the manager's name passes the core contract's check at once.\<close>

theorem managed_execution_is_let_through:
  assumes "am_execute A menv info (Execute (contract_address env) dat) ms = Inr (r, ms1)"
    and "check_selector A dat = Inr (msg_selector m)" "authority s = Some (contract_address menv)"
    and "\<not> is_target_closed ms (contract_address env)" "am_tx A menv ms1 ms2" "targets ms2 = targets ms"
  shows "execute (managed_host H A menv ms2) env \<lparr>sender = contract_address menv, funds = f\<rparr> (Restricted m) s =
    execute_restricted (managed_host H A menv ms2) env \<lparr>sender = contract_address menv, funds = f\<rparr> m s"
proof -
  have "is_executing A ms2 (contract_address env) (msg_selector m)"
    using am_execute_push [OF assms(1)] assms(2) tx_stack [OF assms(5)] by (auto simp: is_executing_def)
  moreover have "\<not> is_target_closed ms2 (contract_address env)"
    using assms(4,6) by (simp add: is_target_closed_def)
  ultimately show ?thesis
    using assms(3) by (simp add: ensure_can_call_def am_read_def am_can_call_def address_this_def)
qed

text \<open>C33: A delayed call made directly on the core contract cannot take effect. The core contract has the manager
  consume the schedule and then calls itself, but the manager is asked again, now for the core contract as the
  caller, and refuses unless the core contract itself holds the role; the whole transaction fails.\<close>

theorem delayed_direct_call_is_refused:
  assumes "authority s = Some (contract_address menv)" "contract_address env \<noteq> contract_address menv"
    and "am_can_call A menv ms (sender info) (contract_address env) (msg_selector m) = Inr (WithDelay d)"
    and "has_role menv ms (function_role ms (contract_address env) (msg_selector m)) (contract_address env) = HasRoleNo"
    and "am_execute A menv \<lparr>sender = contract_address env, funds = []\<rparr> (ConsumeOp (sender info) dat) ms = Inr (r1, ms1)"
  shows "\<exists>r s1. execute (managed_host H A menv ms) env info (Restricted m) s = Inr (r, s1) \<and>
    r_submessages r = [ConsumeScheduledOp (contract_address menv) (sender info) m,
      ExecuteSelf (contract_address env) m CONSUME_REPLY_ID] \<and>
    execute (managed_host H A menv ms1) env \<lparr>sender = contract_address env, funds = []\<rparr> (Restricted m) s1 =
      Inl (AccessManagedErr (AccessManagedUnauthorized (contract_address env)))"
proof -
  obtain x y where "am_dispatch A (call_ctx A menv \<lparr>sender = contract_address env, funds = []\<rparr> (ConsumeOp (sender info) dat))
      (ConsumeOp (sender info) dat) (begin_exec ms) = Inr (y, x)"
    and f: "targets ms1 = targets x" "target_allowed_roles ms1 = target_allowed_roles x" "role_members ms1 = role_members x"
    using am_execute_policy [OF assms(5)] by metis
  then have "same_policy (begin_exec ms) x"
    by (auto simp: bindE_eq_Inr dest: operation_frame)
  then have same: "targets ms1 = targets ms" "target_allowed_roles ms1 = target_allowed_roles ms" "role_members ms1 = role_members ms"
    by (simp_all add: same_policy_def f)
  have "\<not> is_target_closed ms1 (contract_address env)"
    using am_can_call_member [OF assms(3)] by (simp add: is_target_closed_def same)
  moreover have "has_role menv ms1 (function_role ms1 (contract_address env) (msg_selector m)) (contract_address env) = HasRoleNo"
    using assms(4) by (simp add: has_role_cong [OF same(3)] function_role_def same)
  ultimately have "am_can_call A menv ms1 (contract_address env) (contract_address env) (msg_selector m) = Inr NotAuthorized"
    using assms(2) by (simp add: am_can_call_role)
  then show ?thesis
    using assms(1,3) by (simp add: ensure_can_call_def am_read_def response_new_def)
qed

end
