(* ===== verification/Am_Demo.thy ===== *)
theory Am_Demo
  imports Am_Core
begin

text \<open>
  A concrete run of the access manager, on which the theorems about it apply: \<open>alice\<close> deploys it, grants
  the admin role to \<open>bob\<close> with an execution delay of 100 seconds, \<open>bob\<close> schedules a call of the core
  contract and executes it when its time has come.
\<close>

definition demo_am :: am_host where
  "demo_am = \<lparr>sha256 = (\<lambda>x. word_of_nat (length x)), json_keys = (\<lambda>d. Inr [d]),
     from_json = (\<lambda>d. if d = ''g'' then Some (GrantRole ADMIN_ROLE ''bob'' 100) else None),
     to_json = (\<lambda>m. case m of GrantRole _ _ _ \<Rightarrow> ''g'' | _ \<Rightarrow> ''x''),
     q_consuming = (\<lambda>_. Inr CONSUMING_SELECTOR)\<rparr>"

definition demo_now :: block_env where
  "demo_now = \<lparr>contract_address = ''mgr'', block_time = 1000000000000\<rparr>"

definition demo_later :: block_env where
  "demo_later = \<lparr>contract_address = ''mgr'', block_time = 1200000000000\<rparr>"

lemma demo_times [simp]:
  "am_timestamp demo_now = 1000" "am_timestamp demo_later = 1200"
  "contract_address demo_now = ''mgr''" "contract_address demo_later = ''mgr''"
  "address_this demo_now = ''mgr''" "address_this demo_later = ''mgr''"
  by (simp_all add: am_timestamp_def demo_now_def demo_later_def address_this_def)

definition demo_member :: "u32 \<Rightarrow> access" where
  "demo_member d = \<lparr>access_since = 1000, access_delay = delay_new d\<rparr>"

definition demo_am0 :: am_store where
  "demo_am0 = am_empty\<lparr>am_state_version := Some 1, execution_id_stack := Some [],
     role_members := [(ADMIN_ROLE, ''alice'') \<mapsto> demo_member 0]\<rparr>"

definition demo_am1 :: am_store where
  "demo_am1 = demo_am0\<lparr>role_members := [(ADMIN_ROLE, ''alice'') \<mapsto> demo_member 0, (ADMIN_ROLE, ''bob'') \<mapsto> demo_member 100]\<rparr>"

definition demo_op :: h256 where
  "demo_op = hash_operation demo_am ''bob'' ''core'' ''batch_send''"

definition demo_am2 :: am_store where
  "demo_am2 = demo_am1\<lparr>schedules := [demo_op \<mapsto> \<lparr>sched_timepoint = Some 1200, sched_nonce = 1\<rparr>]\<rparr>"

definition demo_am3 :: am_store where
  "demo_am3 = demo_am1\<lparr>schedules := [demo_op \<mapsto> \<lparr>sched_timepoint = None, sched_nonce = 1\<rparr>],
     execution_id_stack := Some [hash_execution_id demo_am ''core'' ''batch_send'']\<rparr>"

lemmas demo_am_defs = demo_am0_def demo_am1_def demo_am2_def demo_am3_def am_empty_def demo_member_def

lemma demo_host_fields [simp]:
  "json_keys demo_am d = Inr [d]" "to_json demo_am (GrantRole r a x) = ''g''" "q_consuming demo_am a = Inr CONSUMING_SELECTOR"
  "from_json demo_am ''g'' = Some (GrantRole ADMIN_ROLE ''bob'' 100)"
  by (simp_all add: demo_am_def)

lemma demo_selector [simp]: "check_selector demo_am d = Inr d"
  by (simp add: check_selector_def extract_from_data_def)

lemma demo_not_internal [simp]: "\<not> is_internal ''batch_send''"
  by (simp add: is_internal_def INTERNAL_PREFIX_def)

lemma demo_policy [simp]:
  "\<not> is_target_closed demo_am0 t" "\<not> is_target_closed demo_am1 t" "\<not> is_target_closed demo_am2 t" "\<not> is_target_closed demo_am3 t"
  "get_role_admin demo_am0 r = ADMIN_ROLE"
  "target_allowed_roles demo_am1 k = None" "target_allowed_roles demo_am2 k = None"
  "execution_id_stack demo_am0 = Some []" "execution_id_stack demo_am1 = Some []" "execution_id_stack demo_am2 = Some []"
  by (simp_all add: is_target_closed_def target_config_default_def get_role_admin_def role_default_def demo_am0_def
      demo_am1_def demo_am2_def demo_am3_def am_empty_def)

lemma demo_roles [simp]:
  "has_role demo_now demo_am0 ADMIN_ROLE ''alice'' = HasRoleYes None"
  "has_role demo_now demo_am1 ADMIN_ROLE ''bob'' = HasRoleYes (Some 100)"
  "has_role demo_now demo_am2 ADMIN_ROLE ''bob'' = HasRoleYes (Some 100)"
  "has_role demo_later demo_am2 ADMIN_ROLE ''bob'' = HasRoleYes (Some 100)"
  "has_role demo_later demo_am2 ADMIN_ROLE ''core'' = HasRoleNo"
  by (simp_all add: has_role_def get_access_def demo_am_defs Let_def delay_get_full_value nonzero_def access_default_def)

lemma demo_instantiate:
  "am_instantiate demo_now ''alice'' am_empty =
     Inr (\<lparr>am_events = [RoleGranted ADMIN_ROLE ''alice'' 0 1000 True], am_messages = [], am_response_data = None\<rparr>, demo_am0)"
  unfolding am_instantiate_Inr by (simp add: demo_am_defs)

lemma demo_am_can_call [simp]:
  "can_call_self demo_am demo_now demo_am0 ''alice'' ''g'' = Inr Immediate"
  "can_call_extended demo_am demo_now demo_am1 ''bob'' ''core'' ''batch_send'' = Inr (WithDelay 100)"
  "can_call_extended demo_am demo_later demo_am2 ''bob'' ''core'' ''batch_send'' = Inr (WithDelay 100)"
  "am_can_call demo_am demo_later demo_am2 ''bob'' ''core'' ''batch_send'' = Inr (WithDelay 100)"
  by (simp_all add: can_call_self_def get_admin_restrictions_def can_call_extended_def am_can_call_def
      get_target_function_role_def nonzero_def)

definition demo_grant :: am_response where
  "demo_grant = \<lparr>am_events = [RoleGranted ADMIN_ROLE ''bob'' 100 1000 True], am_messages = [], am_response_data = None\<rparr>"

definition demo_schedule :: am_response where
  "demo_schedule = \<lparr>am_events = [OperationScheduled demo_op 1 1200 ''bob'' ''core'' ''batch_send''], am_messages = [],
     am_response_data = Some (ScheduledData demo_op 1)\<rparr>"

definition demo_execute :: am_response where
  "demo_execute = \<lparr>am_events = [OperationExecuted demo_op 1],
     am_messages = [CallTarget ''core'' ''batch_send'' [] EXECUTE_REPLY_ID], am_response_data = Some (NonceData 1)\<rparr>"

abbreviation by_addr :: "addr \<Rightarrow> message_info" where
  "by_addr a \<equiv> \<lparr>sender = a, funds = []\<rparr>"

lemma demo_grant_step:
  "am_execute demo_am demo_now (by_addr ''alice'') (GrantRole ADMIN_ROLE ''bob'' 100) demo_am0 = Inr (demo_grant, demo_am1)"
proof -
  have "only_authorized demo_am (call_ctx demo_am demo_now (by_addr ''alice'') (GrantRole ADMIN_ROLE ''bob'' 100)) (begin_exec demo_am0)
      = Inr ((), begin_exec demo_am0)"
    by (simp add: only_authorized_def msg_sender_def)
  then show ?thesis
    by (simp add: am_execute_def grant_role_def internal_grant_role_def demo_grant_def)
      (simp add: get_role_grant_delay_def role_default_def am_respond_def emit_def begin_exec_def am_store.defs am_exec.defs
        demo_am_defs Let_def)
qed

lemma demo_schedule_step:
  "am_execute demo_am demo_now (by_addr ''bob'') (Schedule ''core'' ''batch_send'' 1200) demo_am1 = Inr (demo_schedule, demo_am2)"
  by (simp add: am_execute_def schedule_op_def msg_sender_def Let_def flip: demo_op_def)
    (simp add: demo_schedule_def am_respond_def emit_def begin_exec_def am_store.defs am_exec.defs nonce_increment_def
      demo_am_defs max_def)

lemma demo_execute_step:
  "am_execute demo_am demo_later (by_addr ''bob'') (Execute ''core'' ''batch_send'') demo_am2 = Inr (demo_execute, demo_am3)"
  by (simp add: am_execute_def execute_op_def msg_sender_def Let_def flip: demo_op_def)
    (simp add: demo_execute_def am_respond_def emit_def begin_exec_def am_store.defs am_exec.defs internal_consume_scheduled_op_def
      push_execution_id_def is_expired_def expiration_def demo_am_defs)

definition demo_trace :: am_trace where
  "demo_trace = [(demo_now, by_addr ''alice'', GrantRole ADMIN_ROLE ''bob'' 100, demo_grant),
     (demo_now, by_addr ''bob'', Schedule ''core'' ''batch_send'' 1200, demo_schedule)]"

lemma demo_am_reachable: "am_reachable demo_am demo_trace demo_am2"
proof -
  have "am_run demo_am demo_am0 ([] @ [(demo_now, by_addr ''alice'', GrantRole ADMIN_ROLE ''bob'' 100, demo_grant)]) demo_am1"
    by (rule am_call [OF am_start demo_grant_step])
  from am_call [OF this demo_schedule_step] show ?thesis
    unfolding am_reachable_def demo_trace_def using demo_instantiate by auto
qed

section \<open>The theorems at work\<close>

theorem calls_refine_operation_contract_witness:
  "am_execute demo_am demo_later (by_addr ''bob'') (Execute ''core'' ''batch_send'') demo_am2 = Inr (demo_execute, demo_am3) \<and>
   op_step demo_later demo_op (op_state demo_am2 demo_op) (filter (about demo_op) (am_events demo_execute)) (op_state demo_am3 demo_op)"
  using demo_execute_step calls_refine_operation_contract [OF demo_execute_step] by blast

theorem executed_operations_waited_witness:
  "\<exists>tr1 env0 info0 msg0 r0 tr2 w target data.
     demo_trace = tr1 @ (env0, info0, msg0, r0) # tr2 \<and>
     OperationScheduled demo_op 1 w (sender info0) target data \<in> set (am_events r0) \<and>
     unat w \<le> unat (am_timestamp demo_later)"
proof -
  have "OperationExecuted demo_op 1 \<in> set (am_events demo_execute)"
    by (simp add: demo_execute_def)
  from executed_operations_waited [OF demo_am_reachable demo_execute_step this] show ?thesis by blast
qed

theorem schedules_used_once_witness:
  "am_reachable demo_am demo_trace demo_am2 \<and>
   ended_count demo_op demo_trace + pending_count (op_state demo_am2 demo_op) \<le> scheduled_count demo_op demo_trace \<and>
   get_nonce demo_am2 demo_op = of_nat (scheduled_count demo_op demo_trace)"
  using demo_am_reachable schedules_used_once [OF demo_am_reachable] by blast

theorem policy_changes_are_authorized_witness:
  "role_members demo_am1 (ADMIN_ROLE, ''bob'') \<noteq> role_members demo_am0 (ADMIN_ROLE, ''bob'') \<and>
   authorized_for demo_now demo_am0 ''alice'' (get_role_admin demo_am0 ADMIN_ROLE)"
proof -
  have "from_json demo_am (to_json demo_am (GrantRole ADMIN_ROLE ''bob'' 100)) = Some (GrantRole ADMIN_ROLE ''bob'' 100)"
    by simp
  from policy_changes_are_authorized [OF demo_grant_step this, of ADMIN_ROLE "''bob''"] show ?thesis
    by (auto simp: demo_am_defs)
qed

theorem locked_roles_stay_locked_witness:
  "am_reachable demo_am demo_trace demo_am2 \<and> locked demo_am2"
  using demo_am_reachable locked_roles_stay_locked [OF demo_am_reachable] by blast

theorem execution_stack_balanced_witness:
  "am_execute demo_am demo_later (by_addr ''bob'') (Execute ''core'' ''batch_send'') demo_am2 = Inr (demo_execute, demo_am3) \<and>
   am_tx demo_am demo_later demo_am3 demo_am3 \<and>
   (\<exists>s3. am_reply EXECUTE_REPLY_ID True demo_am3 = Inr s3 \<and> execution_id_stack s3 = execution_id_stack demo_am2)"
  using execution_stack_balanced [OF demo_execute_step tx_done] demo_execute_step tx_done by auto

theorem manager_has_no_standing_rights_witness:
  "am_chain demo_am demo_am0 \<and> am_can_call demo_am demo_now demo_am0 ''mgr'' ''core'' ''batch_send'' = Inr NotAuthorized"
  using chain_start [OF demo_instantiate, of demo_am]
    manager_has_no_standing_rights [OF chain_start [OF demo_instantiate], of "''batch_send''" demo_am demo_now "''core''"]
  by simp

definition core_env :: block_env where
  "core_env = \<lparr>contract_address = ''core'', block_time = 1200000000000\<rparr>"

definition managed_start :: core_state where
  "managed_start = demo_start\<lparr>authority := Some ''mgr''\<rparr>"

lemma core_env_addr [simp]: "contract_address core_env = ''core''" "authority managed_start = Some ''mgr''"
  by (simp_all add: core_env_def managed_start_def)

lemma not_internal_upgrade [simp]: "\<not> is_internal ''upgrade''"
  by (simp add: is_internal_def INTERNAL_PREFIX_def)

theorem managed_core_calls_need_role_witness:
  "\<exists>r s'. execute (managed_host demo_host demo_am demo_now demo_am0) core_env (by_addr ''alice'')
     (Restricted (Upgradable (Upgrade 1 []))) managed_start = Inr (r, s') \<and>
     has_role demo_now demo_am0 (function_role demo_am0 ''core'' ''upgrade'') ''alice'' = HasRoleYes None"
proof -
  have "am_can_call demo_am demo_now demo_am0 ''alice'' ''core'' ''upgrade'' = Inr Immediate"
    by (simp add: am_can_call_def get_target_function_role_def) (simp add: demo_am_defs has_role_def get_access_def
        Let_def delay_get_full_value nonzero_def)
  then have e: "execute (managed_host demo_host demo_am demo_now demo_am0) core_env (by_addr ''alice'')
     (Restricted (Upgradable (Upgrade 1 []))) managed_start = Inr (upgradable_execute core_env (Upgrade 1 []), managed_start)"
    using managed_can_call [of demo_host demo_am demo_now demo_am0] by (simp add: ensure_can_call_def am_read_def)
  have "r_submessages (upgradable_execute core_env (Upgrade 1 [])) = []"
    by (simp add: respond_def response_new_def)
  from managed_core_calls_need_role [OF e _ this] e show ?thesis by simp
qed

theorem closed_core_rejects_calls_witness:
  "execute (managed_host demo_host demo_am demo_now
       (demo_am0\<lparr>targets := [''core'' \<mapsto> \<lparr>admin_delay = delay_default, target_closed = True\<rparr>]\<rparr>)) core_env (by_addr ''alice'')
     (Restricted (Upgradable (Upgrade 1 []))) managed_start = Inl (AccessManagedErr (AccessManagedUnauthorized ''alice''))"
  by (subst closed_core_rejects_calls) (simp_all add: is_target_closed_def)

theorem managed_execution_is_let_through_witness:
  "execute (managed_host demo_host demo_am demo_later demo_am3) core_env (by_addr ''mgr'') (Restricted (BatchSend [])) managed_start =
   execute_restricted (managed_host demo_host demo_am demo_later demo_am3) core_env (by_addr ''mgr'') (BatchSend []) managed_start"
proof -
  have t: "targets demo_am3 = targets demo_am2" by (simp add: demo_am_defs)
  have e: "am_execute demo_am demo_later (by_addr ''bob'') (Execute (contract_address core_env) ''batch_send'') demo_am2
      = Inr (demo_execute, demo_am3)"
    using demo_execute_step by simp
  from managed_execution_is_let_through [OF e _ _ _ tx_done t, of "BatchSend []" managed_start demo_host] show ?thesis
    by simp
qed

lemma demo_consume_step:
  "\<exists>r1 ms1. am_execute demo_am demo_later (by_addr ''core'') (ConsumeOp ''bob'' ''batch_send'') demo_am2 = Inr (r1, ms1)"
  by (simp add: am_execute_def consume_scheduled_op_def msg_sender_def Let_def flip: demo_op_def)
    (simp add: internal_consume_scheduled_op_def is_expired_def expiration_def demo_am2_def am_respond_def)

theorem delayed_direct_call_is_refused_witness:
  "\<exists>r s1 ms1. execute (managed_host demo_host demo_am demo_later demo_am2) core_env (by_addr ''bob'')
      (Restricted (BatchSend [])) managed_start = Inr (r, s1) \<and>
    execute (managed_host demo_host demo_am demo_later ms1) core_env (by_addr ''core'') (Restricted (BatchSend [])) s1 =
      Inl (AccessManagedErr (AccessManagedUnauthorized ''core''))"
proof -
  obtain r1 ms1 where "am_execute demo_am demo_later (by_addr ''core'') (ConsumeOp ''bob'' ''batch_send'') demo_am2 = Inr (r1, ms1)"
    using demo_consume_step by blast
  then show ?thesis
    using delayed_direct_call_is_refused [of managed_start demo_later core_env demo_am demo_am2 "by_addr ''bob''" "BatchSend []" 100
        "''batch_send''" r1 ms1 demo_host]
    by (auto simp: function_role_def)
qed

definition demo_grown :: block_env where
  "demo_grown = \<lparr>contract_address = ''mgr'', block_time = 700000000000000\<rparr>"

theorem far_future_schedule_is_lost_witness:
  "\<exists>r s'. am_execute demo_am demo_grown (by_addr ''bob'') (Schedule ''core'' ''batch_send'' (- 1)) demo_am1 = Inr (r, s') \<and>
     get_schedule demo_grown s' demo_op = None"
proof -
  have g: "am_timestamp demo_grown = 700000" "address_this demo_grown = ''mgr''"
    by (simp_all add: demo_grown_def am_timestamp_def address_this_def)
  have "has_role demo_grown demo_am1 ADMIN_ROLE ''bob'' = HasRoleYes (Some 100)"
    by (simp add: has_role_def get_access_def demo_am_defs Let_def delay_get_full_value nonzero_def g)
  then have "can_call_extended demo_am demo_grown demo_am1 ''bob'' ''core'' ''batch_send'' = Inr (WithDelay 100)"
    by (simp add: can_call_extended_def am_can_call_def get_target_function_role_def g)
  then obtain r s' where e: "am_execute demo_am demo_grown (by_addr ''bob'') (Schedule ''core'' ''batch_send'' (- 1)) demo_am1 = Inr (r, s')"
    by (simp add: am_execute_def schedule_op_def msg_sender_def Let_def g flip: demo_op_def)
      (simp add: am_respond_def demo_am_defs Let_def)
  have "2 ^ 64 - 604800 \<le> unat (- 1 :: u64)"
    by (simp add: unsigned_minus_1_eq_mask mask_eq_exp_minus_1)
  from far_future_schedule_is_lost [OF e this] e show ?thesis
    by (auto simp: g demo_op_def)
qed

end
