(* ===== verification/Lst_State.thy ===== *)
theory Lst_State
  imports Core_State
begin

text \<open>
  The liquid staking hub (\<open>cosmwasm/lst\<close>): its data (\<open>types.rs\<close>), stores (\<open>state.rs\<close>), errors, events and
  messages. Token amounts are \<open>u128\<close> in the source; here they are natural numbers, and each operation of the
  source that can leave the range of \<open>u128\<close> checks it (\<open>add128\<close>, \<open>sub128\<close>). What the contract calls from
  other packages (payment checks, \<open>Uint128::multiply_ratio\<close>, decimal sums, SHA-256) and from the chain
  (staking rewards) is the record \<open>lst_host\<close>, and \<open>lst_lawful\<close> says what is relied on.
\<close>

section \<open>Arithmetic\<close>

type_synonym u128 = nat
type_synonym batch_id = u64
type_synonym decimal256 = nat

definition add128 :: "u128 \<Rightarrow> u128 \<Rightarrow> u128 option" where
  "add128 a b = (if a + b < 2 ^ 128 then Some (a + b) else None)"

definition sub128 :: "u128 \<Rightarrow> u128 \<Rightarrow> u128 option" where
  "sub128 a b = (if b \<le> a then Some (a - b) else None)"

definition add64 :: "u64 \<Rightarrow> u64 \<Rightarrow> u64 option" where
  "add64 a b = (if unat a + unat b < 2 ^ 64 then Some (a + b) else None)"

lemma add128_Some [simp]: "add128 a b = Some c \<longleftrightarrow> c = a + b \<and> a + b < 2 ^ 128"
  by (auto simp: add128_def)

lemma sub128_Some [simp]: "sub128 a b = Some c \<longleftrightarrow> b \<le> a \<and> c = a - b"
  by (auto simp: sub128_def)

lemma add64_Some:
  assumes "add64 a b = Some c"
  shows "c = a + b \<and> unat c = unat a + unat b"
  using assms by (auto simp: add64_def unat_word_ariths split: if_splits)

section \<open>Data\<close>

record pending_batch =
  pb_batch_id :: batch_id
  pb_total_lst_to_burn :: u128
  pb_unstake_requests_count :: u64
  pb_submit_time :: u64

record submitted_batch =
  sb_total_lst_to_burn :: u128
  sb_unstake_requests_count :: u64
  sb_receive_time :: u64
  sb_expected_native_unstaked :: u128

record received_batch =
  rb_total_lst_to_burn :: u128
  rb_unstake_requests_count :: u64
  rb_received_native_unstaked :: u128

record lst_config =
  native_token_denom :: string
  minimum_liquid_stake_amount :: u128
  batch_period_seconds :: u64
  unbonding_period_seconds :: u64

record protocol_fee_config =
  fee_rate :: u128
  fee_recipient :: string

record accounting_state =
  total_bonded_native_tokens :: u128
  total_issued_lst :: u128
  total_reward_amount :: u128

record pending_owner_info =
  po_address :: string
  owner_transfer_min_time_seconds :: u64

record unstake_request =
  ur_batch_id :: batch_id
  ur_staker :: string
  ur_amount :: u128

type_synonym unstake_request_key = "batch_id \<times> h256"

definition pending_batch_new :: "batch_id \<Rightarrow> u64 \<Rightarrow> pending_batch" where
  "pending_batch_new b t = \<lparr>pb_batch_id = b, pb_total_lst_to_burn = 0, pb_unstake_requests_count = 0, pb_submit_time = t\<rparr>"

section \<open>Storage\<close>

record lst_state =
  stopped :: "bool option"
  config_store :: "lst_config option"
  fee_config_store :: "protocol_fee_config option"
  accounting_store :: "accounting_state option"
  monitors :: "string list option"
  lst_admin :: "addr option"
  staker_address :: "addr option"
  lst_address :: "addr option"
  submitted_batches :: "batch_id \<Rightarrow> submitted_batch option"
  received_batches :: "batch_id \<Rightarrow> received_batch option"
  current_pending_batch :: "pending_batch option"
  unstake_requests :: "unstake_request_key \<Rightarrow> unstake_request option"
  unstake_requests_by_hash :: "unstake_request_key \<Rightarrow> unstake_request option"
  pending_owner :: "pending_owner_info option"
  lst_version :: "u32 option"

section \<open>Errors, events, messages\<close>

datatype (plugins only: code) lst_error =
    LstStd std_error
  | LstMigrate upgrade_error
  | LstPayment string
  | LstUnauthorized addr
  | NoPendingOwner
  | CallerIsNotPendingOwner
  | OwnershipTransferNotReady u64 u64
  | MinimumLiquidStakeAmount u128 u128
  | ComputedMintAmountIsZero
  | BatchNotReady u64 u64
  | BatchAlreadySubmitted batch_id
  | NoUnstakeRequestsInCurrentBatch batch_id
  | BatchNotFound batch_id
  | BatchStillPending batch_id
  | BatchAlreadyReceived batch_id
  | ReceivedWrongBatchAmount batch_id u128 u128
  | BatchNotYetReceived batch_id
  | NoRequestInBatch batch_id addr
  | InvalidUnstakeAmount u128 u128
  | StoppedErr
  | NotStopped
  | RewardsReceivedLessThanProtocolFee u128 u128
  | ComputedFeesAreZero u128
  | NoLiquidStake
  | SlippageNotMet u128 u128
  | InvalidProtocolFeeRate
  | BatchPeriodLargerThanUnbondingPeriod u64 u64
  | AttemptedToUnbondMoreThanBonded u128 u128
  | BatchNotYetSubmitted batch_id
  | LstPanic string

datatype (plugins only: code) lst_event =
    InitEv addr string u128 u128 string u64 addr addr
  | BondEv addr addr u128 u128
  | UnbondEv addr batch_id u128 bool
  | SubmitBatchEv batch_id u128 u128 u64
  | ReceiveRewardsEv u128 u128 u128
  | RebaseEv addr
  | ReceiveUnstakedTokensEv batch_id u128
  | WithdrawEv addr batch_id addr u128
  | TransferOwnershipEv string addr
  | RevokeOwnershipTransferEv
  | AcceptOwnershipEv addr
  | CircuitBreakerEv addr
  | ResumeContractEv u128 u128 u128
  | SlashBatchEv batch_id u128
  | ReceiveBatchEv batch_id u128
  | UpdateConfigEv "protocol_fee_config option" "addr list option" "u64 option" "u64 option"

datatype (plugins only: code) lst_execute_msg =
    Bond addr u128
  | Unbond u128
  | Withdraw addr batch_id
  | SubmitBatch
  | TransferOwnership string
  | AcceptOwnership
  | RevokeOwnershipTransfer
  | UpdateConfig "protocol_fee_config option" "addr list option" "u64 option" "u64 option"
  | ReceiveRewards
  | Rebase
  | ReceiveBatch batch_id
  | ReceiveUnstakedTokens batch_id
  | CircuitBreaker
  | ResumeContract u128 u128 u128
  | SlashBatches "(batch_id \<times> u128) list"

text \<open>The calls that leave the hub: to the staker, to the CW20 token, to the bank.\<close>

datatype (plugins only: code) lst_msg =
    StakerStake addr coins
  | StakerUnstake addr u128
  | StakerRebase addr
  | StakerReceiveUnstakedTokens addr batch_id
  | Cw20Mint addr u128 addr
  | Cw20TransferFrom addr addr addr u128
  | Cw20Burn addr u128
  | BankSend addr "string \<times> u128"

record lst_response =
  lst_events :: "lst_event list"
  lst_messages :: "lst_msg list"

definition lst_respond :: "lst_event list \<Rightarrow> lst_msg list \<Rightarrow> lst_response" where
  "lst_respond evs msgs = \<lparr>lst_events = evs, lst_messages = msgs\<rparr>"

lemma lst_respond_simps [simp]: "lst_events (lst_respond e m) = e" "lst_messages (lst_respond e m) = m"
  by (simp_all add: lst_respond_def)

type_synonym lst_result = "lst_error + lst_response \<times> lst_state"

section \<open>Host\<close>

text \<open>
  \<open>multiply_ratio a b c\<close> is \<open>a * b / c\<close> in 256 bits, rounded down, and panics (\<open>None\<close>) when \<open>c\<close> is zero
  or the result does not fit. \<open>must_pay\<close> gives the amount of the one coin sent, \<open>nonpayable\<close> refuses coins.
\<close>

record lst_host =
  lst_sha256 :: "string \<Rightarrow> h256"
  must_pay :: "message_info \<Rightarrow> string \<Rightarrow> string + u128"
  nonpayable :: "message_info \<Rightarrow> string + unit"
  multiply_ratio :: "u128 \<Rightarrow> u128 \<Rightarrow> u128 \<Rightarrow> u128 option"
  dec_checked_add :: "decimal256 \<Rightarrow> decimal256 \<Rightarrow> decimal256 option"
  dec_floor_u128 :: "decimal256 \<Rightarrow> u128 option"
  q_total_rewards :: "addr \<Rightarrow> std_error + (string \<times> decimal256) list"

definition lst_lawful :: "lst_host \<Rightarrow> bool" where
  "lst_lawful L \<longleftrightarrow>
     (\<forall>info denom a. must_pay L info denom = Inr a \<longrightarrow> 0 < a \<and> a < 2 ^ 128 \<and> funds info = [(denom, a)]) \<and>
     (\<forall>info. nonpayable L info = Inr () \<longrightarrow> funds info = []) \<and>
     (\<forall>a b c. multiply_ratio L a b c = (if c = 0 \<or> 2 ^ 128 \<le> a * b div c then None else Some (a * b div c)))"

lemma lawful_pay: "lst_lawful L \<Longrightarrow> must_pay L info denom = Inr a \<Longrightarrow> 0 < a \<and> a < 2 ^ 128 \<and> funds info = [(denom, a)]"
  by (simp add: lst_lawful_def)

lemma lawful_nonpayable: "lst_lawful L \<Longrightarrow> nonpayable L info = Inr u \<Longrightarrow> funds info = []"
  by (simp add: lst_lawful_def)

lemma lawful_ratio: "lst_lawful L \<Longrightarrow> multiply_ratio L a b c = Some r \<Longrightarrow> r = a * b div c \<and> c \<noteq> 0"
  by (auto simp: lst_lawful_def split: if_splits)

end
