(* ===== verification/Lst_Contract.thy ===== *)
theory Lst_Contract
  imports Lst_State
begin

text \<open>
  The operations of the liquid staking hub (\<open>execute.rs\<close>, \<open>helpers.rs\<close>, \<open>contract.rs\<close>), one
  definition per function. An \<open>expect\<close> or a failed \<open>assert\<close> of the source is the error \<open>LstPanic\<close>.
\<close>

section \<open>Helpers\<close>

definition FEE_RATE_DENOMINATOR :: u128 where
  "FEE_RATE_DENOMINATOR = 100000"

definition OWNERSHIP_CLAIM_DELAY_PERIOD_SECONDS :: u64 where
  "OWNERSHIP_CLAIM_DELAY_PERIOD_SECONDS = 60 * 60 * 24 * 7"

definition lread :: "'a option \<Rightarrow> lst_error + 'a" where
  "lread x = ok_or (LstStd (GenericErr ''key not present'')) x"

definition expect :: "string \<Rightarrow> 'a option \<Rightarrow> lst_error + 'a" where
  "expect m x = ok_or (LstPanic m) x"

lemma lread_Inr [result_simps]: "lread x = Inr a \<longleftrightarrow> x = Some a"
  by (simp add: lread_def ok_or_eq_Inr)

lemma lread_Some [simp]: "lread (Some a) = Inr a"
  by (simp add: lread_def)

lemma expect_Inr [result_simps]: "expect m x = Inr a \<longleftrightarrow> x = Some a"
  by (simp add: expect_def ok_or_eq_Inr)

lemma expect_Some [simp]: "expect m (Some a) = Inr a"
  by (simp add: expect_def)

definition lst_seconds :: "block_env \<Rightarrow> u64" where
  "lst_seconds env = block_time env div 1000000000"

definition batch_id_increment :: "batch_id \<Rightarrow> lst_error + batch_id" where
  "batch_id_increment b = expect ''holy batches, batman'' (add64 b 1)"

definition staker_hash :: "lst_host \<Rightarrow> addr \<Rightarrow> h256" where
  "staker_hash L staker = lst_sha256 L staker"

definition assets_to_shares :: "lst_host \<Rightarrow> u128 \<Rightarrow> u128 \<Rightarrow> u128 \<Rightarrow> lst_error + u128" where
  "assets_to_shares L total_assets total_shares assets =
     (if total_assets = 0 then Inr assets
      else expect ''multiply_ratio'' (multiply_ratio L assets total_shares total_assets))"

definition shares_to_assets :: "lst_host \<Rightarrow> u128 \<Rightarrow> u128 \<Rightarrow> u128 \<Rightarrow> lst_error + u128" where
  "shares_to_assets L total_assets total_shares shares =
     (if shares = 0 then Inr 0
      else expect ''multiply_ratio'' (multiply_ratio L shares total_assets total_shares))"

fun sum_rewards :: "lst_host \<Rightarrow> decimal256 list \<Rightarrow> decimal256 \<Rightarrow> decimal256 option" where
  "sum_rewards L [] acc = Some acc"
| "sum_rewards L (r # rs) acc = (case dec_checked_add L acc r of None \<Rightarrow> None | Some acc' \<Rightarrow> sum_rewards L rs acc')"

definition total_pending_rewards :: "lst_host \<Rightarrow> string \<Rightarrow> addr \<Rightarrow> lst_error + u128" where
  "total_pending_rewards L denom staker =
     bindE (map_err LstStd (q_total_rewards L staker)) (\<lambda>total.
     bindE (expect ''too many tokens'' (sum_rewards L (map snd (filter (\<lambda>(d, _). d = denom) total)) 0)) (\<lambda>r.
     expect ''too many tokens'' (dec_floor_u128 L r)))"

definition total_assets :: "lst_host \<Rightarrow> accounting_state \<Rightarrow> string \<Rightarrow> addr \<Rightarrow> lst_error + u128" where
  "total_assets L state denom staker =
     bindE (total_pending_rewards L denom staker) (\<lambda>r.
     expect ''overflow'' (add128 (total_bonded_native_tokens state) r))"

definition ensure_stopped :: "lst_state \<Rightarrow> lst_error + unit" where
  "ensure_stopped s = bindE (lread (stopped s)) (\<lambda>b. if \<not> b then Inl NotStopped else Inr ())"

definition ensure_not_stopped :: "lst_state \<Rightarrow> lst_error + unit" where
  "ensure_not_stopped s = bindE (lread (stopped s)) (\<lambda>b. if b then Inl StoppedErr else Inr ())"

definition ensure_admin :: "message_info \<Rightarrow> lst_state \<Rightarrow> lst_error + unit" where
  "ensure_admin info s =
     bindE (lread (lst_admin s)) (\<lambda>a. if a \<noteq> sender info then Inl (LstUnauthorized (sender info)) else Inr ())"

definition lst_must_pay :: "lst_host \<Rightarrow> message_info \<Rightarrow> string \<Rightarrow> lst_error + u128" where
  "lst_must_pay L info denom = map_err LstPayment (must_pay L info denom)"

definition lst_nonpayable :: "lst_host \<Rightarrow> message_info \<Rightarrow> lst_error + unit" where
  "lst_nonpayable L info = map_err LstPayment (nonpayable L info)"

section \<open>Bonding and unbonding\<close>

definition bond :: "lst_host \<Rightarrow> message_info \<Rightarrow> addr \<Rightarrow> u128 \<Rightarrow> lst_state \<Rightarrow> lst_result" where
  "bond L info mint_to_address min_mint_amount s =
     bindE (ensure_not_stopped s) (\<lambda>_.
     bindE (lread (config_store s)) (\<lambda>config.
     bindE (lst_must_pay L info (native_token_denom config)) (\<lambda>bond_amount.
     bindE (ensureE (minimum_liquid_stake_amount config \<le> bond_amount)
              (MinimumLiquidStakeAmount (minimum_liquid_stake_amount config) bond_amount)) (\<lambda>_.
     bindE (lread (accounting_store s)) (\<lambda>acc.
     bindE (lread (staker_address s)) (\<lambda>staker.
     bindE (total_assets L acc (native_token_denom config) staker) (\<lambda>assets.
     bindE (assets_to_shares L assets (total_issued_lst acc) bond_amount) (\<lambda>mint_amount.
     bindE (ensureE (0 < mint_amount) ComputedMintAmountIsZero) (\<lambda>_.
     bindE (expect ''overflow'' (add128 (total_bonded_native_tokens acc) bond_amount)) (\<lambda>bonded.
     bindE (expect ''overflow'' (add128 (total_issued_lst acc) mint_amount)) (\<lambda>issued.
     bindE (ensureE (min_mint_amount \<le> mint_amount) (SlippageNotMet min_mint_amount mint_amount)) (\<lambda>_.
     bindE (lread (lst_address s)) (\<lambda>lst.
     Inr (lst_respond [BondEv mint_to_address (sender info) bond_amount mint_amount]
            [StakerStake staker (funds info), Cw20Mint lst mint_amount mint_to_address],
          s\<lparr>accounting_store := Some (acc\<lparr>total_bonded_native_tokens := bonded, total_issued_lst := issued\<rparr>)\<rparr>))))))))))))))"

definition upsert_unstake_request :: "message_info \<Rightarrow> batch_id \<Rightarrow> u128 \<Rightarrow> unstake_request option \<Rightarrow> lst_error + unstake_request" where
  "upsert_unstake_request info b unbond_amount r =
     (case r of
       Some r \<Rightarrow>
         if ur_batch_id r \<noteq> b \<or> ur_staker r \<noteq> sender info then Inl (LstPanic ''assertion failed'')
         else bindE (expect ''overflow'' (add128 (ur_amount r) unbond_amount)) (\<lambda>a. Inr (r\<lparr>ur_amount := a\<rparr>))
     | None \<Rightarrow> Inr \<lparr>ur_batch_id = b, ur_staker = sender info, ur_amount = unbond_amount\<rparr>)"

definition unbond :: "lst_host \<Rightarrow> block_env \<Rightarrow> message_info \<Rightarrow> u128 \<Rightarrow> lst_state \<Rightarrow> lst_result" where
  "unbond L env info unbond_amount s =
     bindE (lst_nonpayable L info) (\<lambda>_.
     bindE (ensure_not_stopped s) (\<lambda>_.
     bindE (lread (current_pending_batch s)) (\<lambda>pb.
     let key = (pb_batch_id pb, staker_hash L (sender info)); is_new = (unstake_requests s key = None) in
     bindE (upsert_unstake_request info (pb_batch_id pb) unbond_amount (unstake_requests s key)) (\<lambda>req.
     bindE (expect ''overflow'' (add128 (pb_total_lst_to_burn pb) unbond_amount)) (\<lambda>burn.
     bindE (if is_new then expect ''overflow'' (add64 (pb_unstake_requests_count pb) 1)
            else Inr (pb_unstake_requests_count pb)) (\<lambda>count.
     bindE (lread (lst_address s)) (\<lambda>lst.
     Inr (lst_respond [UnbondEv (sender info) (pb_batch_id pb) unbond_amount is_new]
            [Cw20TransferFrom lst (sender info) (contract_address env) unbond_amount],
          s\<lparr>unstake_requests := (unstake_requests s)(key \<mapsto> req),
            unstake_requests_by_hash := (unstake_requests_by_hash s)(key \<mapsto> req),
            current_pending_batch := Some (pb\<lparr>pb_total_lst_to_burn := burn, pb_unstake_requests_count := count\<rparr>)\<rparr>))))))))"

definition submit_batch :: "lst_host \<Rightarrow> block_env \<Rightarrow> message_info \<Rightarrow> lst_state \<Rightarrow> lst_result" where
  "submit_batch L env info s =
     (let now = lst_seconds env in
     bindE (lst_nonpayable L info) (\<lambda>_.
     bindE (ensure_not_stopped s) (\<lambda>_.
     bindE (lread (config_store s)) (\<lambda>config.
     bindE (lread (current_pending_batch s)) (\<lambda>pb.
     bindE (ensureE (pb_submit_time pb \<le> now) (BatchNotReady now (pb_submit_time pb))) (\<lambda>_.
     bindE (ensureE (0 < pb_unstake_requests_count pb) (NoUnstakeRequestsInCurrentBatch (pb_batch_id pb))) (\<lambda>_.
     bindE (lread (accounting_store s)) (\<lambda>acc.
     bindE (ok_or (InvalidUnstakeAmount (total_issued_lst acc) (pb_total_lst_to_burn pb))
              (sub128 (total_issued_lst acc) (pb_total_lst_to_burn pb))) (\<lambda>new_issued.
     bindE (lread (staker_address s)) (\<lambda>staker.
     bindE (total_assets L acc (native_token_denom config) staker) (\<lambda>assets.
     bindE (shares_to_assets L assets (total_issued_lst acc) (pb_total_lst_to_burn pb)) (\<lambda>unbond_amount.
     bindE (ok_or (AttemptedToUnbondMoreThanBonded unbond_amount (total_bonded_native_tokens acc))
              (sub128 (total_bonded_native_tokens acc) unbond_amount)) (\<lambda>new_bonded.
     bindE (expect ''overflow'' (add64 now (unbonding_period_seconds config))) (\<lambda>receive_time.
     bindE (batch_id_increment (pb_batch_id pb)) (\<lambda>next_batch.
     bindE (expect ''overflow'' (add64 now (batch_period_seconds config))) (\<lambda>submit_time.
     bindE (lread (lst_address s)) (\<lambda>lst.
     Inr (lst_respond [SubmitBatchEv (pb_batch_id pb) (pb_total_lst_to_burn pb) unbond_amount (unbonding_period_seconds config)]
            [StakerUnstake staker unbond_amount, Cw20Burn lst (pb_total_lst_to_burn pb)],
          s\<lparr>accounting_store := Some (acc\<lparr>total_bonded_native_tokens := new_bonded, total_issued_lst := new_issued\<rparr>),
            submitted_batches := (submitted_batches s)(pb_batch_id pb \<mapsto>
              \<lparr>sb_total_lst_to_burn = pb_total_lst_to_burn pb, sb_unstake_requests_count = pb_unstake_requests_count pb,
               sb_receive_time = receive_time, sb_expected_native_unstaked = unbond_amount\<rparr>),
            current_pending_batch := Some (pending_batch_new next_batch submit_time)\<rparr>))))))))))))))))))"

section \<open>Rewards and received batches\<close>

definition receive_rewards :: "lst_host \<Rightarrow> message_info \<Rightarrow> lst_state \<Rightarrow> lst_result" where
  "receive_rewards L info s =
     bindE (ensure_not_stopped s) (\<lambda>_.
     bindE (lread (config_store s)) (\<lambda>config.
     bindE (lst_must_pay L info (native_token_denom config)) (\<lambda>received.
     bindE (lread (fee_config_store s)) (\<lambda>fees.
     bindE (expect ''multiply_ratio'' (multiply_ratio L (fee_rate fees) received FEE_RATE_DENOMINATOR)) (\<lambda>protocol_fee.
     bindE (ensureE (protocol_fee \<noteq> 0) (ComputedFeesAreZero received)) (\<lambda>_.
     bindE (expect ''protocol_fee is <= received_rewards; qed;'' (sub128 received protocol_fee)) (\<lambda>after_fee.
     bindE (lread (accounting_store s)) (\<lambda>acc.
     bindE (ensureE (total_issued_lst acc \<noteq> 0) NoLiquidStake) (\<lambda>_.
     bindE (expect ''overflow'' (add128 (total_bonded_native_tokens acc) after_fee)) (\<lambda>bonded.
     bindE (expect ''overflow'' (add128 (total_reward_amount acc) received)) (\<lambda>rewards.
     bindE (lread (staker_address s)) (\<lambda>staker.
     Inr (lst_respond [ReceiveRewardsEv received after_fee protocol_fee]
            [StakerStake staker [(native_token_denom config, after_fee)],
             BankSend (fee_recipient fees) (native_token_denom config, protocol_fee)],
          s\<lparr>accounting_store := Some (acc\<lparr>total_bonded_native_tokens := bonded, total_reward_amount := rewards\<rparr>)\<rparr>)))))))))))))"

definition rebase :: "lst_host \<Rightarrow> message_info \<Rightarrow> lst_state \<Rightarrow> lst_result" where
  "rebase L info s =
     bindE (lst_nonpayable L info) (\<lambda>_.
     bindE (ensure_not_stopped s) (\<lambda>_.
     bindE (lread (staker_address s)) (\<lambda>staker.
     Inr (lst_respond [RebaseEv (sender info)] [StakerRebase staker], s))))"

definition receive_unstaked_tokens :: "lst_host \<Rightarrow> block_env \<Rightarrow> message_info \<Rightarrow> batch_id \<Rightarrow> lst_state \<Rightarrow> lst_result" where
  "receive_unstaked_tokens L env info b s =
     (let now = lst_seconds env in
     bindE (ensure_not_stopped s) (\<lambda>_.
     bindE (lread (config_store s)) (\<lambda>config.
     bindE (lst_must_pay L info (native_token_denom config)) (\<lambda>received.
     bindE (ok_or (BatchNotFound b) (submitted_batches s b)) (\<lambda>sb.
     bindE (ensureE (sb_receive_time sb \<le> now) (BatchNotReady now (sb_receive_time sb))) (\<lambda>_.
     bindE (ensureE (sb_expected_native_unstaked sb = received)
              (ReceivedWrongBatchAmount b (sb_expected_native_unstaked sb) received)) (\<lambda>_.
     Inr (lst_respond [ReceiveUnstakedTokensEv b received] [],
          s\<lparr>submitted_batches := (submitted_batches s)(b := None),
            received_batches := (received_batches s)(b \<mapsto>
              \<lparr>rb_total_lst_to_burn = sb_total_lst_to_burn sb, rb_unstake_requests_count = sb_unstake_requests_count sb,
               rb_received_native_unstaked = received\<rparr>)\<rparr>))))))))"

definition withdraw :: "lst_host \<Rightarrow> message_info \<Rightarrow> batch_id \<Rightarrow> addr \<Rightarrow> lst_state \<Rightarrow> lst_result" where
  "withdraw L info b withdraw_to_address s =
     bindE (lst_nonpayable L info) (\<lambda>_.
     bindE (ensure_not_stopped s) (\<lambda>_.
     bindE (lread (config_store s)) (\<lambda>config.
     bindE (ok_or (BatchNotYetReceived b) (received_batches s b)) (\<lambda>rb.
     let key = (b, staker_hash L (sender info)) in
     bindE (ok_or (NoRequestInBatch b (sender info)) (unstake_requests s key)) (\<lambda>req.
     bindE (expect ''multiply_ratio''
              (multiply_ratio L (rb_received_native_unstaked rb) (ur_amount req) (rb_total_lst_to_burn rb))) (\<lambda>amount.
     Inr (lst_respond [WithdrawEv (sender info) b withdraw_to_address amount]
            [BankSend withdraw_to_address (native_token_denom config, amount)],
          s\<lparr>unstake_requests := (unstake_requests s)(key := None),
            unstake_requests_by_hash := (unstake_requests_by_hash s)(key := None)\<rparr>)))))))"

definition receive_batch :: "lst_host \<Rightarrow> block_env \<Rightarrow> message_info \<Rightarrow> batch_id \<Rightarrow> lst_state \<Rightarrow> lst_result" where
  "receive_batch L env info b s =
     (let now = lst_seconds env in
     bindE (lst_nonpayable L info) (\<lambda>_.
     bindE (ensure_not_stopped s) (\<lambda>_.
     bindE (ok_or (BatchNotFound b) (submitted_batches s b)) (\<lambda>sb.
     bindE (ensureE (sb_receive_time sb \<le> now) (BatchNotReady now (sb_receive_time sb))) (\<lambda>_.
     bindE (lread (staker_address s)) (\<lambda>staker.
     Inr (lst_respond [ReceiveBatchEv b (sb_expected_native_unstaked sb)] [StakerReceiveUnstakedTokens staker b], s)))))))"

section \<open>Administration\<close>

definition transfer_ownership :: "lst_host \<Rightarrow> block_env \<Rightarrow> message_info \<Rightarrow> string \<Rightarrow> lst_state \<Rightarrow> lst_result" where
  "transfer_ownership L env info new_owner s =
     bindE (lst_nonpayable L info) (\<lambda>_.
     bindE (ensure_admin info s) (\<lambda>_.
     bindE (expect ''overflow'' (add64 (lst_seconds env) OWNERSHIP_CLAIM_DELAY_PERIOD_SECONDS)) (\<lambda>t.
     Inr (lst_respond [TransferOwnershipEv new_owner (sender info)] [],
          s\<lparr>pending_owner := Some \<lparr>po_address = new_owner, owner_transfer_min_time_seconds = t\<rparr>\<rparr>))))"

definition revoke_ownership_transfer :: "lst_host \<Rightarrow> message_info \<Rightarrow> lst_state \<Rightarrow> lst_result" where
  "revoke_ownership_transfer L info s =
     bindE (lst_nonpayable L info) (\<lambda>_.
     bindE (ensure_admin info s) (\<lambda>_.
     Inr (lst_respond [RevokeOwnershipTransferEv] [], s\<lparr>pending_owner := None\<rparr>)))"

definition accept_ownership :: "lst_host \<Rightarrow> block_env \<Rightarrow> message_info \<Rightarrow> lst_state \<Rightarrow> lst_result" where
  "accept_ownership L env info s =
     bindE (lst_nonpayable L info) (\<lambda>_.
     bindE (ok_or NoPendingOwner (pending_owner s)) (\<lambda>po.
     if po_address po = sender info then
       bindE (ensureE (owner_transfer_min_time_seconds po \<le> lst_seconds env)
                (OwnershipTransferNotReady (lst_seconds env) (owner_transfer_min_time_seconds po))) (\<lambda>_.
       Inr (lst_respond [AcceptOwnershipEv (sender info)] [],
            s\<lparr>pending_owner := None, lst_admin := Some (sender info)\<rparr>))
     else Inl CallerIsNotPendingOwner))"

definition update_period :: "(lst_config \<Rightarrow> lst_config) \<Rightarrow> bool \<Rightarrow> lst_state \<Rightarrow> lst_error + lst_state" where
  "update_period f given s =
     (if given then bindE (lread (config_store s)) (\<lambda>c. Inr (s\<lparr>config_store := Some (f c)\<rparr>)) else Inr s)"

definition update_config :: "lst_host \<Rightarrow> message_info \<Rightarrow> protocol_fee_config option \<Rightarrow> addr list option \<Rightarrow> u64 option
    \<Rightarrow> u64 option \<Rightarrow> lst_state \<Rightarrow> lst_result" where
  "update_config L info fees mons batch_period unbonding_period s =
     bindE (lst_nonpayable L info) (\<lambda>_.
     bindE (ensure_admin info s) (\<lambda>_.
     let s1 = (case fees of None \<Rightarrow> s | Some f \<Rightarrow> s\<lparr>fee_config_store := Some f\<rparr>);
         s2 = (case mons of None \<Rightarrow> s1 | Some m \<Rightarrow> s1\<lparr>monitors := Some m\<rparr>) in
     bindE (update_period (\<lambda>c. c\<lparr>batch_period_seconds := the batch_period\<rparr>) (batch_period \<noteq> None) s2) (\<lambda>s3.
     bindE (update_period (\<lambda>c. c\<lparr>unbonding_period_seconds := the unbonding_period\<rparr>) (unbonding_period \<noteq> None) s3) (\<lambda>s4.
     Inr (lst_respond [UpdateConfigEv fees mons batch_period unbonding_period] [], s4)))))"

definition circuit_breaker :: "lst_host \<Rightarrow> message_info \<Rightarrow> lst_state \<Rightarrow> lst_result" where
  "circuit_breaker L info s =
     bindE (lst_nonpayable L info) (\<lambda>_.
     bindE (ensure_not_stopped s) (\<lambda>_.
     bindE (lread (lst_admin s)) (\<lambda>a.
     bindE (if a = sender info then Inr True
            else bindE (lread (monitors s)) (\<lambda>ms. Inr (sender info \<in> set ms))) (\<lambda>allowed.
     if allowed then Inr (lst_respond [CircuitBreakerEv (sender info)] [], s\<lparr>stopped := Some True\<rparr>)
     else Inl (LstUnauthorized (sender info))))))"

definition resume_contract :: "lst_host \<Rightarrow> message_info \<Rightarrow> accounting_state \<Rightarrow> lst_state \<Rightarrow> lst_result" where
  "resume_contract L info acc s =
     bindE (lst_nonpayable L info) (\<lambda>_.
     bindE (ensure_admin info s) (\<lambda>_.
     bindE (ensure_stopped s) (\<lambda>_.
     Inr (lst_respond [ResumeContractEv (total_bonded_native_tokens acc) (total_issued_lst acc) (total_reward_amount acc)] [],
          s\<lparr>stopped := Some False, accounting_store := Some acc\<rparr>))))"

fun slash_loop :: "(batch_id \<times> u128) list \<Rightarrow> lst_state \<Rightarrow> lst_error + lst_state" where
  "slash_loop [] s = Inr s"
| "slash_loop ((b, amount) # rest) s =
     bindE (lread (submitted_batches s b)) (\<lambda>sb.
     slash_loop rest (s\<lparr>submitted_batches := (submitted_batches s)(b \<mapsto> sb\<lparr>sb_expected_native_unstaked := amount\<rparr>)\<rparr>))"

definition slash_batches :: "lst_host \<Rightarrow> message_info \<Rightarrow> (batch_id \<times> u128) list \<Rightarrow> lst_state \<Rightarrow> lst_result" where
  "slash_batches L info amounts s =
     bindE (lst_nonpayable L info) (\<lambda>_.
     bindE (ensure_admin info s) (\<lambda>_.
     bindE (ensure_stopped s) (\<lambda>_.
     bindE (slash_loop amounts s) (\<lambda>s1.
     Inr (lst_respond (map (\<lambda>(b, a). SlashBatchEv b a) amounts) [], s1)))))"

section \<open>Entry points\<close>

fun lst_execute :: "lst_host \<Rightarrow> block_env \<Rightarrow> message_info \<Rightarrow> lst_execute_msg \<Rightarrow> lst_state \<Rightarrow> lst_result" where
  "lst_execute L env info (Bond mint_to min_mint) s = bond L info mint_to min_mint s"
| "lst_execute L env info (Unbond amount) s = unbond L env info amount s"
| "lst_execute L env info SubmitBatch s = submit_batch L env info s"
| "lst_execute L env info (Withdraw to b) s = withdraw L info b to s"
| "lst_execute L env info (TransferOwnership new_owner) s = transfer_ownership L env info new_owner s"
| "lst_execute L env info AcceptOwnership s = accept_ownership L env info s"
| "lst_execute L env info RevokeOwnershipTransfer s = revoke_ownership_transfer L info s"
| "lst_execute L env info (UpdateConfig fees mons bp up) s = update_config L info fees mons bp up s"
| "lst_execute L env info ReceiveRewards s = receive_rewards L info s"
| "lst_execute L env info Rebase s = rebase L info s"
| "lst_execute L env info (ReceiveBatch b) s = receive_batch L env info b s"
| "lst_execute L env info (ReceiveUnstakedTokens b) s = receive_unstaked_tokens L env info b s"
| "lst_execute L env info CircuitBreaker s = circuit_breaker L info s"
| "lst_execute L env info (ResumeContract bonded issued rewards) s =
     resume_contract L info \<lparr>total_bonded_native_tokens = bonded, total_issued_lst = issued, total_reward_amount = rewards\<rparr> s"
| "lst_execute L env info (SlashBatches amounts) s = slash_batches L info amounts s"

record lst_init_msg =
  im_native_token_denom :: string
  im_minimum_liquid_stake_amount :: u128
  im_staker_address :: addr
  im_protocol_fee_config :: protocol_fee_config
  im_lst_address :: addr
  im_batch_period_seconds :: u64
  im_unbonding_period_seconds :: u64
  im_monitors :: "addr list"
  im_admin :: addr

definition lst_instantiate :: "lst_state \<Rightarrow> lst_result" where
  "lst_instantiate s = Inl (LstPanic ''this contract cannot be instantiated directly, but must be migrated from an existing instantiated contract.'')"

definition lst_init :: "block_env \<Rightarrow> lst_init_msg \<Rightarrow> lst_state \<Rightarrow> lst_result" where
  "lst_init env m s =
     bindE (ensureE (im_batch_period_seconds m \<le> im_unbonding_period_seconds m)
              (BatchPeriodLargerThanUnbondingPeriod (im_batch_period_seconds m) (im_unbonding_period_seconds m))) (\<lambda>_.
     bindE (ensureE (fee_rate (im_protocol_fee_config m) \<le> FEE_RATE_DENOMINATOR) InvalidProtocolFeeRate) (\<lambda>_.
     bindE (expect ''overflow'' (add64 (lst_seconds env) (im_batch_period_seconds m))) (\<lambda>submit_time.
     Inr (lst_respond [InitEv (im_admin m) (im_native_token_denom m) (im_minimum_liquid_stake_amount m)
             (fee_rate (im_protocol_fee_config m)) (fee_recipient (im_protocol_fee_config m)) (im_unbonding_period_seconds m)
             (im_staker_address m) (im_lst_address m)] [],
          s\<lparr>lst_admin := Some (im_admin m), staker_address := Some (im_staker_address m), lst_address := Some (im_lst_address m),
            monitors := Some (im_monitors m), fee_config_store := Some (im_protocol_fee_config m),
            config_store := Some \<lparr>native_token_denom = im_native_token_denom m,
              minimum_liquid_stake_amount = im_minimum_liquid_stake_amount m,
              batch_period_seconds = im_batch_period_seconds m, unbonding_period_seconds = im_unbonding_period_seconds m\<rparr>,
            accounting_store := Some \<lparr>total_bonded_native_tokens = 0, total_issued_lst = 0, total_reward_amount = 0\<rparr>,
            current_pending_batch := Some (pending_batch_new 1 submit_time), stopped := Some False\<rparr>))))"

definition put_lst_version :: "u32 \<Rightarrow> lst_state \<Rightarrow> lst_state" where
  "put_lst_version v s = s\<lparr>lst_version := Some v\<rparr>"

definition lst_init_run :: "block_env \<Rightarrow> lst_init_msg \<Rightarrow> lst_state \<Rightarrow> lst_error + ((lst_response \<times> u32 option) \<times> lst_state)" where
  "lst_init_run env m s = bindE (lst_init env m s) (\<lambda>(r, s). Inr ((r, None), s))"

definition lst_migrate_run :: "u32 \<Rightarrow> lst_state \<Rightarrow> lst_error + ((lst_response \<times> u32 option) \<times> lst_state)" where
  "lst_migrate_run v s = Inr ((lst_respond [] [], None), s)"

definition lst_migrate :: "block_env \<Rightarrow> lst_init_msg upgrade_msg \<Rightarrow> lst_state \<Rightarrow> lst_result" where
  "lst_migrate env msg s =
     upgrade_run LstMigrate lst_version put_lst_version msg (lst_init_run env) lst_migrate_run s"

interpretation lst: versioned LstMigrate lst_version put_lst_version "lst_init_run env" lst_migrate_run for env
  by unfold_locales (simp add: put_lst_version_def)

end
