(* ===== verification/Lst_Step.thy ===== *)
theory Lst_Step
  imports Lst_Contract
begin

text \<open>
  What a successful call of the liquid staking hub does: one elimination rule per operation that moves
  money, requests or batches.
\<close>

lemma not_stopped_Inr [result_simps]: "ensure_not_stopped s = Inr u \<longleftrightarrow> stopped s = Some False"
  by (auto simp: ensure_not_stopped_def result_simps)

lemma stopped_Inr [result_simps]: "ensure_stopped s = Inr u \<longleftrightarrow> stopped s = Some True"
  by (auto simp: ensure_stopped_def result_simps)

lemma admin_Inr [result_simps]: "ensure_admin info s = Inr u \<longleftrightarrow> lst_admin s = Some (sender info)"
  by (auto simp: ensure_admin_def result_simps)

lemma must_pay_Inr [result_simps]: "lst_must_pay L info d = Inr a \<longleftrightarrow> must_pay L info d = Inr a"
  by (simp add: lst_must_pay_def result_simps)

lemma nonpayable_Inr [result_simps]: "lst_nonpayable L info = Inr u \<longleftrightarrow> nonpayable L info = Inr ()"
  by (simp add: lst_nonpayable_def result_simps)

lemma total_assets_Inr:
  assumes "total_assets L acc denom staker = Inr a"
  shows "\<exists>r. total_pending_rewards L denom staker = Inr r \<and> a = total_bonded_native_tokens acc + r"
  using assms by (auto simp: total_assets_def result_simps)

lemma bond_Inr:
  assumes "bond L info to min_mint s = Inr (r, s')"
  obtains cfg acc staker lst a assets m where "stopped s = Some False" "config_store s = Some cfg" "accounting_store s = Some acc"
    "staker_address s = Some staker" "must_pay L info (native_token_denom cfg) = Inr a"
    "minimum_liquid_stake_amount cfg \<le> a" "total_assets L acc (native_token_denom cfg) staker = Inr assets"
    "assets_to_shares L assets (total_issued_lst acc) a = Inr m" "0 < m" "min_mint \<le> m"
    "r = lst_respond [BondEv to (sender info) a m] [StakerStake staker (funds info), Cw20Mint lst m to]"
    "s' = s\<lparr>accounting_store := Some (acc\<lparr>total_bonded_native_tokens := total_bonded_native_tokens acc + a,
       total_issued_lst := total_issued_lst acc + m\<rparr>)\<rparr>"
  using assms by (auto simp: bond_def result_simps)

lemma unbond_Inr:
  assumes "unbond L env info a s = Inr (r, s')"
  obtains pb lst req count where "stopped s = Some False" "nonpayable L info = Inr ()" "current_pending_batch s = Some pb"
    "upsert_unstake_request info (pb_batch_id pb) a (unstake_requests s (pb_batch_id pb, staker_hash L (sender info))) = Inr req"
    "if unstake_requests s (pb_batch_id pb, staker_hash L (sender info)) = None
     then add64 (pb_unstake_requests_count pb) 1 = Some count else count = pb_unstake_requests_count pb"
    "r = lst_respond [UnbondEv (sender info) (pb_batch_id pb) a
        (unstake_requests s (pb_batch_id pb, staker_hash L (sender info)) = None)]
        [Cw20TransferFrom lst (sender info) (contract_address env) a]"
    "s' = s\<lparr>unstake_requests := (unstake_requests s)((pb_batch_id pb, staker_hash L (sender info)) \<mapsto> req),
       unstake_requests_by_hash := (unstake_requests_by_hash s)((pb_batch_id pb, staker_hash L (sender info)) \<mapsto> req),
       current_pending_batch := Some (pb\<lparr>pb_total_lst_to_burn := pb_total_lst_to_burn pb + a, pb_unstake_requests_count := count\<rparr>)\<rparr>"
proof -
  obtain pb where pb: "stopped s = Some False" "nonpayable L info = Inr ()" "current_pending_batch s = Some pb"
    using assms by (auto simp: unbond_def Let_def bindE_eq_Inr not_stopped_Inr nonpayable_Inr lread_Inr)
  let ?k = "(pb_batch_id pb, staker_hash L (sender info))"
  obtain req where req: "upsert_unstake_request info (pb_batch_id pb) a (unstake_requests s ?k) = Inr req"
    using assms pb(3) by (auto simp: unbond_def Let_def bindE_eq_Inr lread_Inr)
  obtain count where c: "(if unstake_requests s ?k = None then expect ''overflow'' (add64 (pb_unstake_requests_count pb) 1)
            else Inr (pb_unstake_requests_count pb)) = Inr count"
    using assms pb(3) by (auto simp: unbond_def Let_def bindE_eq_Inr lread_Inr)
  obtain lst where lst: "lst_address s = Some lst"
    using assms by (auto simp: unbond_def Let_def bindE_eq_Inr lread_Inr)
  have "add128 (pb_total_lst_to_burn pb) a \<noteq> None"
    using assms pb(3) by (auto simp: unbond_def Let_def bindE_eq_Inr lread_Inr expect_Inr)
  then have b: "add128 (pb_total_lst_to_burn pb) a = Some (pb_total_lst_to_burn pb + a)"
    by (simp add: add128_def split: if_splits)
  have n: "if unstake_requests s ?k = None then add64 (pb_unstake_requests_count pb) 1 = Some count
      else count = pb_unstake_requests_count pb"
    using c by (auto simp: expect_Inr split: if_splits)
  have "Inr (r, s') = unbond L env info a s"
    using assms by simp
  also have "\<dots> = Inr (lst_respond [UnbondEv (sender info) (pb_batch_id pb) a (unstake_requests s ?k = None)]
        [Cw20TransferFrom lst (sender info) (contract_address env) a],
      s\<lparr>unstake_requests := (unstake_requests s)(?k \<mapsto> req),
       unstake_requests_by_hash := (unstake_requests_by_hash s)(?k \<mapsto> req),
       current_pending_batch := Some (pb\<lparr>pb_total_lst_to_burn := pb_total_lst_to_burn pb + a, pb_unstake_requests_count := count\<rparr>)\<rparr>)"
    using c by (simp add: unbond_def Let_def lst_nonpayable_def ensure_not_stopped_def pb req lst b)
  finally show thesis
    using that [OF pb req n] by simp
qed

lemma submit_Inr:
  assumes "submit_batch L env info s = Inr (r, s')"
  obtains cfg pb acc staker lst assets u rt nb st where "stopped s = Some False" "nonpayable L info = Inr ()"
    "config_store s = Some cfg" "current_pending_batch s = Some pb" "pb_submit_time pb \<le> lst_seconds env"
    "0 < pb_unstake_requests_count pb" "accounting_store s = Some acc" "pb_total_lst_to_burn pb \<le> total_issued_lst acc"
    "staker_address s = Some staker" "total_assets L acc (native_token_denom cfg) staker = Inr assets"
    "shares_to_assets L assets (total_issued_lst acc) (pb_total_lst_to_burn pb) = Inr u"
    "u \<le> total_bonded_native_tokens acc" "add64 (lst_seconds env) (unbonding_period_seconds cfg) = Some rt"
    "add64 (pb_batch_id pb) 1 = Some nb"
    "r = lst_respond [SubmitBatchEv (pb_batch_id pb) (pb_total_lst_to_burn pb) u (unbonding_period_seconds cfg)]
       [StakerUnstake staker u, Cw20Burn lst (pb_total_lst_to_burn pb)]"
    "s' = s\<lparr>accounting_store := Some (acc\<lparr>total_bonded_native_tokens := total_bonded_native_tokens acc - u,
         total_issued_lst := total_issued_lst acc - pb_total_lst_to_burn pb\<rparr>),
       submitted_batches := (submitted_batches s)(pb_batch_id pb \<mapsto>
         \<lparr>sb_total_lst_to_burn = pb_total_lst_to_burn pb, sb_unstake_requests_count = pb_unstake_requests_count pb,
          sb_receive_time = rt, sb_expected_native_unstaked = u\<rparr>),
       current_pending_batch := Some (pending_batch_new nb st)\<rparr>"
  using assms by (auto simp: submit_batch_def Let_def batch_id_increment_def result_simps)

lemma rewards_Inr:
  assumes "receive_rewards L info s = Inr (r, s')"
  obtains cfg fees acc staker a fee where "stopped s = Some False" "config_store s = Some cfg" "fee_config_store s = Some fees"
    "accounting_store s = Some acc" "must_pay L info (native_token_denom cfg) = Inr a"
    "multiply_ratio L (fee_rate fees) a FEE_RATE_DENOMINATOR = Some fee" "fee \<noteq> 0" "fee \<le> a" "total_issued_lst acc \<noteq> 0"
    "r = lst_respond [ReceiveRewardsEv a (a - fee) fee] [StakerStake staker [(native_token_denom cfg, a - fee)],
        BankSend (fee_recipient fees) (native_token_denom cfg, fee)]"
    "s' = s\<lparr>accounting_store := Some (acc\<lparr>total_bonded_native_tokens := total_bonded_native_tokens acc + (a - fee),
       total_reward_amount := total_reward_amount acc + a\<rparr>)\<rparr>"
  using assms by (auto simp: receive_rewards_def result_simps)

lemma receive_Inr:
  assumes "receive_unstaked_tokens L env info b s = Inr (r, s')"
  obtains cfg sb a where "stopped s = Some False" "config_store s = Some cfg" "submitted_batches s b = Some sb"
    "sb_receive_time sb \<le> lst_seconds env" "must_pay L info (native_token_denom cfg) = Inr a" "sb_expected_native_unstaked sb = a"
    "r = lst_respond [ReceiveUnstakedTokensEv b a] []"
    "s' = s\<lparr>submitted_batches := (submitted_batches s)(b := None), received_batches := (received_batches s)(b \<mapsto>
       \<lparr>rb_total_lst_to_burn = sb_total_lst_to_burn sb, rb_unstake_requests_count = sb_unstake_requests_count sb,
        rb_received_native_unstaked = a\<rparr>)\<rparr>"
  using assms by (auto simp: receive_unstaked_tokens_def Let_def result_simps)

lemma withdraw_Inr:
  assumes "withdraw L info b to s = Inr (r, s')"
  obtains cfg rb req a where "stopped s = Some False" "nonpayable L info = Inr ()" "config_store s = Some cfg"
    "received_batches s b = Some rb" "unstake_requests s (b, staker_hash L (sender info)) = Some req"
    "multiply_ratio L (rb_received_native_unstaked rb) (ur_amount req) (rb_total_lst_to_burn rb) = Some a"
    "r = lst_respond [WithdrawEv (sender info) b to a] [BankSend to (native_token_denom cfg, a)]"
    "s' = s\<lparr>unstake_requests := (unstake_requests s)((b, staker_hash L (sender info)) := None),
       unstake_requests_by_hash := (unstake_requests_by_hash s)((b, staker_hash L (sender info)) := None)\<rparr>"
  using assms by (auto simp: withdraw_def Let_def result_simps)

end
