(* ===== verification/Lst_Safety.thy ===== *)
theory Lst_Safety
  imports Lst_Step
begin

text \<open>
  Runs of the liquid staking hub and its solvency: what it pays out never exceeds what it was paid, and what
  it keeps covers every request that can still be withdrawn.
\<close>

section \<open>Runs\<close>

type_synonym lst_trace = "(block_env \<times> message_info \<times> lst_execute_msg \<times> lst_response) list"

inductive lst_run :: "lst_host \<Rightarrow> lst_state \<Rightarrow> lst_trace \<Rightarrow> lst_state \<Rightarrow> bool" for L s0 where
  lst_start: "lst_run L s0 [] s0"
| lst_call: "lst_run L s0 tr s \<Longrightarrow> lst_execute L env info msg s = Inr (r, s') \<Longrightarrow>
    lst_run L s0 (tr @ [(env, info, msg, r)]) s'"
| lst_migrated: "lst_run L s0 tr s \<Longrightarrow> lst_migrate env m s = Inr (r, s') \<Longrightarrow> lst_run L s0 tr s'"

definition lst_empty :: lst_state where
  "lst_empty = \<lparr>stopped = None, config_store = None, fee_config_store = None, accounting_store = None, monitors = None,
     lst_admin = None, staker_address = None, lst_address = None, submitted_batches = \<lambda>_. None, received_batches = \<lambda>_. None,
     current_pending_batch = None, unstake_requests = \<lambda>_. None, unstake_requests_by_hash = \<lambda>_. None, pending_owner = None,
     lst_version = None\<rparr>"

definition lst_reachable :: "lst_host \<Rightarrow> lst_trace \<Rightarrow> lst_state \<Rightarrow> bool" where
  "lst_reachable L tr s \<longleftrightarrow> (\<exists>env m r0 s0. lst_migrate env (UpgradeInit m) lst_empty = Inr (r0, s0) \<and> lst_run L s0 tr s)"

lemma lst_migrate_Inr:
  assumes "lst_migrate env m s = Inr (r, s')" "lst_version s = Some v"
  shows "s' = s"
  using assms by (cases m) (auto simp: lst_migrate_def upgrade_run_def put_lst_version_def lst_migrate_run_def)

section \<open>The books\<close>

definition req_amount :: "lst_state \<Rightarrow> batch_id \<Rightarrow> h256 \<Rightarrow> u128" where
  "req_amount s b h = (case unstake_requests s (b, h) of None \<Rightarrow> 0 | Some r \<Rightarrow> ur_amount r)"

text \<open>The LST of the requests of a batch that have not been withdrawn; there are finitely many hashes.\<close>

definition open_total :: "lst_state \<Rightarrow> batch_id \<Rightarrow> u128" where
  "open_total s b = (\<Sum>h\<in>UNIV. req_amount s b h)"

definition withdrawn_by :: "batch_id \<Rightarrow> lst_response \<Rightarrow> u128" where
  "withdrawn_by b r = sum_list (map (\<lambda>e. case e of WithdrawEv _ b' _ a \<Rightarrow> if b' = b then a else 0 | _ \<Rightarrow> 0) (lst_events r))"

definition withdrawn :: "batch_id \<Rightarrow> lst_trace \<Rightarrow> u128" where
  "withdrawn b tr = sum_list (map (\<lambda>(_, _, _, r). withdrawn_by b r) tr)"

lemma withdrawn_simps [simp]:
  "withdrawn b [] = 0" "withdrawn b (tr @ [(env, info, msg, r)]) = withdrawn b tr + withdrawn_by b r"
  by (simp_all add: withdrawn_def)

definition coin_sum :: "string \<Rightarrow> coins \<Rightarrow> nat" where
  "coin_sum d cs = sum_list (map snd (filter (\<lambda>c. fst c = d) cs))"

definition paid_out_by :: "string \<Rightarrow> lst_response \<Rightarrow> nat" where
  "paid_out_by d r = sum_list (map (\<lambda>m. case m of StakerStake _ cs \<Rightarrow> coin_sum d cs | BankSend _ c \<Rightarrow> coin_sum d [c] | _ \<Rightarrow> 0)
     (lst_messages r))"

definition paid_in :: "string \<Rightarrow> lst_trace \<Rightarrow> nat" where
  "paid_in d tr = sum_list (map (\<lambda>(_, info, _, _). coin_sum d (funds info)) tr)"

definition paid_out :: "string \<Rightarrow> lst_trace \<Rightarrow> nat" where
  "paid_out d tr = sum_list (map (\<lambda>(_, _, _, r). paid_out_by d r) tr)"

lemma paid_simps [simp]:
  "paid_in d [] = 0" "paid_in d (tr @ [(env, info, msg, r)]) = paid_in d tr + coin_sum d (funds info)"
  "paid_out d [] = 0" "paid_out d (tr @ [(env, info, msg, r)]) = paid_out d tr + paid_out_by d r"
  by (simp_all add: paid_in_def paid_out_def)

text \<open>What the hub keeps for a received batch.\<close>

definition held :: "lst_trace \<Rightarrow> lst_state \<Rightarrow> batch_id \<Rightarrow> nat" where
  "held tr s b = (case received_batches s b of None \<Rightarrow> 0 | Some rb \<Rightarrow> rb_received_native_unstaked rb - withdrawn b tr)"

definition lst_inv :: "string \<Rightarrow> lst_trace \<Rightarrow> lst_state \<Rightarrow> bool" where
  "lst_inv d tr s \<longleftrightarrow>
     (\<exists>cfg. config_store s = Some cfg \<and> native_token_denom cfg = d) \<and> lst_version s \<noteq> None \<and>
     (\<exists>pb. current_pending_batch s = Some pb \<and> open_total s (pb_batch_id pb) = pb_total_lst_to_burn pb \<and>
       (\<forall>b h. pb_batch_id pb < b \<longrightarrow> unstake_requests s (b, h) = None) \<and>
       (\<forall>b. pb_batch_id pb \<le> b \<longrightarrow> submitted_batches s b = None \<and> received_batches s b = None)) \<and>
     (\<forall>b sb. submitted_batches s b = Some sb \<longrightarrow> received_batches s b = None \<and> open_total s b = sb_total_lst_to_burn sb) \<and>
     (\<forall>b rb. received_batches s b = Some rb \<longrightarrow>
       rb_total_lst_to_burn rb * withdrawn b tr + rb_received_native_unstaked rb * open_total s b
         \<le> rb_received_native_unstaked rb * rb_total_lst_to_burn rb \<and>
       withdrawn b tr \<le> rb_received_native_unstaked rb \<and>
       0 < rb_received_native_unstaked rb \<and> rb_received_native_unstaked rb < 2 ^ 128) \<and>
     (\<forall>b. received_batches s b = None \<longrightarrow> withdrawn b tr = 0) \<and>
     paid_in d tr = paid_out d tr + (\<Sum>b\<in>UNIV. held tr s b)"

section \<open>Quiet calls\<close>

text \<open>A call that moves no money and does not touch requests and batches, slashing apart.\<close>

definition quiet_call :: "string \<Rightarrow> message_info \<Rightarrow> lst_response \<Rightarrow> lst_state \<Rightarrow> lst_state \<Rightarrow> bool" where
  "quiet_call d info r s s' \<longleftrightarrow>
     map_option native_token_denom (config_store s') = map_option native_token_denom (config_store s) \<and>
     lst_version s' = lst_version s \<and> current_pending_batch s' = current_pending_batch s \<and>
     unstake_requests s' = unstake_requests s \<and> received_batches s' = received_batches s \<and>
     (\<forall>b. map_option sb_total_lst_to_burn (submitted_batches s' b) = map_option sb_total_lst_to_burn (submitted_batches s b)) \<and>
     (\<forall>b. withdrawn_by b r = 0) \<and> coin_sum d (funds info) = paid_out_by d r"

lemma quiet_inv:
  assumes "quiet_call d info r s s'" "lst_inv d tr s"
  shows "lst_inv d (tr @ [(env, info, msg, r)]) s'"
proof -
  have f: "current_pending_batch s' = current_pending_batch s" "received_batches s' = received_batches s"
    "\<And>b. withdrawn_by b r = 0" "coin_sum d (funds info) = paid_out_by d r" "lst_version s' = lst_version s"
    and c: "map_option native_token_denom (config_store s') = map_option native_token_denom (config_store s)"
    and q: "unstake_requests s' = unstake_requests s"
    and sb: "\<And>b. map_option sb_total_lst_to_burn (submitted_batches s' b) = map_option sb_total_lst_to_burn (submitted_batches s b)"
    using assms(1) by (simp_all add: quiet_call_def)
  have o: "open_total s' = open_total s"
    by (simp add: fun_eq_iff open_total_def req_amount_def q)
  have h: "held (tr @ [(env, info, msg, r)]) s' = held tr s"
    by (simp add: fun_eq_iff held_def f split: option.split)
  have n: "submitted_batches s' b = None \<longleftrightarrow> submitted_batches s b = None" for b
    using sb [of b] by (cases "submitted_batches s b"; cases "submitted_batches s' b") auto
  have m: "submitted_batches s' b = Some x \<Longrightarrow> \<exists>y. submitted_batches s b = Some y \<and> sb_total_lst_to_burn y = sb_total_lst_to_burn x" for b x
    using sb [of b] by (cases "submitted_batches s b") auto
  have "\<exists>cfg. config_store s' = Some cfg \<and> native_token_denom cfg = d"
    using assms(2) c unfolding lst_inv_def by (cases "config_store s'") auto
  moreover have "received_batches s b = None \<and> open_total s b = sb_total_lst_to_burn x" if "submitted_batches s' b = Some x" for b x
    using m [OF that] assms(2) unfolding lst_inv_def by fastforce
  ultimately show ?thesis
    using assms(2) unfolding lst_inv_def by (simp add: f o h q n)
qed

lemma coin_sum_simps [simp]: "coin_sum d [] = 0" "coin_sum d [(d', a)] = (if d' = d then a else 0)"
  by (simp_all add: coin_sum_def)

lemma slash_loop_totals:
  assumes "slash_loop amounts s = Inr s'"
  shows "\<exists>f. s' = s\<lparr>submitted_batches := f\<rparr> \<and>
    (\<forall>b. map_option sb_total_lst_to_burn (f b) = map_option sb_total_lst_to_burn (submitted_batches s b))"
  using assms
proof (induction amounts s rule: slash_loop.induct)
  case (1 s)
  then show ?case by (intro exI [of _ "submitted_batches s"]) simp
next
  case (2 b a rest s)
  then obtain sb where sb: "submitted_batches s b = Some sb"
    and r: "slash_loop rest (s\<lparr>submitted_batches := (submitted_batches s)(b \<mapsto> sb\<lparr>sb_expected_native_unstaked := a\<rparr>)\<rparr>) = Inr s'"
    by (auto simp: result_simps)
  from "2.IH" [OF _ r] sb show ?case by (auto simp: lread_def)
qed

lemma update_period_Inr:
  assumes "update_period f g s = Inr s'" "\<And>c. native_token_denom (f c) = native_token_denom c"
  shows "\<exists>c. s' = s\<lparr>config_store := c\<rparr> \<and> map_option native_token_denom c = map_option native_token_denom (config_store s)"
  using assms by (auto simp: update_period_def result_simps split: if_splits)
    (metis lst_state.surjective lst_state.update_convs(2))

lemma quiet_admin:
  assumes "lst_lawful L"
  shows "rebase L info s = Inr (r, s') \<Longrightarrow> quiet_call d info r s s'"
    and "receive_batch L env info b s = Inr (r, s') \<Longrightarrow> quiet_call d info r s s'"
    and "transfer_ownership L env info o' s = Inr (r, s') \<Longrightarrow> quiet_call d info r s s'"
    and "revoke_ownership_transfer L info s = Inr (r, s') \<Longrightarrow> quiet_call d info r s s'"
    and "accept_ownership L env info s = Inr (r, s') \<Longrightarrow> quiet_call d info r s s'"
    and "circuit_breaker L info s = Inr (r, s') \<Longrightarrow> quiet_call d info r s s'"
    and "resume_contract L info acc s = Inr (r, s') \<Longrightarrow> quiet_call d info r s s'"
  using lawful_nonpayable [OF assms]
  by (auto simp: rebase_def receive_batch_def transfer_ownership_def revoke_ownership_transfer_def accept_ownership_def
      circuit_breaker_def resume_contract_def Let_def result_simps quiet_call_def withdrawn_by_def paid_out_by_def split: if_splits)

lemma withdrawn_by_slash [simp]: "withdrawn_by b (lst_respond (map (\<lambda>(b, a). SlashBatchEv b a) amounts) []) = 0"
  by (induction amounts) (auto simp: withdrawn_by_def)

lemma quiet_slash:
  assumes "lst_lawful L" "slash_batches L info amounts s = Inr (r, s')"
  shows "quiet_call d info r s s'"
proof -
  have "funds info = []" and l: "slash_loop amounts s = Inr s'"
    and r: "r = lst_respond (map (\<lambda>(b, a). SlashBatchEv b a) amounts) []"
    using assms lawful_nonpayable by (auto simp: slash_batches_def result_simps)
  then show ?thesis
    using slash_loop_totals [OF l] by (auto simp: quiet_call_def paid_out_by_def)
qed

lemma quiet_update:
  assumes "lst_lawful L" "update_config L info fees mons bp up s = Inr (r, s')"
  shows "quiet_call d info r s s'"
proof -
  define s2 where "s2 = (case mons of None \<Rightarrow> (case fees of None \<Rightarrow> s | Some f \<Rightarrow> s\<lparr>fee_config_store := Some f\<rparr>)
    | Some m \<Rightarrow> (case fees of None \<Rightarrow> s | Some f \<Rightarrow> s\<lparr>fee_config_store := Some f\<rparr>)\<lparr>monitors := Some m\<rparr>)"
  obtain s3 where f: "funds info = []" and s3: "update_period (\<lambda>c. c\<lparr>batch_period_seconds := the bp\<rparr>) (bp \<noteq> None) s2 = Inr s3"
    and s4: "update_period (\<lambda>c. c\<lparr>unbonding_period_seconds := the up\<rparr>) (up \<noteq> None) s3 = Inr s'"
    and r: "r = lst_respond [UpdateConfigEv fees mons bp up] []"
    using assms lawful_nonpayable by (auto simp: update_config_def Let_def bindE_eq_Inr nonpayable_Inr s2_def)
  obtain c3 c4 where "s3 = s2\<lparr>config_store := c3\<rparr>" "s' = s3\<lparr>config_store := c4\<rparr>"
    "map_option native_token_denom c3 = map_option native_token_denom (config_store s2)"
    "map_option native_token_denom c4 = map_option native_token_denom c3"
    using update_period_Inr [OF s3] update_period_Inr [OF s4] by auto
  then show ?thesis
    using f r by (auto simp: s2_def quiet_call_def paid_out_by_def withdrawn_by_def split: option.splits)
qed

lemma quiet_bond:
  assumes "lst_lawful L" "bond L info to min_mint s = Inr (r, s')"
  shows "quiet_call d info r s s'"
  by (rule bond_Inr [OF assms(2)]) (simp add: quiet_call_def withdrawn_by_def paid_out_by_def)

lemma quiet_rewards:
  assumes "lst_lawful L" "receive_rewards L info s = Inr (r, s')"
  shows "quiet_call d info r s s'"
  by (rule rewards_Inr [OF assms(2)]) (auto simp: quiet_call_def withdrawn_by_def paid_out_by_def dest: lawful_pay [OF assms(1)])

end
