(* ===== verification/Lst_Solvent.thy ===== *)
theory Lst_Solvent
  imports Lst_Safety
begin

text \<open>
  Solvency of the liquid staking hub: the calls that move requests and batches keep the books of \<open>Lst_Safety\<close>,
  so every reachable state has them in order.
\<close>

section \<open>Sums with one changed entry\<close>

lemma sum_one_changed:
  fixes f g :: "'a::finite \<Rightarrow> nat"
  assumes "\<And>x. x \<noteq> k \<Longrightarrow> f x = g x"
  shows "(\<Sum>x\<in>UNIV. f x) + g k = (\<Sum>x\<in>UNIV. g x) + f k"
proof -
  have "(\<Sum>x\<in>UNIV - {k}. f x) = (\<Sum>x\<in>UNIV - {k}. g x)"
    using assms by (intro sum.cong) auto
  then show ?thesis
    by (simp add: sum.remove [of UNIV k])
qed

lemma open_total_cong: "unstake_requests s' = unstake_requests s \<Longrightarrow> open_total s' = open_total s"
  by (simp add: fun_eq_iff open_total_def req_amount_def)

lemma open_total_other:
  assumes "unstake_requests s' = (unstake_requests s)((b, h) := x)" "b' \<noteq> b"
  shows "open_total s' b' = open_total s b'"
  using assms by (simp add: open_total_def req_amount_def)

lemma open_total_upd:
  assumes "unstake_requests s' = (unstake_requests s)((b, h) := x)"
  shows "open_total s' b + req_amount s b h = open_total s b + (case x of None \<Rightarrow> 0 | Some r \<Rightarrow> ur_amount r)"
  using sum_one_changed [of h "req_amount s' b" "req_amount s b"] assms
  by (simp add: open_total_def req_amount_def)

lemma open_total_0: "(\<And>h. unstake_requests s (b, h) = None) \<Longrightarrow> open_total s b = 0"
  by (simp add: open_total_def req_amount_def)

lemma req_le_open: "unstake_requests s (b, h) = Some r \<Longrightarrow> ur_amount r \<le> open_total s b"
  using member_le_sum [of h UNIV "req_amount s b"] by (simp add: open_total_def req_amount_def)

lemma held_same:
  assumes "withdrawn_by b r = 0" "received_batches s' b = received_batches s b"
  shows "held (tr @ [(env, info, msg, r)]) s' b = held tr s b"
  using assms by (simp add: held_def split: option.split)

section \<open>Reading the books\<close>

lemma inv_pending:
  assumes "lst_inv d tr s" "current_pending_batch s = Some pb"
  shows "open_total s (pb_batch_id pb) = pb_total_lst_to_burn pb"
    and "pb_batch_id pb < b \<Longrightarrow> unstake_requests s (b, h) = None"
    and "pb_batch_id pb \<le> b \<Longrightarrow> submitted_batches s b = None"
    and "pb_batch_id pb \<le> b \<Longrightarrow> received_batches s b = None"
  using assms by (auto simp: lst_inv_def)

lemma inv_submitted:
  assumes "lst_inv d tr s" "submitted_batches s b = Some sb"
  shows "received_batches s b = None" "open_total s b = sb_total_lst_to_burn sb"
  using assms by (auto simp: lst_inv_def)

lemma inv_received:
  assumes "lst_inv d tr s" "received_batches s b = Some rb"
  shows "rb_total_lst_to_burn rb * withdrawn b tr + rb_received_native_unstaked rb * open_total s b
         \<le> rb_received_native_unstaked rb * rb_total_lst_to_burn rb"
    and "withdrawn b tr \<le> rb_received_native_unstaked rb"
    and "0 < rb_received_native_unstaked rb \<and> rb_received_native_unstaked rb < 2 ^ 128"
  using assms by (auto simp: lst_inv_def)

lemma inv_rest:
  assumes "lst_inv d tr s"
  shows "\<exists>cfg. config_store s = Some cfg \<and> native_token_denom cfg = d" "lst_version s \<noteq> None"
    "received_batches s b = None \<Longrightarrow> withdrawn b tr = 0"
    "paid_in d tr = paid_out d tr + (\<Sum>b\<in>UNIV. held tr s b)" "\<exists>pb. current_pending_batch s = Some pb"
  using assms by (auto simp: lst_inv_def)

lemma lst_invI:
  assumes "\<exists>cfg. config_store s = Some cfg \<and> native_token_denom cfg = d" "lst_version s \<noteq> None"
    "current_pending_batch s = Some pb" "open_total s (pb_batch_id pb) = pb_total_lst_to_burn pb"
    "\<And>b h. pb_batch_id pb < b \<Longrightarrow> unstake_requests s (b, h) = None"
    "\<And>b. pb_batch_id pb \<le> b \<Longrightarrow> submitted_batches s b = None \<and> received_batches s b = None"
    "\<And>b sb. submitted_batches s b = Some sb \<Longrightarrow> received_batches s b = None \<and> open_total s b = sb_total_lst_to_burn sb"
    "\<And>b rb. received_batches s b = Some rb \<Longrightarrow>
       rb_total_lst_to_burn rb * withdrawn b tr + rb_received_native_unstaked rb * open_total s b
         \<le> rb_received_native_unstaked rb * rb_total_lst_to_burn rb"
    "\<And>b rb. received_batches s b = Some rb \<Longrightarrow> withdrawn b tr \<le> rb_received_native_unstaked rb"
    "\<And>b rb. received_batches s b = Some rb \<Longrightarrow> 0 < rb_received_native_unstaked rb \<and> rb_received_native_unstaked rb < 2 ^ 128"
    "\<And>b. received_batches s b = None \<Longrightarrow> withdrawn b tr = 0"
    "paid_in d tr = paid_out d tr + (\<Sum>b\<in>UNIV. held tr s b)"
  shows "lst_inv d tr s"
  using assms unfolding lst_inv_def by auto

section \<open>The calls that move requests and batches\<close>

lemma upsert_amount:
  assumes "upsert_unstake_request info b a (unstake_requests s (b, h)) = Inr req"
  shows "ur_amount req = req_amount s b h + a"
  using assms by (auto simp: upsert_unstake_request_def req_amount_def result_simps split: option.splits if_splits)

lemma unbond_inv:
  assumes L: "lst_lawful L" and u: "unbond L env info a s = Inr (r, s')" and i: "lst_inv d tr s"
  shows "lst_inv d (tr @ [(env, info, msg, r)]) s'"
  using u
proof (rule unbond_Inr)
  fix pb :: pending_batch and lst req count
  let ?b = "pb_batch_id pb" and ?h = "staker_hash L (sender info)"
  assume pb: "current_pending_batch s = Some pb" and n: "nonpayable L info = Inr ()"
    and req: "upsert_unstake_request info ?b a (unstake_requests s (?b, ?h)) = Inr req"
    and r: "r = lst_respond [UnbondEv (sender info) ?b a (unstake_requests s (?b, ?h) = None)]
        [Cw20TransferFrom lst (sender info) (contract_address env) a]"
    and s': "s' = s\<lparr>unstake_requests := (unstake_requests s)((?b, ?h) \<mapsto> req),
       unstake_requests_by_hash := (unstake_requests_by_hash s)((?b, ?h) \<mapsto> req),
       current_pending_batch := Some (pb\<lparr>pb_total_lst_to_burn := pb_total_lst_to_burn pb + a, pb_unstake_requests_count := count\<rparr>)\<rparr>"
  have q: "unstake_requests s' = (unstake_requests s)((?b, ?h) := Some req)"
    by (simp add: s')
  have o: "open_total s' ?b = pb_total_lst_to_burn pb + a"
    using open_total_upd [OF q] upsert_amount [OF req] inv_pending(1) [OF i pb] by simp
  have w: "withdrawn_by b r = 0" for b
    by (simp add: r withdrawn_by_def)
  have h: "held (tr @ [(env, info, msg, r)]) s' = held tr s"
    by (intro ext held_same w) (simp add: s')
  have b: "submitted_batches s b = Some sb \<Longrightarrow> open_total s' b = open_total s b"
    "received_batches s b = Some rb \<Longrightarrow> open_total s' b = open_total s b" for b sb rb
    using open_total_other [OF q, of b] inv_pending(3,4) [OF i pb, of b] by (cases "b = ?b"; simp)+
  have f: "config_store s' = config_store s" "lst_version s' = lst_version s" "submitted_batches s' = submitted_batches s"
    "received_batches s' = received_batches s" "coin_sum d (funds info) = 0" "paid_out_by d r = 0"
    and pb': "current_pending_batch s' =
      Some (pb\<lparr>pb_total_lst_to_burn := pb_total_lst_to_burn pb + a, pb_unstake_requests_count := count\<rparr>)"
    using lawful_nonpayable [OF L n] by (simp_all add: s' r paid_out_by_def)
  show ?thesis
    using inv_rest [OF i] inv_pending [OF i pb] inv_submitted [OF i] inv_received [OF i]
    by (intro lst_invI [OF _ _ pb']) (simp_all add: f q w h o b order.strict_implies_not_eq [symmetric])
qed

lemma submit_inv:
  assumes L: "lst_lawful L" and u: "submit_batch L env info s = Inr (r, s')" and i: "lst_inv d tr s"
  shows "lst_inv d (tr @ [(env, info, msg, r)]) s'"
  using u
proof (rule submit_Inr)
  fix cfg acc staker lst assets u rt nb st and pb :: pending_batch
  let ?b = "pb_batch_id pb"
  assume pb: "current_pending_batch s = Some pb" and n: "nonpayable L info = Inr ()" and nb: "add64 ?b 1 = Some nb"
    and r: "r = lst_respond [SubmitBatchEv ?b (pb_total_lst_to_burn pb) u (unbonding_period_seconds cfg)]
       [StakerUnstake staker u, Cw20Burn lst (pb_total_lst_to_burn pb)]"
    and s': "s' = s\<lparr>accounting_store := Some (acc\<lparr>total_bonded_native_tokens := total_bonded_native_tokens acc - u,
         total_issued_lst := total_issued_lst acc - pb_total_lst_to_burn pb\<rparr>),
       submitted_batches := (submitted_batches s)(?b \<mapsto>
         \<lparr>sb_total_lst_to_burn = pb_total_lst_to_burn pb, sb_unstake_requests_count = pb_unstake_requests_count pb,
          sb_receive_time = rt, sb_expected_native_unstaked = u\<rparr>),
       current_pending_batch := Some (pending_batch_new nb st)\<rparr>"
  have lt: "?b < nb"
    using conjunct2 [OF add64_Some [OF nb]] by (simp add: word_less_nat_alt)
  have w: "withdrawn_by b r = 0" for b
    by (simp add: r withdrawn_by_def)
  have h: "held (tr @ [(env, info, msg, r)]) s' = held tr s"
    by (intro ext held_same w) (simp add: s')
  have o: "open_total s' = open_total s"
    by (rule open_total_cong) (simp add: s')
  have z: "open_total s nb = 0"
    by (rule open_total_0) (simp add: inv_pending(2) [OF i pb] lt)
  have g: "?b < b" "?b \<le> b" "b \<noteq> ?b" if "nb \<le> b" for b
    using lt that by auto
  have f: "config_store s' = config_store s" "lst_version s' = lst_version s"
    "received_batches s' = received_batches s" "coin_sum d (funds info) = 0" "paid_out_by d r = 0"
    "unstake_requests s' = unstake_requests s"
    and pb': "current_pending_batch s' = Some (pending_batch_new nb st)"
    using lawful_nonpayable [OF L n] by (simp_all add: s' r paid_out_by_def)
  have sb: "submitted_batches s' b = None \<longleftrightarrow> submitted_batches s b = None \<and> b \<noteq> ?b" for b
    by (simp add: s')
  have sb': "received_batches s b = None \<and> open_total s b = sb_total_lst_to_burn x" if "submitted_batches s' b = Some x" for b x
    using that inv_submitted [OF i, of b] inv_pending(1) [OF i pb] inv_pending(4) [OF i pb, of b] by (auto simp: s' split: if_splits)
  show ?thesis
    using inv_rest [OF i] inv_pending [OF i pb] inv_received [OF i]
    by (intro lst_invI [OF _ _ pb']) (simp_all add: f w h o z sb sb' g pending_batch_new_def less_imp_le order.strict_trans [OF lt])
qed

lemma receive_inv:
  assumes L: "lst_lawful L" and u: "receive_unstaked_tokens L env info b s = Inr (r, s')" and i: "lst_inv d tr s"
  shows "lst_inv d (tr @ [(env, info, msg, r)]) s'"
  using u
proof (rule receive_Inr)
  fix cfg sb and a :: u128
  assume c: "config_store s = Some cfg" and sb: "submitted_batches s b = Some sb"
    and a: "must_pay L info (native_token_denom cfg) = Inr a"
    and r: "r = lst_respond [ReceiveUnstakedTokensEv b a] []"
    and s': "s' = s\<lparr>submitted_batches := (submitted_batches s)(b := None), received_batches := (received_batches s)(b \<mapsto>
       \<lparr>rb_total_lst_to_burn = sb_total_lst_to_burn sb, rb_unstake_requests_count = sb_unstake_requests_count sb,
        rb_received_native_unstaked = a\<rparr>)\<rparr>"
  obtain pb where pb: "current_pending_batch s = Some pb"
    using inv_rest(5) [OF i] by blast
  have d: "native_token_denom cfg = d"
    using inv_rest(1) [OF i] c by simp
  have w: "withdrawn_by b r = 0" for b
    by (simp add: r withdrawn_by_def)
  note none = inv_submitted(1) [OF i sb]
  have h: "(\<Sum>x\<in>UNIV. held (tr @ [(env, info, msg, r)]) s' x) = (\<Sum>x\<in>UNIV. held tr s x) + a"
  proof -
    have "held (tr @ [(env, info, msg, r)]) s' x = held tr s x" if "x \<noteq> b" for x
      using that by (intro held_same w) (simp add: s')
    moreover have "held tr s b = 0" "held (tr @ [(env, info, msg, r)]) s' b = a"
      using none inv_rest(3) [OF i none] by (simp_all add: held_def w s')
    ultimately show ?thesis
      using sum_one_changed [of b "held (tr @ [(env, info, msg, r)]) s'" "held tr s"] by simp
  qed
  have o: "open_total s' = open_total s"
    by (rule open_total_cong) (simp add: s')
  have ne: "\<not> pb_batch_id pb \<le> b"
    using inv_pending(3) [OF i pb] sb by fastforce
  have f: "config_store s' = config_store s" "lst_version s' = lst_version s" "unstake_requests s' = unstake_requests s"
    "coin_sum d (funds info) = a" "paid_out_by d r = 0"
    and pb': "current_pending_batch s' = Some pb"
    using lawful_pay [OF L a] d by (simp_all add: s' r pb paid_out_by_def)
  have sb': "submitted_batches s x = Some y \<and> x \<noteq> b" if "submitted_batches s' x = Some y" for x y
    using that by (auto simp: s' split: if_splits)
  have rb: "received_batches s' x = None \<longleftrightarrow> received_batches s x = None \<and> x \<noteq> b" for x
    by (simp add: s')
  have rb': "rb_total_lst_to_burn y * withdrawn x tr + rb_received_native_unstaked y * open_total s x
         \<le> rb_received_native_unstaked y * rb_total_lst_to_burn y" "withdrawn x tr \<le> rb_received_native_unstaked y"
      "0 < rb_received_native_unstaked y \<and> rb_received_native_unstaked y < 2 ^ 128"
    if "received_batches s' x = Some y" for x y
    using that inv_received [OF i, of x y] inv_rest(3) [OF i none] inv_submitted(2) [OF i sb] lawful_pay [OF L a]
    by (auto simp: s' split: if_splits)
  have p: "submitted_batches s' x = None \<and> received_batches s' x = None" if "pb_batch_id pb \<le> x" for x
    using that ne inv_pending(3,4) [OF i pb that] by (auto simp: s')
  have q: "received_batches s' x = None \<and> open_total s x = sb_total_lst_to_burn y" if "submitted_batches s' x = Some y" for x y
    using sb' [OF that] inv_submitted [OF i, of x y] by (simp add: rb)
  show ?thesis
    using inv_rest [OF i] inv_pending(1,2) [OF i pb] rb' p q
    by (intro lst_invI [OF _ _ pb']) (simp_all add: f w h o rb)
qed

lemma withdraw_arith:
  fixes W T R A q a :: nat
  assumes "T * W + R * A \<le> R * T" "q \<le> A" "a = R * q div T" "T \<noteq> 0"
  shows "T * (W + a) + R * (A - q) \<le> R * T" "W + a \<le> R"
proof -
  have "T * a \<le> R * q"
    using assms(3) by simp
  moreover have "R * q + R * (A - q) = R * A"
    using assms(2) by (simp add: algebra_simps flip: distrib_left)
  ultimately show *: "T * (W + a) + R * (A - q) \<le> R * T"
    using assms(1) by (simp add: distrib_left)
  have "T * (W + a) \<le> T * R"
    using add_leD1 [OF *] by (simp only: mult.commute)
  then show "W + a \<le> R"
    using assms(4) by simp
qed

lemma withdraw_inv:
  assumes L: "lst_lawful L" and u: "withdraw L info b to s = Inr (r, s')" and i: "lst_inv d tr s"
  shows "lst_inv d (tr @ [(env, info, msg, r)]) s'"
  using u
proof (rule withdraw_Inr)
  fix cfg rb req a
  let ?h = "staker_hash L (sender info)"
  assume c: "config_store s = Some cfg" and n: "nonpayable L info = Inr ()" and rb: "received_batches s b = Some rb"
    and req: "unstake_requests s (b, ?h) = Some req"
    and a: "multiply_ratio L (rb_received_native_unstaked rb) (ur_amount req) (rb_total_lst_to_burn rb) = Some a"
    and r: "r = lst_respond [WithdrawEv (sender info) b to a] [BankSend to (native_token_denom cfg, a)]"
    and s': "s' = s\<lparr>unstake_requests := (unstake_requests s)((b, ?h) := None),
       unstake_requests_by_hash := (unstake_requests_by_hash s)((b, ?h) := None)\<rparr>"
  obtain pb where pb: "current_pending_batch s = Some pb"
    using inv_rest(5) [OF i] by blast
  have d: "native_token_denom cfg = d"
    using inv_rest(1) [OF i] c by simp
  have w: "withdrawn_by x r = (if x = b then a else 0)" for x
    by (simp add: r withdrawn_by_def)
  have q: "unstake_requests s' = (unstake_requests s)((b, ?h) := None)"
    by (simp add: s')
  have ob: "open_total s' b = open_total s b - ur_amount req"
    using open_total_upd [OF q] req by (simp add: req_amount_def)
  have other: "open_total s' x = open_total s x" if "x \<noteq> b" for x
    using open_total_other [OF q that] .
  have ar: "rb_total_lst_to_burn rb * (withdrawn b tr + a) + rb_received_native_unstaked rb * open_total s' b
      \<le> rb_received_native_unstaked rb * rb_total_lst_to_burn rb" "withdrawn b tr + a \<le> rb_received_native_unstaked rb"
    unfolding ob using withdraw_arith [OF inv_received(1) [OF i rb] req_le_open [OF req]] lawful_ratio [OF L a] by blast+
  have h: "(\<Sum>x\<in>UNIV. held tr s x) = (\<Sum>x\<in>UNIV. held (tr @ [(env, info, msg, r)]) s' x) + a"
  proof -
    have "held (tr @ [(env, info, msg, r)]) s' x = held tr s x" if "x \<noteq> b" for x
      using that by (intro held_same) (simp_all add: w s')
    moreover have "held tr s b = held (tr @ [(env, info, msg, r)]) s' b + a"
      using rb ar(2) by (simp add: held_def w s')
    ultimately show ?thesis
      using sum_one_changed [of b "held (tr @ [(env, info, msg, r)]) s'" "held tr s"] by simp
  qed
  have ne: "x \<noteq> b" if "pb_batch_id pb \<le> x \<or> submitted_batches s x = Some y \<or> received_batches s x = None" for x y
    using that inv_pending(4) [OF i pb] inv_submitted(1) [OF i] rb by fastforce
  have f: "config_store s' = config_store s" "lst_version s' = lst_version s" "submitted_batches s' = submitted_batches s"
    "received_batches s' = received_batches s" "coin_sum d (funds info) = 0" "paid_out_by d r = a"
    and pb': "current_pending_batch s' = Some pb"
    using lawful_nonpayable [OF L n] d by (simp_all add: s' r pb paid_out_by_def)
  have rec: "rb_total_lst_to_burn y * (withdrawn x tr + withdrawn_by x r) + rb_received_native_unstaked y * open_total s' x
         \<le> rb_received_native_unstaked y * rb_total_lst_to_burn y"
      "withdrawn x tr + withdrawn_by x r \<le> rb_received_native_unstaked y"
    if "received_batches s x = Some y" for x y
    using ar rb that inv_received [OF i that] other [of x] by (cases "x = b"; simp add: w)+
  show ?thesis
    using inv_rest [OF i] inv_pending [OF i pb] inv_submitted [OF i] inv_received(3) [OF i] rec
    by (intro lst_invI [OF _ _ pb']) (simp_all add: f h q ne other w)
qed

section \<open>Every reachable state\<close>

lemma execute_inv:
  assumes L: "lst_lawful L" and x: "lst_execute L env info msg s = Inr (r, s')" and i: "lst_inv d tr s"
  shows "lst_inv d (tr @ [(env, info, msg, r)]) s'"
  using x quiet_admin [OF L] quiet_slash [OF L] quiet_update [OF L] quiet_bond [OF L] quiet_rewards [OF L]
  by (cases msg) (auto intro: quiet_inv [OF _ i] unbond_inv [OF L _ i] submit_inv [OF L _ i] receive_inv [OF L _ i]
      withdraw_inv [OF L _ i])

lemma init_inv:
  assumes "lst_migrate env (UpgradeInit m) lst_empty = Inr (r, s)"
  shows "lst_inv (im_native_token_denom m) [] s"
  using assms
  by (auto simp: lst_migrate_def upgrade_run_def lst_init_run_def lst_init_def lst_empty_def put_lst_version_def result_simps
      lst_inv_def pending_batch_new_def open_total_def req_amount_def held_def)

end
