(* ===== verification/Lst_Value.thy ===== *)
theory Lst_Value
  imports Lst_Solvent
begin

text \<open>
  What the liquid staking hub promises its users: it can pay every open request, a request that is due is
  paid, a share never loses value, bonding and unbonding at once gains nothing, a stopped hub moves nothing.
  \<open>Lst_Demo\<close> shows a concrete hub on which the hypotheses of these properties hold.
\<close>

section \<open>Solvency\<close>

lemma run_inv:
  assumes "lst_run L s0 tr s" "lst_lawful L" "lst_inv d [] s0"
  shows "lst_inv d tr s"
  using assms
proof (induction rule: lst_run.induct)
  case (lst_migrated tr s env m r s')
  then show ?case
    using lst_migrate_Inr inv_rest(2) by blast
qed (auto intro: execute_inv)

lemma reachable_inv:
  assumes "lst_lawful L" "lst_reachable L tr s" "config_store s = Some cfg"
  shows "lst_inv (native_token_denom cfg) tr s"
proof -
  obtain env m r0 s0 where init: "lst_migrate env (UpgradeInit m) lst_empty = Inr (r0, s0)" and run: "lst_run L s0 tr s"
    using assms(2) by (auto simp: lst_reachable_def)
  have "lst_inv (im_native_token_denom m) tr s"
    by (rule run_inv [OF run assms(1) init_inv [OF init]])
  then show ?thesis
    using inv_rest(1) assms(3) by fastforce
qed

text \<open>What the open requests of a received batch can still withdraw.\<close>

definition claims_on :: "lst_state \<Rightarrow> batch_id \<Rightarrow> u128" where
  "claims_on s b = (case received_batches s b of None \<Rightarrow> 0
     | Some rb \<Rightarrow> \<Sum>h\<in>UNIV. rb_received_native_unstaked rb * req_amount s b h div rb_total_lst_to_burn rb)"

lemma sum_div_le:
  fixes f :: "'a \<Rightarrow> nat"
  shows "(\<Sum>x\<in>A. f x div t) \<le> (\<Sum>x\<in>A. f x) div t"
proof (cases "finite A")
  case True
  then show ?thesis
  proof (induction A rule: finite_induct)
    case (insert x A)
    have "f x div t + (\<Sum>x\<in>A. f x div t) \<le> f x div t + (\<Sum>x\<in>A. f x) div t"
      using insert.IH by simp
    also have "\<dots> \<le> (f x + (\<Sum>x\<in>A. f x)) div t"
      by (metis div_add1_eq le_add1)
    finally show ?case
      using insert.hyps by simp
  qed simp
qed simp

lemma claims_le_held:
  assumes "lst_inv d tr s"
  shows "claims_on s b \<le> held tr s b"
proof (cases "received_batches s b")
  case (Some rb)
  let ?R = "rb_received_native_unstaked rb" and ?T = "rb_total_lst_to_burn rb" and ?W = "withdrawn b tr"
  have "claims_on s b \<le> ?R * open_total s b div ?T"
    using sum_div_le [of "\<lambda>h. ?R * req_amount s b h" ?T UNIV] Some
    by (simp add: claims_on_def open_total_def sum_distrib_left)
  also have "\<dots> \<le> ?R - ?W"
  proof (cases "?T = 0")
    case False
    have "?R * open_total s b \<le> ?T * (?R - ?W)"
      using inv_received(1) [OF assms Some] by (simp add: diff_mult_distrib2 mult.commute)
    then have "?R * open_total s b div ?T \<le> ?T * (?R - ?W) div ?T"
      by (rule div_le_mono)
    then show ?thesis
      using False by simp
  qed simp
  finally show ?thesis
    using Some by (simp add: held_def)
qed (simp add: claims_on_def)

text \<open>C16: Solvency: in every reachable state of the hub, what it has sent out in the native token, together with
  everything the open requests of all received batches can still withdraw, is at most what was sent to it; and
  no batch ever pays out more than was received for it.
\<close>

theorem hub_is_solvent:
  assumes "lst_lawful L" "lst_reachable L tr s" "config_store s = Some cfg"
  shows "paid_out (native_token_denom cfg) tr + (\<Sum>b\<in>UNIV. claims_on s b) \<le> paid_in (native_token_denom cfg) tr \<and>
    (\<forall>b rb. received_batches s b = Some rb \<longrightarrow> withdrawn b tr \<le> rb_received_native_unstaked rb)"
proof -
  note i = reachable_inv [OF assms]
  have "(\<Sum>b\<in>UNIV. claims_on s b) \<le> (\<Sum>b\<in>UNIV. held tr s b)"
    by (intro sum_mono claims_le_held [OF i])
  then show ?thesis
    using inv_rest(4) [OF i] inv_received(2) [OF i] by auto
qed

section \<open>A request that is due is paid\<close>

lemma open_le_total:
  assumes "lst_inv d tr s" "received_batches s b = Some rb"
  shows "open_total s b \<le> rb_total_lst_to_burn rb"
proof -
  have "rb_received_native_unstaked rb * open_total s b \<le> rb_received_native_unstaked rb * rb_total_lst_to_burn rb"
    using add_leD2 [OF inv_received(1) [OF assms]] .
  then show ?thesis
    using inv_received(3) [OF assms] by simp
qed

lemma ratio_fits:
  fixes R q T :: nat
  assumes "q \<le> T" "T \<noteq> 0" "R < n"
  shows "R * q div T < n"
proof -
  have "R * q div T \<le> R * T div T"
    using assms(1) by (intro div_le_mono mult_left_mono) auto
  then show ?thesis
    using assms by simp
qed

text \<open>C34: Every positive request of a received batch can be withdrawn: while the hub is not stopped, the staker's
  call succeeds, pays the share of the batch that the request burned (rounded down) to the address it names,
  and closes the request.
\<close>

theorem due_request_is_paid:
  assumes "lst_lawful L" "lst_reachable L tr s" "config_store s = Some cfg" "stopped s = Some False"
    and "received_batches s b = Some rb" "unstake_requests s (b, staker_hash L (sender info)) = Some req" "0 < ur_amount req"
    and "nonpayable L info = Inr ()"
  shows "\<exists>r s'. lst_execute L env info (Withdraw to b) s = Inr (r, s') \<and>
    lst_messages r = [BankSend to (native_token_denom cfg,
      rb_received_native_unstaked rb * ur_amount req div rb_total_lst_to_burn rb)] \<and>
    unstake_requests s' = (unstake_requests s)((b, staker_hash L (sender info)) := None)"
proof -
  note i = reachable_inv [OF assms(1-3)]
  have q: "ur_amount req \<le> rb_total_lst_to_burn rb"
    using req_le_open [OF assms(6)] open_le_total [OF i assms(5)] by simp
  have "\<not> 2 ^ 128 \<le> rb_received_native_unstaked rb * ur_amount req div rb_total_lst_to_burn rb"
    using ratio_fits [OF q, of "rb_received_native_unstaked rb" "2 ^ 128"] inv_received(3) [OF i assms(5)] q assms(7)
    by (simp add: not_le)
  then have "multiply_ratio L (rb_received_native_unstaked rb) (ur_amount req) (rb_total_lst_to_burn rb) =
      Some (rb_received_native_unstaked rb * ur_amount req div rb_total_lst_to_burn rb)"
    using assms(1,7) q by (simp add: lst_lawful_def)
  then show ?thesis
    using assms(3-6,8) by (simp add: withdraw_def Let_def lst_nonpayable_def ensure_not_stopped_def)
qed

section \<open>The value of a share\<close>

definition lst_books :: "lst_state \<Rightarrow> (u128 \<times> u128) option" where
  "lst_books s = map_option (\<lambda>a. (total_bonded_native_tokens a, total_issued_lst a)) (accounting_store s)"

lemma ratio_le: "lst_lawful L \<Longrightarrow> multiply_ratio L a b c = Some r \<Longrightarrow> c * r \<le> a * b"
  using lawful_ratio by fastforce

lemma assets_to_shares_le: "lst_lawful L \<Longrightarrow> assets_to_shares L A S a = Inr m \<Longrightarrow> A * m \<le> a * S"
  by (auto simp: assets_to_shares_def result_simps split: if_splits dest: ratio_le)

lemma shares_to_assets_le: "lst_lawful L \<Longrightarrow> shares_to_assets L A S q = Inr u \<Longrightarrow> S * u \<le> q * A"
  by (auto simp: shares_to_assets_def result_simps split: if_splits dest: ratio_le)

lemma bond_books:
  assumes "lst_lawful L" "bond L info to min_mint s = Inr (r, s')" "lst_books s = Some (B, S)"
    and "config_store s = Some cfg" "staker_address s = Some st" "total_pending_rewards L (native_token_denom cfg) st = Inr R"
  shows "\<exists>B' S'. lst_books s' = Some (B', S') \<and> (B + R) * S' \<le> (B' + R) * S"
proof (rule bond_Inr [OF assms(2)])
  fix cfg' acc staker lst a assets m
  assume h: "config_store s = Some cfg'" "accounting_store s = Some acc" "staker_address s = Some staker"
    "total_assets L acc (native_token_denom cfg') staker = Inr assets" "assets_to_shares L assets (total_issued_lst acc) a = Inr m"
    "s' = s\<lparr>accounting_store := Some (acc\<lparr>total_bonded_native_tokens := total_bonded_native_tokens acc + a,
       total_issued_lst := total_issued_lst acc + m\<rparr>)\<rparr>"
  have v: "total_bonded_native_tokens acc = B" "total_issued_lst acc = S" "assets = B + R"
    using h assms(3-6) total_assets_Inr [OF h(4)] by (auto simp: lst_books_def)
  have "(B + R) * m \<le> a * S"
    using assets_to_shares_le [OF assms(1) h(5)] by (simp add: v)
  then show ?thesis
    using h(6) v by (simp add: lst_books_def algebra_simps)
qed

lemma submit_books:
  assumes "lst_lawful L" "submit_batch L env info s = Inr (r, s')" "lst_books s = Some (B, S)"
    and "config_store s = Some cfg" "staker_address s = Some st" "total_pending_rewards L (native_token_denom cfg) st = Inr R"
  shows "\<exists>B' S'. lst_books s' = Some (B', S') \<and> (B + R) * S' \<le> (B' + R) * S"
proof (rule submit_Inr [OF assms(2)])
  fix cfg' pb acc staker lst assets u rt nb st'
  assume h: "config_store s = Some cfg'" "accounting_store s = Some acc" "staker_address s = Some staker"
    "total_assets L acc (native_token_denom cfg') staker = Inr assets"
    "shares_to_assets L assets (total_issued_lst acc) (pb_total_lst_to_burn pb) = Inr u" "u \<le> total_bonded_native_tokens acc"
    "pb_total_lst_to_burn pb \<le> total_issued_lst acc"
    "s' = s\<lparr>accounting_store := Some (acc\<lparr>total_bonded_native_tokens := total_bonded_native_tokens acc - u,
         total_issued_lst := total_issued_lst acc - pb_total_lst_to_burn pb\<rparr>),
       submitted_batches := (submitted_batches s)(pb_batch_id pb \<mapsto>
         \<lparr>sb_total_lst_to_burn = pb_total_lst_to_burn pb, sb_unstake_requests_count = pb_unstake_requests_count pb,
          sb_receive_time = rt, sb_expected_native_unstaked = u\<rparr>),
       current_pending_batch := Some (pending_batch_new nb st')\<rparr>"
  define q where "q = pb_total_lst_to_burn pb"
  have v: "total_bonded_native_tokens acc = B" "total_issued_lst acc = S" "assets = B + R"
    using h assms(3-6) total_assets_Inr [OF h(4)] by (auto simp: lst_books_def)
  have "u * S \<le> (B + R) * q"
    using shares_to_assets_le [OF assms(1) h(5)] by (simp add: v q_def mult.commute)
  moreover have "u \<le> B" "q \<le> S"
    using h(6,7) v by (simp_all add: q_def)
  then have "(B + R) * (S - q) + (B + R) * q = (B + R) * S" "(B - u + R) * S + u * S = (B + R) * S"
    by (simp_all flip: distrib_left distrib_right)
  ultimately have "(B + R) * (S - q) \<le> (B - u + R) * S"
    by linarith
  then show ?thesis
    using h(8) v by (simp add: lst_books_def q_def)
qed

lemma rewards_books:
  assumes "receive_rewards L info s = Inr (r, s')" "lst_books s = Some (B, S)"
  shows "\<exists>B' S'. lst_books s' = Some (B', S') \<and> (B + R) * S' \<le> (B' + R) * S"
  by (rule rewards_Inr [OF assms(1)]) (use assms(2) in \<open>auto simp: lst_books_def\<close>)

lemma slash_accounting: "slash_loop amounts s = Inr s' \<Longrightarrow> accounting_store s' = accounting_store s"
  by (auto dest: slash_loop_totals)

lemma update_config_accounting:
  assumes "update_config L info fees mons bp up s = Inr (r, s')"
  shows "accounting_store s' = accounting_store s"
  using assms by (auto simp: update_config_def update_period_def Let_def result_simps split: option.splits if_splits)

lemma other_books:
  assumes "lst_execute L env info msg s = Inr (r, s')"
    and "\<nexists>to m. msg = Bond to m" "msg \<noteq> SubmitBatch" "msg \<noteq> ReceiveRewards" "\<nexists>b i w. msg = ResumeContract b i w"
  shows "accounting_store s' = accounting_store s"
proof (cases msg)
  case (Unbond a)
  then show ?thesis
    using assms(1) by (auto elim: unbond_Inr)
next
  case (UpdateConfig fees mons bp up)
  then show ?thesis
    using assms(1) by (auto dest: update_config_accounting)
next
  case (SlashBatches amounts)
  then show ?thesis
    using assms(1) by (auto simp: slash_batches_def result_simps dest: slash_accounting)
qed (use assms in \<open>auto simp: withdraw_def transfer_ownership_def accept_ownership_def revoke_ownership_transfer_def rebase_def
    receive_batch_def receive_unstaked_tokens_def circuit_breaker_def Let_def result_simps split: if_splits\<close>)


text \<open>Bonding and unbonding again gains nothing: the shares minted for \<open>a\<close> tokens, turned back into tokens at
  the books right after the bond, are worth at most \<open>a\<close>.
\<close>

theorem bond_then_unbond_gains_nothing:
  assumes "lst_lawful L" "assets_to_shares L A S a = Inr m" "shares_to_assets L (A + a) (S + m) m = Inr u"
  shows "u \<le> a"
proof (cases "m = 0")
  case True
  then show ?thesis
    using assms(3) by (simp add: shares_to_assets_def)
next
  case False
  have "(S + m) * u \<le> m * (A + a)"
    by (rule shares_to_assets_le [OF assms(1,3)])
  also have "\<dots> \<le> (S + m) * a"
    using assets_to_shares_le [OF assms(1,2)] by (simp add: algebra_simps)
  finally show ?thesis
    using False by simp
qed

section \<open>The circuit breaker\<close>

text \<open>C35: A stopped hub moves nothing: the only calls that succeed are those of the administrator and of the
  pending owner, they send no message and take no money, and requests, received batches and the pending
  batch stay as they are.
\<close>

theorem stopped_contract_moves_nothing:
  assumes "lst_lawful L" "stopped s = Some True" "lst_execute L env info msg s = Inr (r, s')"
  shows "(lst_admin s = Some (sender info) \<or> map_option po_address (pending_owner s) = Some (sender info) \<and> msg = AcceptOwnership) \<and>
    lst_messages r = [] \<and> funds info = [] \<and> unstake_requests s' = unstake_requests s \<and>
    received_batches s' = received_batches s \<and> current_pending_batch s' = current_pending_batch s"
proof (cases msg)
  case (SlashBatches amounts)
  then have f: "lst_admin s = Some (sender info)" "nonpayable L info = Inr ()" "slash_loop amounts s = Inr s'" "lst_messages r = []"
    using assms(3) by (auto simp: slash_batches_def result_simps)
  then show ?thesis
    using slash_loop_totals [OF f(3)] lawful_nonpayable [OF assms(1) f(2)] by auto
next
  case (UpdateConfig fees mons bp up)
  then show ?thesis
    using assms(3) lawful_nonpayable [OF assms(1)]
    by (auto simp: update_config_def update_period_def Let_def result_simps split: option.splits if_splits)
qed (use assms(2,3) lawful_nonpayable [OF assms(1)] in \<open>auto simp: bond_def unbond_def submit_batch_def receive_rewards_def withdraw_def
    transfer_ownership_def accept_ownership_def revoke_ownership_transfer_def rebase_def receive_batch_def receive_unstaked_tokens_def
    circuit_breaker_def resume_contract_def Let_def bindE_eq_Inr result_simps split: if_splits\<close>)

text \<open>A fee rate that \<open>init\<close> would refuse can be set later: \<open>update_config\<close> stores a rate of 200% or more, and from
  then on no reward can be received, whatever the amount.
\<close>

theorem unchecked_fee_rate_blocks_rewards:
  assumes "lst_lawful L" "lst_admin s = Some (sender info)" "nonpayable L info = Inr ()"
    and "2 * FEE_RATE_DENOMINATOR \<le> fee_rate fees"
  shows "\<exists>r s'. lst_execute L env info (UpdateConfig (Some fees) None None None) s = Inr (r, s') \<and>
    (\<forall>env' info' r' s''. lst_execute L env' info' ReceiveRewards s' \<noteq> Inr (r', s''))"
proof -
  let ?s = "s\<lparr>fee_config_store := Some fees\<rparr>"
  have "receive_rewards L info' ?s \<noteq> Inr (r', s'')" for info' r' s''
  proof
    assume "receive_rewards L info' ?s = Inr (r', s'')"
    then show False
    proof (rule rewards_Inr)
      fix cfg fees' acc staker a fee
      assume h: "fee_config_store ?s = Some fees'" "must_pay L info' (native_token_denom cfg) = Inr a"
        "multiply_ratio L (fee_rate fees') a FEE_RATE_DENOMINATOR = Some fee" "fee \<le> a"
      have "fee = fee_rate fees * a div FEE_RATE_DENOMINATOR" "0 < a"
        using lawful_ratio [OF assms(1) h(3)] lawful_pay [OF assms(1) h(2)] h(1) by simp_all
      moreover have "FEE_RATE_DENOMINATOR * (2 * a) div FEE_RATE_DENOMINATOR \<le> fee_rate fees * a div FEE_RATE_DENOMINATOR"
        using mult_right_mono [OF assms(4), of a] by (intro div_le_mono) (simp add: algebra_simps)
      ultimately show False
        using h(4) by (simp add: FEE_RATE_DENOMINATOR_def)
    qed
  qed
  then show ?thesis
    using assms(2,3) by (simp add: update_config_def update_period_def lst_nonpayable_def ensure_admin_def Let_def)
qed

end
