(* ===== verification/Lst_Demo.thy ===== *)
theory Lst_Demo
  imports Lst_Value
begin

text \<open>
  A concrete run of the liquid staking hub, on which the theorems about it apply: \<open>alice\<close> bonds 1000, unbonds
  400, the batch is submitted, the staker returns its 400, and \<open>alice\<close> can withdraw.
\<close>

definition demo_lst :: lst_host where
  "demo_lst = \<lparr>lst_sha256 = (\<lambda>x. word_of_nat (length x)),
     must_pay = (\<lambda>info d. case funds info of [(d', a)] \<Rightarrow> if d' = d \<and> 0 < a \<and> a < 2 ^ 128 then Inr a else Inl ''funds'' | _ \<Rightarrow> Inl ''funds''),
     nonpayable = (\<lambda>info. if funds info = [] then Inr () else Inl ''funds''),
     multiply_ratio = (\<lambda>a b c. if c = 0 \<or> 2 ^ 128 \<le> a * b div c then None else Some (a * b div c)),
     dec_checked_add = (\<lambda>a b. Some (a + b)), dec_floor_u128 = (\<lambda>x. Some (x div 10 ^ 18)),
     q_total_rewards = (\<lambda>_. Inr [])\<rparr>"

lemma demo_lst_lawful: "lst_lawful demo_lst"
  by (auto simp: lst_lawful_def demo_lst_def split: list.splits if_splits)

definition demo_lst_init :: lst_init_msg where
  "demo_lst_init = \<lparr>im_native_token_denom = ''u'', im_minimum_liquid_stake_amount = 10, im_staker_address = ''staker'',
     im_protocol_fee_config = \<lparr>fee_rate = 10000, fee_recipient = ''fees''\<rparr>, im_lst_address = ''lst'',
     im_batch_period_seconds = 100, im_unbonding_period_seconds = 200, im_monitors = [], im_admin = ''admin''\<rparr>"

definition hub_at :: "u64 \<Rightarrow> block_env" where
  "hub_at t = \<lparr>contract_address = ''hub'', block_time = t\<rparr>"

abbreviation paying :: "addr \<Rightarrow> nat \<Rightarrow> message_info" where
  "paying a n \<equiv> \<lparr>sender = a, funds = [(''u'', n)]\<rparr>"

abbreviation asking :: "addr \<Rightarrow> message_info" where
  "asking a \<equiv> \<lparr>sender = a, funds = []\<rparr>"

definition demo_cfg :: lst_config where
  "demo_cfg = \<lparr>native_token_denom = ''u'', minimum_liquid_stake_amount = 10, batch_period_seconds = 100, unbonding_period_seconds = 200\<rparr>"

definition demo_h0 :: lst_state where
  "demo_h0 = lst_empty\<lparr>lst_version := Some 1, lst_admin := Some ''admin'', staker_address := Some ''staker'', lst_address := Some ''lst'',
     monitors := Some [], fee_config_store := Some \<lparr>fee_rate = 10000, fee_recipient = ''fees''\<rparr>,
     config_store := Some demo_cfg,
     accounting_store := Some \<lparr>total_bonded_native_tokens = 0, total_issued_lst = 0, total_reward_amount = 0\<rparr>,
     current_pending_batch := Some (pending_batch_new 1 100), stopped := Some False\<rparr>"

definition demo_h1 :: lst_state where
  "demo_h1 = demo_h0\<lparr>accounting_store := Some \<lparr>total_bonded_native_tokens = 1000, total_issued_lst = 1000, total_reward_amount = 0\<rparr>\<rparr>"

definition demo_req :: unstake_request where
  "demo_req = \<lparr>ur_batch_id = 1, ur_staker = ''alice'', ur_amount = 400\<rparr>"

definition demo_h2 :: lst_state where
  "demo_h2 = demo_h1\<lparr>unstake_requests := [(1, 5) \<mapsto> demo_req], unstake_requests_by_hash := [(1, 5) \<mapsto> demo_req],
     current_pending_batch := Some \<lparr>pb_batch_id = 1, pb_total_lst_to_burn = 400, pb_unstake_requests_count = 1, pb_submit_time = 100\<rparr>\<rparr>"

definition demo_h3 :: lst_state where
  "demo_h3 = demo_h2\<lparr>accounting_store := Some \<lparr>total_bonded_native_tokens = 600, total_issued_lst = 600, total_reward_amount = 0\<rparr>,
     submitted_batches := [1 \<mapsto> \<lparr>sb_total_lst_to_burn = 400, sb_unstake_requests_count = 1, sb_receive_time = 300,
       sb_expected_native_unstaked = 400\<rparr>],
     current_pending_batch := Some (pending_batch_new 2 200)\<rparr>"

definition demo_h4 :: lst_state where
  "demo_h4 = demo_h3\<lparr>submitted_batches := Map.empty, received_batches := [1 \<mapsto> \<lparr>rb_total_lst_to_burn = 400,
     rb_unstake_requests_count = 1, rb_received_native_unstaked = 400\<rparr>]\<rparr>"

lemmas demo_h_defs = demo_h0_def demo_h1_def demo_h2_def demo_h3_def demo_h4_def lst_empty_def demo_cfg_def demo_req_def
  pending_batch_new_def

lemmas hub_defs = lst_must_pay_def lst_nonpayable_def ensure_not_stopped_def total_assets_def total_pending_rewards_def
  assets_to_shares_def shares_to_assets_def add128_def sub128_def add64_def lst_seconds_def hub_at_def batch_id_increment_def
  staker_hash_def upsert_unstake_request_def

lemma demo_init_step:
  "lst_migrate (hub_at 0) (UpgradeInit demo_lst_init) lst_empty =
     Inr (lst_respond [InitEv ''admin'' ''u'' 10 10000 ''fees'' 200 ''staker'' ''lst''] [], demo_h0)"
  by (simp add: lst_migrate_def upgrade_run_def lst_init_run_def lst_init_def demo_lst_init_def put_lst_version_def hub_defs
      FEE_RATE_DENOMINATOR_def demo_h_defs)

lemma demo_bond_step:
  "lst_execute demo_lst (hub_at 0) (paying ''alice'' 1000) (Bond ''alice'' 900) demo_h0 =
     Inr (lst_respond [BondEv ''alice'' ''alice'' 1000 1000] [StakerStake ''staker'' [(''u'', 1000)], Cw20Mint ''lst'' 1000 ''alice''], demo_h1)"
  by (simp add: bond_def hub_defs demo_lst_def demo_h_defs)

lemma demo_unbond_step:
  "lst_execute demo_lst (hub_at 0) (asking ''alice'') (Unbond 400) demo_h1 =
     Inr (lst_respond [UnbondEv ''alice'' 1 400 True] [Cw20TransferFrom ''lst'' ''alice'' ''hub'' 400], demo_h2)"
  by (simp add: unbond_def hub_defs demo_lst_def demo_h_defs Let_def)

lemma demo_submit_step:
  "lst_execute demo_lst (hub_at 100000000000) (asking ''bob'') SubmitBatch demo_h2 =
     Inr (lst_respond [SubmitBatchEv 1 400 400 200] [StakerUnstake ''staker'' 400, Cw20Burn ''lst'' 400], demo_h3)"
  by (simp add: submit_batch_def hub_defs demo_lst_def demo_h_defs Let_def)

lemma demo_receive_step:
  "lst_execute demo_lst (hub_at 300000000000) (paying ''staker'' 400) (ReceiveUnstakedTokens 1) demo_h3 =
     Inr (lst_respond [ReceiveUnstakedTokensEv 1 400] [], demo_h4)"
  by (simp add: receive_unstaked_tokens_def hub_defs demo_lst_def demo_h_defs Let_def)

definition demo_hub_trace :: lst_trace where
  "demo_hub_trace =
    [(hub_at 0, paying ''alice'' 1000, Bond ''alice'' 900,
        lst_respond [BondEv ''alice'' ''alice'' 1000 1000] [StakerStake ''staker'' [(''u'', 1000)], Cw20Mint ''lst'' 1000 ''alice'']),
     (hub_at 0, asking ''alice'', Unbond 400,
        lst_respond [UnbondEv ''alice'' 1 400 True] [Cw20TransferFrom ''lst'' ''alice'' ''hub'' 400]),
     (hub_at 100000000000, asking ''bob'', SubmitBatch,
        lst_respond [SubmitBatchEv 1 400 400 200] [StakerUnstake ''staker'' 400, Cw20Burn ''lst'' 400]),
     (hub_at 300000000000, paying ''staker'' 400, ReceiveUnstakedTokens 1, lst_respond [ReceiveUnstakedTokensEv 1 400] [])]"

lemma demo_hub_reachable: "lst_reachable demo_lst demo_hub_trace demo_h4"
proof -
  note r = lst_call [OF lst_call [OF lst_call [OF lst_call [OF lst_start demo_bond_step] demo_unbond_step] demo_submit_step] demo_receive_step]
  show ?thesis
    unfolding lst_reachable_def demo_hub_trace_def using demo_init_step r by auto
qed

lemma demo_h4_fields [simp]:
  "config_store demo_h4 = Some demo_cfg" "stopped demo_h4 = Some False" "staker_hash demo_lst ''alice'' = 5"
  "received_batches demo_h4 1 = Some \<lparr>rb_total_lst_to_burn = 400, rb_unstake_requests_count = 1, rb_received_native_unstaked = 400\<rparr>"
  "unstake_requests demo_h4 (1, 5) = Some demo_req" "ur_amount demo_req = 400" "native_token_denom demo_cfg = ''u''"
  "nonpayable demo_lst (asking a) = Inr ()" "lst_admin demo_h0 = Some ''admin''" "fee_config_store demo_h0 \<noteq> None"
  by (simp_all add: demo_h_defs staker_hash_def demo_lst_def)

section \<open>Witnesses\<close>

theorem hub_is_solvent_witness:
  "paid_out ''u'' demo_hub_trace + (\<Sum>b\<in>UNIV. claims_on demo_h4 b) \<le> paid_in ''u'' demo_hub_trace \<and> paid_in ''u'' demo_hub_trace = 1400"
  using hub_is_solvent [OF demo_lst_lawful demo_hub_reachable, of demo_cfg] by (simp add: demo_hub_trace_def paid_in_def)

theorem due_request_is_paid_witness:
  "\<exists>r s'. lst_execute demo_lst (hub_at 300000000000) (asking ''alice'') (Withdraw ''alice'' 1) demo_h4 = Inr (r, s') \<and>
     lst_messages r = [BankSend ''alice'' (''u'', 400)] \<and> unstake_requests s' = (unstake_requests demo_h4)((1, 5) := None)"
  using due_request_is_paid [OF demo_lst_lawful demo_hub_reachable demo_h4_fields(1,2,4), where info = "asking ''alice''" and req = demo_req
      and to = "''alice''" and env = "hub_at 300000000000"] by simp


theorem bond_then_unbond_gains_nothing_witness:
  "assets_to_shares demo_lst 1000 900 100 = Inr 90 \<and> shares_to_assets demo_lst (1000 + 100) (900 + 90) 90 = Inr 100 \<and> (100::nat) \<le> 100"
proof -
  have a: "assets_to_shares demo_lst 1000 900 100 = Inr 90" and b: "shares_to_assets demo_lst (1000 + 100) (900 + 90) 90 = Inr 100"
    by (simp_all add: assets_to_shares_def shares_to_assets_def demo_lst_def)
  show ?thesis
    using a b bond_then_unbond_gains_nothing [OF demo_lst_lawful a b] by (intro conjI)
qed

definition demo_stopped :: lst_state where
  "demo_stopped = demo_h4\<lparr>stopped := Some True\<rparr>"

theorem stopped_contract_moves_nothing_witness:
  "\<exists>r s'. lst_execute demo_lst (hub_at 0) (asking ''admin'') (ResumeContract 600 600 0) demo_stopped = Inr (r, s') \<and> lst_messages r = [] \<and>
     unstake_requests s' = unstake_requests demo_stopped"
proof -
  obtain r s' where e: "lst_execute demo_lst (hub_at 0) (asking ''admin'') (ResumeContract 600 600 0) demo_stopped = Inr (r, s')"
    by (simp add: resume_contract_def lst_nonpayable_def ensure_admin_def ensure_stopped_def demo_stopped_def demo_h_defs)
  have "stopped demo_stopped = Some True"
    by (simp add: demo_stopped_def)
  from stopped_contract_moves_nothing [OF demo_lst_lawful this e] e show ?thesis
    by blast
qed

theorem unchecked_fee_rate_blocks_rewards_witness:
  "\<exists>r s'. lst_execute demo_lst (hub_at 0) (asking ''admin'') (UpdateConfig (Some \<lparr>fee_rate = 200000, fee_recipient = ''fees''\<rparr>) None None None)
      demo_h0 = Inr (r, s') \<and> (\<forall>env' info' r' s''. lst_execute demo_lst env' info' ReceiveRewards s' \<noteq> Inr (r', s''))"
  by (rule unchecked_fee_rate_blocks_rewards [OF demo_lst_lawful]) (simp_all add: FEE_RATE_DENOMINATOR_def)

end
