(* ===== verification/Zkgm_Bucket.thy ===== *)
theory Zkgm_Bucket
  imports Prelude
begin

text \<open>
  The token bucket that limits how fast an asset can be minted or released
  (\<open>cosmwasm/app/ucs03-zkgm/src/token_bucket.rs\<close>). Amounts are \<open>Uint256\<close>: natural numbers, with the
  saturating operations of the source. The subtraction \<open>now - last_refill\<close> panics when time runs backwards.
\<close>

section \<open>Arithmetic of 256-bit amounts\<close>

type_synonym uint256 = nat

definition sat_add256 :: "uint256 \<Rightarrow> uint256 \<Rightarrow> uint256" where
  "sat_add256 a b = min (a + b) (2 ^ 256 - 1)"

definition sat_mul256 :: "uint256 \<Rightarrow> uint256 \<Rightarrow> uint256" where
  "sat_mul256 a b = min (a * b) (2 ^ 256 - 1)"

definition add256 :: "uint256 \<Rightarrow> uint256 \<Rightarrow> uint256 option" where
  "add256 a b = (if a + b < 2 ^ 256 then Some (a + b) else None)"

definition sub256 :: "uint256 \<Rightarrow> uint256 \<Rightarrow> uint256 option" where
  "sub256 a b = (if b \<le> a then Some (a - b) else None)"

lemma add256_Some [simp]: "add256 a b = Some c \<longleftrightarrow> c = a + b \<and> a + b < 2 ^ 256"
  by (auto simp: add256_def)

lemma sub256_Some [simp]: "sub256 a b = Some c \<longleftrightarrow> b \<le> a \<and> c = a - b"
  by (auto simp: sub256_def)

lemma sat_le: "sat_add256 a b \<le> a + b" "sat_mul256 a b \<le> a * b"
  by (simp_all add: sat_add256_def sat_mul256_def)

lemma sat_mul256_0 [simp]: "sat_mul256 a b = 0 \<longleftrightarrow> a = 0 \<or> b = 0"
  by (cases "a = 0"; cases "b = 0") (simp_all add: sat_mul256_def)

lemma sat_mul256_pos [simp]: "0 < sat_mul256 a b \<longleftrightarrow> 0 < a \<and> 0 < b"
  using sat_mul256_0 [of a b] by (simp add: neq0_conv [symmetric] del: neq0_conv)

lemma sat_mul256_zero [simp]: "sat_mul256 0 b = 0" "sat_mul256 a 0 = 0"
  by (simp_all add: sat_mul256_def)

section \<open>The bucket\<close>

datatype bucket_error = ZeroCapacity | ZeroRefillRate | RateLimitExceeded | BucketPanic

record token_bucket =
  capacity :: uint256
  available :: uint256
  refill_rate :: uint256
  last_refill :: uint256

definition bucket_new :: "uint256 \<Rightarrow> uint256 \<Rightarrow> uint256 \<Rightarrow> bucket_error + token_bucket" where
  "bucket_new cap rate now =
     (if cap = 0 then Inl ZeroCapacity else if rate = 0 then Inl ZeroRefillRate
      else Inr \<lparr>capacity = cap, available = cap, refill_rate = rate, last_refill = now\<rparr>)"

definition bucket_refill :: "token_bucket \<Rightarrow> uint256 \<Rightarrow> bucket_error + token_bucket" where
  "bucket_refill b now =
     (if capacity b \<le> available b then Inr (b\<lparr>last_refill := now\<rparr>)
      else if now < last_refill b then Inl BucketPanic
      else (let to_refill = sat_mul256 (refill_rate b) (now - last_refill b) in
        if to_refill \<noteq> 0
        then Inr (b\<lparr>available := min (capacity b) (sat_add256 (available b) to_refill), last_refill := now\<rparr>)
        else Inr b))"

definition bucket_rate_limit :: "token_bucket \<Rightarrow> uint256 \<Rightarrow> uint256 \<Rightarrow> bucket_error + token_bucket" where
  "bucket_rate_limit b amount now =
     (if amount = 0 then Inr b
      else bindE (bucket_refill b now) (\<lambda>b.
        if available b < amount then Inl RateLimitExceeded
        else Inr (b\<lparr>available := available b - amount\<rparr>)))"

definition bucket_update :: "token_bucket \<Rightarrow> uint256 \<Rightarrow> uint256 \<Rightarrow> bool \<Rightarrow> bucket_error + token_bucket" where
  "bucket_update b cap rate reset =
     (if cap = 0 then Inl ZeroCapacity else if rate = 0 then Inl ZeroRefillRate
      else Inr (b\<lparr>capacity := cap, refill_rate := rate,
        available := (if last_refill b = 0 \<or> reset then cap else available b)\<rparr>))"

section \<open>The volume that gets through\<close>

text \<open>A series of requests, each an amount and the time it is made.\<close>

fun bucket_run :: "token_bucket \<Rightarrow> (uint256 \<times> uint256) list \<Rightarrow> bucket_error + token_bucket" where
  "bucket_run b [] = Inr b"
| "bucket_run b ((amount, now) # rs) = bindE (bucket_rate_limit b amount now) (\<lambda>b. bucket_run b rs)"

definition volume :: "(uint256 \<times> uint256) list \<Rightarrow> uint256" where
  "volume rs = sum_list (map fst rs)"

lemma volume_simps [simp]: "volume [] = 0" "volume ((a, t) # rs) = a + volume rs"
  by (simp_all add: volume_def)

text \<open>The credit of a bucket at a time: what it holds and what it would have been refilled by then.\<close>

definition credit :: "token_bucket \<Rightarrow> uint256 \<Rightarrow> nat" where
  "credit b t = available b + refill_rate b * (t - last_refill b)"

lemma refill_cases:
  assumes "bucket_refill b now = Inr b'"
  obtains (full) "capacity b \<le> available b" "b' = b\<lparr>last_refill := now\<rparr>"
  | (filled) "last_refill b \<le> now" "available b < capacity b"
      "b' = b\<lparr>available := min (capacity b) (sat_add256 (available b) (sat_mul256 (refill_rate b) (now - last_refill b))), last_refill := now\<rparr>"
  | (same) "last_refill b \<le> now" "refill_rate b = 0 \<or> now = last_refill b" "available b < capacity b" "b' = b"
proof (cases "capacity b \<le> available b")
  case True
  then show thesis
    using assms by (intro full) (simp_all add: bucket_refill_def)
next
  case False
  then have n: "last_refill b \<le> now" "available b < capacity b"
    using assms by (simp_all add: bucket_refill_def not_less not_le split: if_splits)
  show thesis
  proof (cases "sat_mul256 (refill_rate b) (now - last_refill b) = 0")
    case True
    then show thesis
      using assms n False by (intro same) (auto simp: bucket_refill_def Let_def)
  next
    case False
    then show thesis
      using assms n by (intro filled) (simp_all add: bucket_refill_def Let_def)
  qed
qed

lemma refill_Inr:
  assumes "bucket_refill b now = Inr b'"
  shows "capacity b' = capacity b" "refill_rate b' = refill_rate b" "last_refill b \<le> now \<Longrightarrow> last_refill b' \<le> now"
    and "available b \<le> capacity b \<Longrightarrow> available b' \<le> capacity b'"
    and "available b' \<le> available b + refill_rate b * (now - last_refill b)"
    and "last_refill b' = now \<or> refill_rate b = 0"
proof -
  have *: "sat_add256 (available b) (sat_mul256 (refill_rate b) d) \<le> available b + refill_rate b * d" for d
    by (rule order_trans [OF sat_le(1)]) (simp add: sat_le)
  show "capacity b' = capacity b" "refill_rate b' = refill_rate b" "last_refill b \<le> now \<Longrightarrow> last_refill b' \<le> now"
    "available b \<le> capacity b \<Longrightarrow> available b' \<le> capacity b'" "last_refill b' = now \<or> refill_rate b = 0"
    by (rule refill_cases [OF assms]; auto)+
  show "available b' \<le> available b + refill_rate b * (now - last_refill b)"
    by (rule refill_cases [OF assms]) (simp_all add: min.coboundedI2 [OF *])
qed

lemma refill_credit:
  assumes "bucket_refill b now = Inr b'" "last_refill b \<le> now" "now \<le> t"
  shows "credit b' t \<le> credit b t"
proof -
  have "refill_rate b * (now - last_refill b) + refill_rate b * (t - now) = refill_rate b * (t - last_refill b)"
    using assms(2,3) by (simp flip: distrib_left)
  then show ?thesis
    using refill_Inr(2,5,6) [OF assms(1)] by (auto simp: credit_def)
qed

lemma rate_limit_credit:
  assumes "bucket_rate_limit b a now = Inr b'" "last_refill b \<le> now" "now \<le> t"
  shows "credit b' t + a \<le> credit b t \<and> last_refill b' \<le> now \<and> refill_rate b' = refill_rate b \<and> capacity b' = capacity b \<and>
    (available b \<le> capacity b \<longrightarrow> available b' \<le> capacity b')"
proof (cases "a = 0")
  case False
  then obtain c where c: "bucket_refill b now = Inr c" "a \<le> available c" "b' = c\<lparr>available := available c - a\<rparr>"
    using assms(1) by (auto simp: bucket_rate_limit_def result_simps not_less)
  then show ?thesis
    using refill_Inr(1-4) [OF c(1)] refill_credit [OF c(1) assms(2,3)] assms(2) by (auto simp: credit_def)
qed (use assms in \<open>auto simp: bucket_rate_limit_def\<close>)

lemma run_credit:
  assumes "bucket_run b rs = Inr b'" "sorted (last_refill b # map snd rs)" "\<And>r. r \<in> set rs \<Longrightarrow> snd r \<le> t"
  shows "credit b' t + volume rs \<le> credit b t"
  using assms
proof (induction b rs rule: bucket_run.induct)
  case (2 b a now rs)
  obtain c where c: "bucket_rate_limit b a now = Inr c" "bucket_run c rs = Inr b'"
    using "2.prems"(1) by (auto simp: result_simps)
  have k: "credit c t + a \<le> credit b t" "last_refill c \<le> now"
    using rate_limit_credit [OF c(1), of t] "2.prems"(2) "2.prems"(3) [of "(a, now)"] by auto
  have "credit b' t + volume rs \<le> credit c t"
    using "2.IH" [OF c(1) c(2)] "2.prems"(2,3) order_trans [OF k(2)] by auto
  then show ?case
    using k by simp
qed simp

text \<open>
  The requests of a run before the first positive one leave the bucket alone; the first positive one fills it
  up to its time, and to its capacity at most.
\<close>

lemma run_window:
  assumes "bucket_run b rs = Inr b'" "sorted (last_refill b # map snd rs)" "available b \<le> capacity b"
    and "\<And>r. r \<in> set rs \<Longrightarrow> t0 \<le> snd r \<and> snd r \<le> t"
  shows "volume rs \<le> capacity b + refill_rate b * (t - t0)"
  using assms
proof (induction b rs rule: bucket_run.induct)
  case (2 b a now rs)
  show ?case
  proof (cases "a = 0")
    case True
    then have "volume rs \<le> capacity b + refill_rate b * (t - t0)"
      using "2.IH" [of b] "2.prems" by (auto simp: bucket_rate_limit_def)
    then show ?thesis
      using True by simp
  next
    case False
    then obtain c where c: "bucket_refill b now = Inr c" "a \<le> available c"
      and r: "bucket_run (c\<lparr>available := available c - a\<rparr>) rs = Inr b'"
      using "2.prems"(1) by (auto simp: bucket_rate_limit_def result_simps not_less)
    note c1 = refill_Inr [OF c(1)]
    have now: "last_refill b \<le> now" "t0 \<le> now" "now \<le> t"
      using "2.prems"(2) "2.prems"(4) [of "(a, now)"] by auto
    have "credit b' t + volume rs \<le> credit (c\<lparr>available := available c - a\<rparr>) t"
      using "2.prems"(2,4) c1(3) [OF now(1)] by (intro run_credit [OF r]) (auto intro: order_trans)
    then have "volume rs + a \<le> available c + refill_rate c * (t - last_refill c)"
      using c(2) by (simp add: credit_def)
    also have "\<dots> \<le> capacity b + refill_rate b * (t - t0)"
    proof (rule add_mono)
      show "available c \<le> capacity b"
        using c1(1,4) "2.prems"(3) by simp
      show "refill_rate c * (t - last_refill c) \<le> refill_rate b * (t - t0)"
        using c1(2,6) now(2) by auto
    qed
    finally show ?thesis
      by simp
  qed
qed simp

text \<open>C26: The rate limit holds: of a bucket that holds no more than its capacity, the requests that get through in
  any window of time add up to at most the capacity plus the refill rate times the length of the window.\<close>

theorem bucket_limits_volume:
  assumes "bucket_run b rs = Inr b'" "sorted (last_refill b # map snd rs)" "available b \<le> capacity b" "rs \<noteq> []"
  shows "volume rs \<le> capacity b + refill_rate b * (snd (last rs) - snd (hd rs))"
proof (rule run_window [OF assms(1-3)])
  fix r
  assume r: "r \<in> set rs"
  then obtain i where i: "i < length rs" "r = rs ! i"
    by (auto simp: in_set_conv_nth)
  have "sorted (map snd rs)"
    using assms(2) by simp
  from sorted_nth_mono [OF this, of 0 i] sorted_nth_mono [OF this, of i "length rs - 1"] i assms(4)
  show "snd (hd rs) \<le> snd r \<and> snd r \<le> snd (last rs)"
    by (simp add: hd_conv_nth last_conv_nth)
qed

theorem bucket_limits_volume_witness:
  "volume [(60, 100), (50, 110)] \<le> capacity \<lparr>capacity = 100, available = 100, refill_rate = 2, last_refill = 1\<rparr> + 2 * (110 - 100)"
proof -
  let ?b = "\<lparr>capacity = 100, available = 100, refill_rate = 2, last_refill = 1\<rparr>"
  have "bucket_run ?b [(60, 100), (50, 110)] = Inr \<lparr>capacity = 100, available = 10, refill_rate = 2, last_refill = 110\<rparr>"
    by (simp add: bucket_rate_limit_def bucket_refill_def Let_def sat_add256_def sat_mul256_def)
  from bucket_limits_volume [OF this] show ?thesis
    by simp
qed

text \<open>A lowered capacity does not bind: after \<open>update\<close> without a reset the bucket keeps what it holds, so a request
  of more than the new capacity still gets through.\<close>

theorem lowered_capacity_does_not_bind:
  assumes "0 < cap" "0 < rate" "0 < last_refill b" "cap < amount" "amount \<le> available b"
  shows "\<exists>b1 b2. bucket_update b cap rate False = Inr b1 \<and> capacity b1 = cap \<and> bucket_rate_limit b1 amount now = Inr b2"
  using assms by (simp add: bucket_update_def bucket_rate_limit_def bucket_refill_def)

theorem lowered_capacity_does_not_bind_witness:
  "\<exists>b1 b2. bucket_update \<lparr>capacity = 100, available = 100, refill_rate = 2, last_refill = 1\<rparr> 10 2 False = Inr b1 \<and>
     capacity b1 = 10 \<and> bucket_rate_limit b1 50 7 = Inr b2"
  by (rule lowered_capacity_does_not_bind) simp_all

end
