(* ===== verification/Zkgm_Types.thy ===== *)
theory Zkgm_Types
  imports Core_State Zkgm_Bucket
begin

text \<open>
  The ucs03-zkgm application (\<open>cosmwasm/app/ucs03-zkgm\<close>): the data of its packets (\<open>com.rs\<close>), its stores
  (\<open>state.rs\<close>), errors, events, messages and replies, and the messages of the token minter
  (\<open>ucs03-zkgm-token-minter-api\<close>). Token amounts are \<open>Uint256\<close> and \<open>Uint128\<close> numbers, paths of channels
  are 256-bit words. A Rust string is the list of its bytes, so \<open>from_utf8\<close> is a check. The ABI codecs, hash
  functions, queries and address arithmetic are the record \<open>zkgm_host\<close>.
\<close>

section \<open>Constants\<close>

definition INSTR_VERSION_0 :: u8 where "INSTR_VERSION_0 = 0"
definition INSTR_VERSION_1 :: u8 where "INSTR_VERSION_1 = 1"
definition INSTR_VERSION_2 :: u8 where "INSTR_VERSION_2 = 2"
definition OP_FORWARD :: u8 where "OP_FORWARD = 0"
definition OP_CALL :: u8 where "OP_CALL = 1"
definition OP_BATCH :: u8 where "OP_BATCH = 2"
definition OP_TOKEN_ORDER :: u8 where "OP_TOKEN_ORDER = 3"
definition ACK_ERR_ONLY_MAKER :: bytes where "ACK_ERR_ONLY_MAKER = [0xDE, 0xAD, 0xC0, 0xDE]"
definition TAG_ACK_FAILURE :: u256 where "TAG_ACK_FAILURE = 0"
definition TAG_ACK_SUCCESS :: u256 where "TAG_ACK_SUCCESS = 1"
definition FILL_TYPE_PROTOCOL :: u256 where "FILL_TYPE_PROTOCOL = 0xB0CAD0"
definition FILL_TYPE_MARKETMAKER :: u256 where "FILL_TYPE_MARKETMAKER = 0xD1CEC45E"
definition TOKEN_ORDER_KIND_INITIALIZE :: u8 where "TOKEN_ORDER_KIND_INITIALIZE = 0"
definition TOKEN_ORDER_KIND_ESCROW :: u8 where "TOKEN_ORDER_KIND_ESCROW = 1"
definition TOKEN_ORDER_KIND_UNESCROW :: u8 where "TOKEN_ORDER_KIND_UNESCROW = 2"
definition TOKEN_ORDER_KIND_SOLVE :: u8 where "TOKEN_ORDER_KIND_SOLVE = 3"
definition FORWARD_SALT_MAGIC :: u256 where
  "FORWARD_SALT_MAGIC = 0xC0DE00000000000000000000000000000000000000000000000000000000BABE"
definition PROTOCOL_VERSION :: string where "PROTOCOL_VERSION = ''ucs03-zkgm-0''"
definition EXECUTE_PACKET_REPLY_ID :: u64 where "EXECUTE_PACKET_REPLY_ID = 0x1337"
definition FORWARD_REPLY_ID :: u64 where "FORWARD_REPLY_ID = 0xbabe"
definition CALL_REPLY_ID :: u64 where "CALL_REPLY_ID = 0xface"
definition MM_RELAYER_FILL_REPLY_ID :: u64 where "MM_RELAYER_FILL_REPLY_ID = 0xdead"
definition MM_SOLVER_FILL_REPLY_ID :: u64 where "MM_SOLVER_FILL_REPLY_ID = 0xb0cad0"
definition ZKGM_TOKEN_MINTER_LABEL :: string where "ZKGM_TOKEN_MINTER_LABEL = ''zkgm-token-minter''"

lemmas opcode_defs = OP_FORWARD_def OP_CALL_def OP_BATCH_def OP_TOKEN_ORDER_def
lemmas kind_defs = TOKEN_ORDER_KIND_INITIALIZE_def TOKEN_ORDER_KIND_ESCROW_def TOKEN_ORDER_KIND_UNESCROW_def
  TOKEN_ORDER_KIND_SOLVE_def
lemmas reply_id_defs = EXECUTE_PACKET_REPLY_ID_def FORWARD_REPLY_ID_def CALL_REPLY_ID_def MM_RELAYER_FILL_REPLY_ID_def
  MM_SOLVER_FILL_REPLY_ID_def

section \<open>Packets\<close>

record instruction =
  i_version :: u8
  i_opcode :: u8
  i_operand :: bytes

record zkgm_packet =
  zp_salt :: h256
  zp_path :: u256
  zp_instruction :: instruction

record forward =
  fw_path :: u256
  fw_timeout_height :: u64
  fw_timeout_timestamp :: u64
  fw_instruction :: instruction

record zcall =
  cl_sender :: bytes
  cl_eureka :: bool
  cl_contract_address :: bytes
  cl_contract_calldata :: bytes

record order_v1 =
  o1_sender :: bytes
  o1_receiver :: bytes
  o1_base_token :: bytes
  o1_base_amount :: uint256
  o1_base_token_symbol :: string
  o1_base_token_name :: string
  o1_base_token_decimals :: u8
  o1_base_token_path :: u256
  o1_quote_token :: bytes
  o1_quote_amount :: uint256

record order_v2 =
  o2_sender :: bytes
  o2_receiver :: bytes
  o2_base_token :: bytes
  o2_base_amount :: uint256
  o2_quote_token :: bytes
  o2_quote_amount :: uint256
  o2_kind :: u8
  o2_metadata :: bytes

record token_metadata =
  tm_implementation :: bytes
  tm_initializer :: bytes

record zack =
  ack_tag :: u256
  ack_inner :: bytes

record token_order_ack =
  toa_fill_type :: u256
  toa_market_maker :: bytes

section \<open>Configuration and stores\<close>

record zkgm_config =
  zc_admin :: addr
  zc_ibc_host :: addr
  zc_token_minter_code_id :: u64
  zc_rate_limit_disabled :: bool
  zc_dummy_code_id :: u64
  zc_cw_account_code_id :: u64

record call_proxy_salt =
  cps_path :: u256
  cps_channel_id :: channel_id
  cps_sender :: bytes

type_synonym balance_key = "channel_id \<times> u256 \<times> string \<times> bytes"

record zkgm_state =
  zk_config :: "zkgm_config option"
  token_minter :: "addr option"
  token_origin :: "string \<Rightarrow> u256 option"
  deprecated_channel_balance_v1 :: "channel_id \<times> u256 \<times> string \<Rightarrow> uint256 option"
  channel_balance_v2 :: "balance_key \<Rightarrow> uint256 option"
  metadata_image_of :: "string \<Rightarrow> h256 option"
  executing_packet :: "packet option"
  executing_packet_is_batch :: "nat option"
  execution_ack :: "bytes option"
  batch_execution_acks :: "bytes list option"
  hash_to_foreign_token :: "string \<Rightarrow> bytes option"
  in_flight_packet :: "h256 \<Rightarrow> packet option"
  market_maker :: "bytes option"
  token_bucket_of :: "string \<Rightarrow> token_bucket option"
  created_proxy_account :: "call_proxy_salt option"
  zk_paused :: bool
  zk_authority :: "addr option"
  zk_consuming_schedule :: "bool option"
  zk_version :: "u32 option"

section \<open>Errors and events\<close>

datatype (plugins only: code) zkgm_error =
    ZStd std_error
  | ZMigrate upgrade_error
  | ZAccessManaged access_managed_error
  | EnforcedPause
  | ExpectedPause
  | InvalidIbcVersion string
  | OnlyIbcHost
  | OnlySelf
  | Alloy
  | UnsupportedVersion u8
  | UnknownOpcode u8
  | UnknownReply u64
  | OnlyMaker
  | AlreadyExecuting
  | AmountOverflow
  | InvalidQuoteToken
  | InvalidSolverAddress
  | InvalidBaseToken
  | InvalidChannelBalance
  | InvalidReceiver
  | InvalidSender
  | UnableToValidateReceiver
  | UnableToValidateMarketMaker
  | UnableToValidateSender
  | InvalidContractAddress
  | UnableToValidateCallTarget
  | InvalidForwardDestinationChannelId "channel_id option" channel_id
  | MissingForwardSourceChannelId
  | ForwardedPacketMissingInReply
  | CouldNotDeserializeSentPacket bytes
  | AsyncCallUnsupported
  | CallError string
  | ChannelPathIsFull u256 nat
  | InvalidAssetOrigin u256 u256
  | InvalidAssetName string string
  | InvalidAssetSymbol string string
  | InvalidAssetDecimals u8 u8
  | InvalidBatchInstruction
  | InvalidForwardInstruction
  | InvalidCallSender
  | BatchMustBeSync
  | InvalidTokenOrderKind
  | InvalidTokenOrderUnescrow
  | InvalidFillType u256
  | TokenBucketIsAbsent string
  | TokenBucketErr bucket_error
  | InvalidPath
  | ZPanic string
  | ZOutOfFuel

datatype (plugins only: code) zkgm_event =
    TokenBucketUpdate string uint256 uint256
  | CreateProxyAccount u256 channel_id bytes addr
  | V1ToV2MigrationEv
  | CreateWrappedTokenEv u256 channel_id bytes string
  | FatalError string
  | MakerExecutionFailure string
  | PausedEv addr
  | UnpausedEv addr
  | ZAuthorityUpdated addr
  | ZUpgrade u64 string

section \<open>Messages\<close>

datatype (plugins only: code) minter_msg =
    Escrow addr string addr nat
  | Unescrow string addr nat
  | CreateDenom string string string u8 u256 channel_id bytes
  | CreateDenomV2 string u256 channel_id bytes bytes bytes
  | MintTokens string nat addr
  | BurnTokens string nat addr addr

datatype (plugins only: code) zkgmable =
    OnZkgm addr u256 channel_id channel_id bytes bytes addr bytes
  | OnIntentZkgm addr u256 channel_id channel_id bytes bytes addr bytes

datatype (plugins only: code) minter_init = Cw20Minter u64 u64 | OsmosisTokenFactory

datatype (plugins only: code) zkgm_restricted =
    MigrateV1ToV2 "(u256 \<times> channel_id \<times> string \<times> bytes) list" "(u256 \<times> channel_id \<times> bytes \<times> string) list"
  | SetBucketConfig string uint256 uint256 bool
  | MigrateMinter u64 bytes
  | SetRateLimitDisabled bool
  | UpdateDummyCodeId u64
  | UpdateCwAccountCodeId u64
  | Pause
  | Unpause
  | ZUpgradable upgradable

text \<open>The calls that leave the contract, those to itself included.\<close>

datatype (plugins only: code) zkgm_msg =
    ToMinter addr minter_msg coins
  | ToHost addr execute_msg
  | ToModule addr ibc_union_msg
  | ToZkgmable addr zkgmable
  | ToSolver string packet order_v2 u256 addr addr bytes bool
  | InstantiateMinter addr u64 minter_init addr string
  | InstantiateProxy addr u64 call_proxy_salt h256
  | MigrateProxy addr u64 addr u256 channel_id bytes
  | UpdateProxyAdmin addr addr
  | MigrateWasm addr u64 bytes
  | UpgradeSelf addr u64 string
  | SelfExecutePacket addr addr packet addr bytes bool coins
  | SelfWriteAck addr bytes
  | SelfBatch addr "zkgm_msg list"
  | ConsumeScheduled addr addr zkgm_restricted
  | SelfRestricted addr zkgm_restricted

datatype reply_on = ReplyNever | ReplyAlways u64 | ReplyOnSuccess u64

type_synonym zkgm_sub_msg = "zkgm_msg \<times> reply_on"

datatype (plugins only: code) zkgm_execute_msg =
    IbcUnion ibc_union_msg
  | InternalBatch "zkgm_msg list"
  | InternalExecutePacket addr packet addr bytes bool
  | InternalWriteAck bytes
  | Send channel_id timestamp h256 bytes
  | ZSetAuthority addr
  | ZRestricted zkgm_restricted

record zkgm_response =
  z_events :: "zkgm_event list"
  z_messages :: "zkgm_sub_msg list"

definition z_respond :: "zkgm_event list \<Rightarrow> zkgm_sub_msg list \<Rightarrow> zkgm_response" where
  "z_respond evs msgs = \<lparr>z_events = evs, z_messages = msgs\<rparr>"

definition z_append :: "zkgm_response \<Rightarrow> zkgm_response \<Rightarrow> zkgm_response" where
  "z_append a b = z_respond (z_events a @ z_events b) (z_messages a @ z_messages b)"

abbreviation plain :: "zkgm_msg \<Rightarrow> zkgm_sub_msg" where
  "plain m \<equiv> (m, ReplyNever)"

lemma z_respond_simps [simp]:
  "z_events (z_respond e m) = e" "z_messages (z_respond e m) = m"
  "z_events (z_append a b) = z_events a @ z_events b" "z_messages (z_append a b) = z_messages a @ z_messages b"
  by (simp_all add: z_respond_def z_append_def)

type_synonym zkgm_result = "zkgm_error + zkgm_response \<times> zkgm_state"

text \<open>The result of a submessage: its data and its events, each a type and its attributes.\<close>

datatype sub_result = SubOk "bytes option" "(string \<times> (string \<times> string) list) list" | SubErr string

section \<open>Host\<close>

record zkgm_host = crypto +
  dec_packet :: "bytes \<Rightarrow> zkgm_packet option"
  enc_packet :: "zkgm_packet \<Rightarrow> bytes"
  dec_instruction :: "bytes \<Rightarrow> instruction option"
  dec_forward :: "bytes \<Rightarrow> forward option"
  enc_forward :: "forward \<Rightarrow> bytes"
  dec_call :: "bytes \<Rightarrow> zcall option"
  dec_batch :: "bytes \<Rightarrow> instruction list option"
  dec_order_v1 :: "bytes \<Rightarrow> order_v1 option"
  dec_order_v2 :: "bytes \<Rightarrow> order_v2 option"
  dec_metadata :: "bytes \<Rightarrow> token_metadata option"
  enc_metadata :: "token_metadata \<Rightarrow> bytes"
  dec_solver :: "bytes \<Rightarrow> bytes option"
  dec_ack :: "bytes \<Rightarrow> zack option"
  enc_ack :: "zack \<Rightarrow> bytes"
  dec_batch_ack :: "bytes \<Rightarrow> bytes list option"
  enc_batch_ack :: "bytes list \<Rightarrow> bytes"
  dec_order_ack :: "bytes \<Rightarrow> token_order_ack option"
  enc_order_ack :: "token_order_ack \<Rightarrow> bytes"
  enc_u256 :: "u256 \<Rightarrow> bytes"
  enc_u256_h256 :: "u256 \<Rightarrow> h256 \<Rightarrow> bytes"
  enc_h256 :: "h256 \<Rightarrow> bytes"
  enc_bytes_h256 :: "bytes \<Rightarrow> h256 \<Rightarrow> bytes"
  enc_calldata :: "u256 \<Rightarrow> bytes \<Rightarrow> bytes \<Rightarrow> bytes"
  enc_proxy_salt :: "call_proxy_salt \<Rightarrow> bytes"
  json_packet :: "bytes \<Rightarrow> packet option"
  parse_u256 :: "string \<Rightarrow> u256 option"
  bytes_from_str :: "string \<Rightarrow> bytes option"
  z_addr_validate :: "string \<Rightarrow> std_error + addr"
  q_code_hash :: "u64 \<Rightarrow> std_error + h256"
  instantiate2 :: "h256 \<Rightarrow> addr \<Rightarrow> bytes \<Rightarrow> std_error + addr"
  burn_address :: "std_error + addr"
  q_metadata :: "addr \<Rightarrow> string \<Rightarrow> std_error + (string \<times> string \<times> u8)"
  q_predict :: "addr \<Rightarrow> u256 \<Rightarrow> channel_id \<Rightarrow> bytes \<Rightarrow> std_error + string"
  q_predict_v2 :: "addr \<Rightarrow> u256 \<Rightarrow> channel_id \<Rightarrow> bytes \<Rightarrow> h256 \<Rightarrow> std_error + string"
  z_contract_exists :: "addr \<Rightarrow> bool"
  zq_can_call :: "addr \<Rightarrow> string \<Rightarrow> addr \<Rightarrow> addr \<Rightarrow> std_error + can_call"

section \<open>Strings and amounts\<close>

text \<open>UTF-8, with the ranges of RFC 3629.\<close>

definition utf8_tail :: "u8 \<Rightarrow> bool" where
  "utf8_tail b \<longleftrightarrow> 0x80 \<le> b \<and> b \<le> 0xBF"

fun valid_utf8 :: "bytes \<Rightarrow> bool" where
  "valid_utf8 [] \<longleftrightarrow> True"
| "valid_utf8 (a # bs) \<longleftrightarrow>
     (if a < 0x80 then valid_utf8 bs
      else if 0xC2 \<le> a \<and> a \<le> 0xDF then
        (case bs of b # cs \<Rightarrow> utf8_tail b \<and> valid_utf8 cs | _ \<Rightarrow> False)
      else if 0xE0 \<le> a \<and> a \<le> 0xEF then
        (case bs of b # c # cs \<Rightarrow> utf8_tail b \<and> utf8_tail c \<and> (a = 0xE0 \<longrightarrow> 0xA0 \<le> b) \<and> (a = 0xED \<longrightarrow> b \<le> 0x9F) \<and> valid_utf8 cs
         | _ \<Rightarrow> False)
      else if 0xF0 \<le> a \<and> a \<le> 0xF4 then
        (case bs of b # c # d # cs \<Rightarrow> utf8_tail b \<and> utf8_tail c \<and> utf8_tail d \<and> (a = 0xF0 \<longrightarrow> 0x90 \<le> b) \<and>
             (a = 0xF4 \<longrightarrow> b \<le> 0x8F) \<and> valid_utf8 cs
         | _ \<Rightarrow> False)
      else False)"

definition bytes_str :: "bytes \<Rightarrow> string" where
  "bytes_str bs = map (\<lambda>b. char_of (unat b)) bs"

definition from_utf8 :: "bytes \<Rightarrow> string option" where
  "from_utf8 bs = (if valid_utf8 bs then Some (bytes_str bs) else None)"

lemma bytes_str_inj: "bytes_str a = bytes_str b \<longleftrightarrow> a = b"
proof -
  have "inj (\<lambda>b::u8. char_of (unat b))"
  proof (rule injI)
    fix x y :: u8
    assume "(char_of (unat x) :: char) = char_of (unat y)"
    then have "unat x = unat y"
      using arg_cong [of "char_of (unat x) :: char" _ "of_char :: char \<Rightarrow> nat"] unat_u8_less [of x] unat_u8_less [of y] by simp
    then show "x = y"
      by (simp add: word_unat_eq_iff)
  qed
  then show ?thesis
    by (simp add: bytes_str_def inj_map_eq_map)
qed

definition to_u128 :: "uint256 \<Rightarrow> zkgm_error + nat" where
  "to_u128 a = (if a < 2 ^ 128 then Inr a else Inl AmountOverflow)"

lemma to_u128_Inr [result_simps]: "to_u128 a = Inr b \<longleftrightarrow> b = a \<and> a < 2 ^ 128"
  by (auto simp: to_u128_def)

section \<open>Coins\<close>

text \<open>\<open>Coins\<close>: what is left of the funds of a call, per denomination.\<close>

type_synonym purse = "string \<Rightarrow> nat"

definition coins_try_from :: "coins \<Rightarrow> purse option" where
  "coins_try_from cs =
     (let cs = filter (\<lambda>c. snd c \<noteq> 0) cs in
      if distinct (map fst cs) then Some (\<lambda>d. case map_of cs d of None \<Rightarrow> 0 | Some a \<Rightarrow> a) else None)"

definition coins_sub :: "purse \<Rightarrow> string \<Rightarrow> nat \<Rightarrow> zkgm_error + purse" where
  "coins_sub f d a = (if a \<le> f d then Inr (f(d := f d - a)) else Inl (ZStd OverflowErr))"

section \<open>Reading the stores\<close>

definition zread :: "'a option \<Rightarrow> zkgm_error + 'a" where
  "zread x = ok_or (ZStd (GenericErr ''not found'')) x"

definition decode :: "'a option \<Rightarrow> zkgm_error + 'a" where
  "decode x = ok_or Alloy x"

definition zexpect :: "string \<Rightarrow> 'a option \<Rightarrow> zkgm_error + 'a" where
  "zexpect m x = ok_or (ZPanic m) x"

lemma zread_Inr [result_simps]: "zread x = Inr a \<longleftrightarrow> x = Some a"
  by (simp add: zread_def ok_or_eq_Inr)

lemma decode_Inr [result_simps]: "decode x = Inr a \<longleftrightarrow> x = Some a"
  by (simp add: decode_def ok_or_eq_Inr)

lemma zexpect_Inr [result_simps]: "zexpect m x = Inr a \<longleftrightarrow> x = Some a"
  by (simp add: zexpect_def ok_or_eq_Inr)

lemma zread_Some [simp]: "zread (Some a) = Inr a" "decode (Some a) = Inr a" "zexpect m (Some a) = Inr a"
  by (simp_all add: zread_def decode_def zexpect_def)

text \<open>\<open>addr_validate\<close> of the UTF-8 bytes of an address, with the two errors of each use.\<close>

definition validate_bytes :: "'z zkgm_host_scheme \<Rightarrow> zkgm_error \<Rightarrow> zkgm_error \<Rightarrow> bytes \<Rightarrow> zkgm_error + addr" where
  "validate_bytes H bad_utf8 bad_addr bs =
     bindE (ok_or bad_utf8 (from_utf8 bs)) (\<lambda>a. map_err (\<lambda>_. bad_addr) (z_addr_validate H a))"

definition z_validate :: "'z zkgm_host_scheme \<Rightarrow> string \<Rightarrow> zkgm_error + addr" where
  "z_validate H a = map_err ZStd (z_addr_validate H a)"

end
