(* ===== verification/Zkgm_Path.thy ===== *)
theory Zkgm_Path
  imports Zkgm_Types
begin

unbundle bit_operations_syntax

text \<open>
  Paths of channels (\<open>cosmwasm/app/ucs03-zkgm/src/contract.rs\<close>): up to eight channel ids in the 32-bit slots of
  a 256-bit word, the first hop in the lowest slot, and the salts of forwarded packets. The operations on paths
  are shown to be the operations on lists of channel ids.
\<close>

section \<open>Definitions\<close>

fun bit_len :: "nat \<Rightarrow> nat" where
  "bit_len n = (if n = 0 then 0 else Suc (bit_len (n div 2)))"

declare bit_len.simps [simp del]

definition leading_zeros :: "u256 \<Rightarrow> nat" where
  "leading_zeros w = 256 - bit_len (unat w)"

definition U32_MAX :: u256 where
  "U32_MAX = 0xFFFFFFFF"

definition dequeue_channel_from_path :: "u256 \<Rightarrow> zkgm_error + (u256 \<times> channel_id option)" where
  "dequeue_channel_from_path path =
     (if path = 0 then Inr (0, None)
      else bindE (zexpect ''value is > 0 as path is > 0; qed;'' (id_from_raw (ucast (path AND U32_MAX)))) (\<lambda>c.
        Inr (drop_bit 32 path, Some c)))"

definition get_channel_from_path :: "u256 \<Rightarrow> nat \<Rightarrow> channel_id option" where
  "get_channel_from_path path index = id_from_raw (ucast (drop_bit (32 * index) path AND U32_MAX))"

definition make_path_from_channel :: "channel_id \<Rightarrow> nat \<Rightarrow> u256" where
  "make_path_from_channel c index = push_bit (32 * index) (ucast c)"

definition pop_channel_from_path :: "u256 \<Rightarrow> u256 \<times> channel_id option" where
  "pop_channel_from_path path =
     (if path = 0 then (0, None)
      else (let highest_index = (256 - leading_zeros path - 1) div 32;
                msk = NOT (push_bit (highest_index * 32) U32_MAX)
            in (path AND msk, get_channel_from_path path highest_index)))"

definition update_channel_path :: "u256 \<Rightarrow> channel_id \<Rightarrow> zkgm_error + u256" where
  "update_channel_path path next_ch =
     (if path = 0 then Inr (ucast next_ch)
      else (let next_hop_index = (256 - leading_zeros path) div 32 + 1 in
        if 7 < next_hop_index then Inl (ChannelPathIsFull path next_hop_index)
        else Inr (make_path_from_channel next_ch next_hop_index OR path)))"

definition tint_forward_salt :: "h256 \<Rightarrow> h256" where
  "tint_forward_salt salt = FORWARD_SALT_MAGIC OR (salt AND NOT FORWARD_SALT_MAGIC)"

definition is_forwarded_packet :: "h256 \<Rightarrow> bool" where
  "is_forwarded_packet salt \<longleftrightarrow> salt AND FORWARD_SALT_MAGIC = FORWARD_SALT_MAGIC"

definition derive_forward_salt :: "'z zkgm_host_scheme \<Rightarrow> h256 \<Rightarrow> h256" where
  "derive_forward_salt H salt = tint_forward_salt (keccak256 H (enc_h256 H salt))"

definition derive_batch_salt :: "'z zkgm_host_scheme \<Rightarrow> nat \<Rightarrow> h256 \<Rightarrow> h256" where
  "derive_batch_salt H index salt = keccak256 H (enc_u256_h256 H (word_of_nat index) salt)"

section \<open>Bit lengths\<close>

lemma bit_len_le: "bit_len n \<le> k \<longleftrightarrow> n < 2 ^ k"
proof (induction n arbitrary: k rule: bit_len.induct)
  case (1 n)
  show ?case
  proof (cases "n = 0")
    case True
    then show ?thesis by (simp add: bit_len.simps)
  next
    case False
    then show ?thesis
      using 1 by (cases k) (auto simp: bit_len.simps [of n] less_mult_imp_div_less mult.commute div_less_iff_less_mult)
  qed
qed

lemma less_bit_len: "k < bit_len n \<longleftrightarrow> 2 ^ k \<le> n"
  using bit_len_le [of n k] by linarith

lemma bit_len_word: "256 - leading_zeros w = bit_len (unat w)"
proof -
  have "bit_len (unat w) \<le> 256"
    using unsigned_less [of w] by (simp add: bit_len_le)
  then show ?thesis
    by (simp add: leading_zeros_def)
qed

definition top_slot :: "u256 \<Rightarrow> nat" where
  "top_slot w = (bit_len (unat w) - 1) div 32"

lemma top_slot_bounds:
  assumes "w \<noteq> 0"
  shows "2 ^ (32 * top_slot w) \<le> unat w" "unat w < 2 ^ (32 * top_slot w + 32)" "top_slot w < 8"
proof -
  have "0 < bit_len (unat w)"
    using assms by (simp add: less_bit_len Suc_le_eq unat_gt_0)
  moreover have "32 * top_slot w \<le> bit_len (unat w) - 1" "bit_len (unat w) - 1 < 32 * top_slot w + 32"
    unfolding top_slot_def by (simp_all add: dividend_less_times_div)
  ultimately show "2 ^ (32 * top_slot w) \<le> unat w" "unat w < 2 ^ (32 * top_slot w + 32)"
    by (simp_all flip: less_bit_len bit_len_le)
  have "bit_len (unat w) \<le> 256"
    using unsigned_less [of w] by (simp add: bit_len_le)
  then show "top_slot w < 8"
    by (simp add: top_slot_def div_less_iff_less_mult)
qed

lemma top_slot_eq:
  assumes "2 ^ (32 * n) \<le> unat w" "unat w < 2 ^ (32 * n + 32)"
  shows "top_slot w = n"
proof -
  have "32 * n < bit_len (unat w)" "bit_len (unat w) \<le> 32 * n + 32"
    using assms by (simp_all add: less_bit_len bit_len_le)
  then have "bit_len (unat w) - 1 = (bit_len (unat w) - 1 - 32 * n) + 32 * n" "bit_len (unat w) - 1 - 32 * n < 32"
    by simp_all
  then show ?thesis
    unfolding top_slot_def by (metis add.commute div_mult_self4 div_less add_0 zero_neq_numeral)
qed

section \<open>Slots\<close>

lemma U32_MAX_mask: "U32_MAX = mask 32"
  by (simp add: U32_MAX_def mask_numeral)

lemma and_U32_MAX: "w AND U32_MAX = take_bit 32 w"
  by (simp add: U32_MAX_mask take_bit_eq_mask)

lemma take_bit_small:
  fixes w :: u256
  assumes "unat w < 2 ^ k"
  shows "take_bit k w = w"
  using assms by (simp add: word_unat_eq_iff unsigned_take_bit_eq take_bit_nat_eq_self)

lemma clear_slot:
  fixes w :: u256
  assumes "unat w < 2 ^ (k + 32)"
  shows "w AND NOT (push_bit k U32_MAX) = take_bit k w"
proof (rule bit_word_eqI)
  fix i
  assume i: "i < LENGTH(256)"
  have "bit w i \<Longrightarrow> i < k + 32"
    using take_bit_small [OF assms] by (metis bit_take_bit_iff)
  then show "bit (w AND NOT (push_bit k U32_MAX)) i \<longleftrightarrow> bit (take_bit k w) i"
    using i by (auto simp: bit_simps U32_MAX_mask)
qed

lemma unat_drop: "unat (drop_bit k (w :: u256)) = unat w div 2 ^ k"
  unfolding unat_drop_bit_eq by (rule drop_bit_eq_div)

lemma unat_take: "unat (take_bit k (w :: u256)) = unat w mod 2 ^ k"
  unfolding unsigned_take_bit_eq by (rule take_bit_eq_mod)

lemma pop_word:
  assumes "w \<noteq> 0"
  shows "pop_channel_from_path w = (take_bit (32 * top_slot w) w, id_from_raw (ucast (drop_bit (32 * top_slot w) w)))"
proof -
  have "take_bit 32 (drop_bit (32 * top_slot w) w) = drop_bit (32 * top_slot w) w"
  proof (rule take_bit_small)
    show "unat (drop_bit (32 * top_slot w) w) < 2 ^ 32"
      using top_slot_bounds(2) [OF assms] unfolding unat_drop
      by (simp add: less_mult_imp_div_less power_add mult.commute)
  qed
  then show ?thesis
    using assms clear_slot [OF top_slot_bounds(2) [OF assms]]
    by (simp add: pop_channel_from_path_def get_channel_from_path_def bit_len_word and_U32_MAX Let_def mult.commute top_slot_def)
qed

lemma pop_tail_less:
  assumes "w \<noteq> 0"
  shows "fst (pop_channel_from_path w) < w"
proof -
  have "unat w mod 2 ^ (32 * top_slot w) < 2 ^ (32 * top_slot w)"
    by simp
  then show ?thesis
    unfolding pop_word [OF assms] fst_conv word_less_nat_alt unat_take
    using top_slot_bounds(1) [OF assms] by (rule less_le_trans)
qed

section \<open>Reversing a path\<close>

text \<open>The loop of \<open>reverse_channel_path\<close>; it ends because the tail of a path is smaller than the path.\<close>

function reverse_loop :: "u256 \<Rightarrow> u256 \<Rightarrow> zkgm_error + u256" where
  "reverse_loop path reversed =
     bindE (case snd (pop_channel_from_path path) of Some c \<Rightarrow> update_channel_path reversed c | None \<Rightarrow> Inr reversed) (\<lambda>reversed.
     if fst (pop_channel_from_path path) = 0 then Inr reversed
     else reverse_loop (fst (pop_channel_from_path path)) reversed)"
  by pat_completeness auto
termination
proof (relation "measure (\<lambda>(path, _). unat path)")
  fix path reversed r :: u256
  assume "fst (pop_channel_from_path path) \<noteq> 0"
  then have "path \<noteq> 0"
    by (auto simp: pop_channel_from_path_def)
  from pop_tail_less [OF this]
  show "((fst (pop_channel_from_path path), r), path, reversed) \<in> measure (\<lambda>(path, _). unat path)"
    by (simp add: word_less_nat_alt)
qed simp

declare reverse_loop.simps [simp del]

definition reverse_channel_path :: "u256 \<Rightarrow> zkgm_error + u256" where
  "reverse_channel_path path = reverse_loop path 0"

section \<open>Paths as lists of channels\<close>

fun path_nat :: "channel_id list \<Rightarrow> nat" where
  "path_nat [] = 0"
| "path_nat (c # cs) = unat c + 2 ^ 32 * path_nat cs"

definition path_of :: "channel_id list \<Rightarrow> u256" where
  "path_of cs = word_of_nat (path_nat cs)"

definition proper_path :: "channel_id list \<Rightarrow> bool" where
  "proper_path cs \<longleftrightarrow> length cs \<le> 8 \<and> (\<forall>c\<in>set cs. 0 < c \<and> c < 2 ^ 31)"

lemma channel_unat_less: "unat (c :: u32) < 2 ^ 32"
  using unsigned_less [of c] by simp

lemma path_nat_less: "path_nat cs < 2 ^ (32 * length cs)"
proof (induction cs)
  case (Cons c cs)
  have "unat c + 2 ^ 32 * path_nat cs < 2 ^ 32 * Suc (path_nat cs)"
    using channel_unat_less [of c] by simp
  also have "\<dots> \<le> 2 ^ 32 * 2 ^ (32 * length cs)"
    using Cons by (intro mult_le_mono2) (simp add: Suc_le_eq)
  finally show ?case
    by (simp add: power_add)
qed simp

lemma path_nat_append: "path_nat (cs @ [c]) = path_nat cs + 2 ^ (32 * length cs) * unat c"
  by (induction cs) (simp_all add: algebra_simps power_add)

lemma unat_path:
  assumes "length cs \<le> 8"
  shows "unat (path_of cs) = path_nat cs"
proof -
  have "path_nat cs < 2 ^ (32 * 8)"
    using path_nat_less [of cs] power_increasing [of "32 * length cs" "32 * 8" "2::nat"] assms by simp
  then show ?thesis
    by (simp add: path_of_def unat_of_nat)
qed

lemma path_of_Nil [simp]: "path_of [] = 0"
  by (simp add: path_of_def)

lemma path_top:
  assumes "length cs < 8" "c \<noteq> 0"
  shows "top_slot (path_of (cs @ [c])) = length cs" "path_of (cs @ [c]) \<noteq> 0"
    "unat (path_of (cs @ [c])) div 2 ^ (32 * length cs) = unat c" "unat (path_of (cs @ [c])) mod 2 ^ (32 * length cs) = path_nat cs"
proof -
  have u: "unat (path_of (cs @ [c])) = path_nat cs + 2 ^ (32 * length cs) * unat c"
    using assms unat_path [of "cs @ [c]"] by (simp add: path_nat_append)
  have c: "1 \<le> unat c"
    using assms(2) by (simp add: Suc_le_eq unat_gt_0)
  have lo: "2 ^ (32 * length cs) \<le> unat (path_of (cs @ [c]))"
    unfolding u using mult_le_mono2 [OF c, of "2 ^ (32 * length cs)"] by linarith
  have "unat (path_of (cs @ [c])) < 2 ^ (32 * length cs + 32)"
    using path_nat_less [of "cs @ [c]"] u by (simp add: path_nat_append add.commute)
  then show "top_slot (path_of (cs @ [c])) = length cs"
    by (rule top_slot_eq [OF lo])
  show "path_of (cs @ [c]) \<noteq> 0"
    using lo by (metis unsigned_0 power_not_zero not_one_le_zero le_zero_eq zero_neq_numeral)
  show "unat (path_of (cs @ [c])) div 2 ^ (32 * length cs) = unat c" "unat (path_of (cs @ [c])) mod 2 ^ (32 * length cs) = path_nat cs"
    using path_nat_less [of cs] by (simp_all add: u)
qed

lemma id_nonzero: "c \<noteq> 0 \<Longrightarrow> id_from_raw c = Some c"
  by (simp add: id_from_raw_def)

lemma ucast_slot:
  assumes "unat (w :: u256) = unat (c :: u32)"
  shows "ucast w = c"
  using assms take_bit_nat_eq_self [OF channel_unat_less [of c]] by (simp add: word_unat_eq_iff unsigned_ucast_eq)

lemma pop_list:
  assumes "length cs < 8" "c \<noteq> 0"
  shows "pop_channel_from_path (path_of (cs @ [c])) = (path_of cs, Some c)"
proof -
  note t = path_top [OF assms]
  have "take_bit (32 * length cs) (path_of (cs @ [c])) = path_of cs"
    using t(4) assms(1) by (simp add: word_unat_eq_iff unat_take unat_path)
  moreover have "ucast (drop_bit (32 * length cs) (path_of (cs @ [c]))) = c"
    by (rule ucast_slot) (simp add: unat_drop t(3))
  ultimately show ?thesis
    using pop_word [OF t(2)] t(1) assms(2) by (simp add: id_nonzero)
qed

lemma dequeue_list:
  assumes "length cs < 8" "c \<noteq> 0"
  shows "dequeue_channel_from_path (path_of (c # cs)) = Inr (path_of cs, Some c)"
proof -
  have u: "unat (path_of (c # cs)) = unat c + 2 ^ 32 * path_nat cs"
    using assms(1) unat_path [of "c # cs"] by simp
  have "path_of (c # cs) \<noteq> 0"
    using u assms(2) by (metis unsigned_0 add_is_0 unsigned_eq_0_iff)
  moreover have "ucast (take_bit 32 (path_of (c # cs))) = c"
    using channel_unat_less [of c] by (intro ucast_slot) (simp add: unat_take u)
  moreover have "drop_bit 32 (path_of (c # cs)) = path_of cs"
    using channel_unat_less [of c] assms(1) by (simp add: word_unat_eq_iff unat_drop u unat_path)
  ultimately show ?thesis
    using assms(2) by (simp add: dequeue_channel_from_path_def and_U32_MAX id_nonzero)
qed

lemma unat_ucast_u32: "unat (ucast (c :: u32) :: u256) = unat c"
proof -
  have "take_bit 256 (unat c) = unat c"
    using order_less_le_trans [OF channel_unat_less [of c], of "2 ^ 256"] by (intro take_bit_nat_eq_self) simp
  then show ?thesis
    by (simp add: unsigned_ucast_eq)
qed

lemma unat_push:
  assumes "2 ^ k * unat (c :: u32) < 2 ^ 256"
  shows "unat (push_bit k (ucast c :: u256)) = 2 ^ k * unat c"
proof -
  have "take_bit 256 (push_bit k (unat c)) = 2 ^ k * unat c"
    unfolding push_bit_eq_mult mult.commute [of "unat c"] using assms by (rule take_bit_nat_eq_self)
  then show ?thesis
    unfolding unsigned_push_bit_eq unat_ucast_u32 by simp
qed

lemma or_slot:
  fixes w :: u256
  assumes "unat w < 2 ^ k" "k + 32 \<le> 256"
  shows "unat (push_bit k (ucast (c :: u32)) OR w) = unat w + 2 ^ k * unat c"
proof -
  have "push_bit k (ucast c) AND w = 0"
  proof (rule bit_word_eqI)
    fix i
    have "bit w i \<Longrightarrow> i < k"
      using take_bit_small [OF assms(1)] by (metis bit_take_bit_iff)
    then show "bit (push_bit k (ucast c) AND w) i \<longleftrightarrow> bit 0 i"
      by (auto simp: bit_simps)
  qed
  then have or: "push_bit k (ucast c) OR w = push_bit k (ucast c) + w"
    by (simp add: disjunctive_add_eq_or)
  have small: "unat w + 2 ^ k * unat c < 2 ^ 256"
  proof -
    have "unat w + 2 ^ k * unat c < 2 ^ k * Suc (unat c)"
      using assms(1) by simp
    also have "\<dots> \<le> 2 ^ k * 2 ^ 32"
      using channel_unat_less [of c] by (intro mult_le_mono2 Suc_leI)
    also have "\<dots> \<le> 2 ^ 256"
      unfolding power_add [symmetric] using assms(2) by (intro power_increasing) simp_all
    finally show ?thesis .
  qed
  have p: "unat (push_bit k (ucast c :: u256)) = 2 ^ k * unat c"
    by (rule unat_push) (use small in linarith)
  have len: "LENGTH(256) = 256"
    by simp
  have "unat (push_bit k (ucast c :: u256)) + unat w < 2 ^ LENGTH(256)"
    unfolding p len add.commute [of "2 ^ k * unat c"] by (rule small)
  then have "unat (push_bit k (ucast c) + w) = unat (push_bit k (ucast c :: u256)) + unat w"
    by (rule iffD1 [OF unat_add_lem])
  then show ?thesis
    unfolding or p by (simp only: add.commute)
qed

lemma update_list:
  assumes "proper_path cs" "length cs < 8" "c \<noteq> 0"
  shows "update_channel_path (path_of cs) c = Inr (path_of (cs @ [c]))"
proof (cases cs rule: rev_cases)
  case Nil
  then show ?thesis
    by (simp add: update_channel_path_def path_of_def)
next
  case (snoc bs b)
  have b: "b \<noteq> 0" "unat b < 2 ^ 31" and len: "length bs < 8" "length cs = Suc (length bs)"
    using assms(1,2) snoc by (auto simp: proper_path_def word_less_nat_alt)
  note t = path_top [OF len(1) b(1), folded snoc]
  have "unat (path_of cs) < 2 ^ (32 * length bs + 31)"
    using t(3) b(2) by (metis add.commute div_less_iff_less_mult power_add zero_less_numeral zero_less_power)
  then have "bit_len (unat (path_of cs)) \<le> 32 * length bs + 31"
    by (simp add: bit_len_le)
  moreover have "32 * length bs < bit_len (unat (path_of cs))"
    using top_slot_bounds(1) [OF t(2)] by (simp add: less_bit_len t(1))
  ultimately have "bit_len (unat (path_of cs)) div 32 = length bs"
    by (intro div_nat_eqI) simp_all
  then have "update_channel_path (path_of cs) c = Inr (push_bit (32 * length cs) (ucast c) OR path_of cs)"
    using t(2) len assms(2) by (simp add: update_channel_path_def bit_len_word make_path_from_channel_def)
  also have "push_bit (32 * length cs) (ucast c) OR path_of cs = path_of (cs @ [c])"
    using assms(2) or_slot [of "path_of cs" "32 * length cs" c] path_nat_less [of cs] unat_path [of cs] unat_path [of "cs @ [c]"]
    by (simp add: word_unat_eq_iff path_nat_append)
  finally show ?thesis .
qed

lemma reverse_loop_list:
  assumes "proper_path (acc @ rev cs)"
  shows "reverse_loop (path_of cs) (path_of acc) = Inr (path_of (acc @ rev cs))"
  using assms
proof (induction cs arbitrary: acc rule: rev_induct)
  case Nil
  then show ?case
    by (subst reverse_loop.simps) (simp add: pop_channel_from_path_def)
next
  case (snoc c cs)
  have c: "c \<noteq> 0" "length cs < 8" "length acc < 8" and p: "proper_path acc" "proper_path ((acc @ [c]) @ rev cs)"
    using snoc.prems by (auto simp: proper_path_def)
  note step = reverse_loop.simps [of "path_of (cs @ [c])" "path_of acc"]
  show ?case
  proof (cases "path_of cs = 0")
    case True
    have "cs = []"
    proof (cases cs rule: rev_cases)
      case (snoc bs b)
      then have "b \<noteq> 0"
        using p(2) by (auto simp: proper_path_def)
      then show ?thesis
        using True path_top(2) [of bs b] c(2) snoc by simp
    qed
    then show ?thesis
      using True step pop_list [of "[]" c] c(1) by (simp add: update_list [OF p(1) c(3,1)])
  next
    case False
    then show ?thesis
      using snoc.IH [OF p(2)] step by (simp add: pop_list [OF c(2,1)] update_list [OF p(1) c(3,1)])
  qed
qed

text \<open>C27: The word operations on channel paths are the list operations: for at most eight channel ids below \<open>2^31\<close>,
  updating appends, popping takes the last hop, dequeuing takes the first, and reversing reverses.\<close>

theorem paths_are_lists:
  assumes "proper_path (cs @ [c])"
  shows "update_channel_path (path_of cs) c = Inr (path_of (cs @ [c])) \<and>
    pop_channel_from_path (path_of (cs @ [c])) = (path_of cs, Some c) \<and>
    dequeue_channel_from_path (path_of (cs @ [c])) = Inr (path_of (tl (cs @ [c])), Some (hd (cs @ [c]))) \<and>
    reverse_channel_path (path_of (cs @ [c])) = Inr (path_of (rev (cs @ [c])))"
proof (intro conjI)
  have p: "proper_path cs" "length cs < 8" "c \<noteq> 0" "hd (cs @ [c]) \<noteq> 0" "length (tl (cs @ [c])) < 8" "proper_path (rev (cs @ [c]))"
    using assms by (cases cs; auto simp: proper_path_def)+
  show "update_channel_path (path_of cs) c = Inr (path_of (cs @ [c]))"
    by (rule update_list [OF p(1-3)])
  show "pop_channel_from_path (path_of (cs @ [c])) = (path_of cs, Some c)"
    by (rule pop_list [OF p(2,3)])
  show "dequeue_channel_from_path (path_of (cs @ [c])) = Inr (path_of (tl (cs @ [c])), Some (hd (cs @ [c])))"
    using dequeue_list [OF p(5,4)] by simp
  show "reverse_channel_path (path_of (cs @ [c])) = Inr (path_of (rev (cs @ [c])))"
    using reverse_loop_list [of "[]" "cs @ [c]"] p(6) by (simp add: reverse_channel_path_def)
qed

theorem paths_are_lists_witness:
  "reverse_channel_path (path_of [1, 2, 3]) = Inr (path_of [3, 2, 1]) \<and> proper_path [1, 2, 3]"
  using paths_are_lists [of "[1, 2]" 3] by (simp add: proper_path_def)

section \<open>Wide channel ids\<close>

lemma dequeue_gap:
  assumes "length cs < 8" "path_nat cs \<noteq> 0"
  shows "dequeue_channel_from_path (path_of (0 # cs)) = Inl (ZPanic ''value is > 0 as path is > 0; qed;'')"
proof -
  have u: "unat (path_of (0 # cs)) = 2 ^ 32 * path_nat cs"
    using assms(1) unat_path [of "0 # cs"] by simp
  have "path_of (0 # cs) \<noteq> 0"
    using u assms(2) by (metis unsigned_0 mult_is_0 power_not_zero zero_neq_numeral)
  moreover have "take_bit 32 (path_of (0 # cs)) = 0"
    by (simp add: word_unat_eq_iff unat_take u)
  ultimately show ?thesis
    by (simp add: dequeue_channel_from_path_def and_U32_MAX id_from_raw_def zexpect_def)
qed

text \<open>A channel id of \<open>2^31\<close> or more breaks the path: the next hop is put two slots further instead of one, so
  the path is not that of the two channels, and dequeuing the hop after the wide channel panics, at the
  \<open>expect\<close> that says it cannot.\<close>

theorem wide_channel_breaks_path:
  assumes "2 ^ 31 \<le> c" "d \<noteq> 0"
  shows "\<exists>p t. update_channel_path (path_of [c]) d = Inr p \<and> p \<noteq> path_of [c, d] \<and>
    dequeue_channel_from_path p = Inr (t, Some c) \<and> dequeue_channel_from_path t = Inl (ZPanic ''value is > 0 as path is > 0; qed;'')"
proof (intro exI conjI)
  have c: "2 ^ 31 \<le> unat c" "c \<noteq> 0"
    using assms(1) by (auto simp: word_le_nat_alt)
  have u: "unat (path_of [c]) = unat c"
    by (simp add: unat_path)
  have "bit_len (unat c) = 32"
    using c(1) channel_unat_less [of c] less_bit_len [of 31 "unat c"] bit_len_le [of "unat c" 32] by linarith
  then have "update_channel_path (path_of [c]) d = Inr (push_bit 64 (ucast d) OR path_of [c])"
    using path_top(2) [of "[]" c] c(2) by (simp add: update_channel_path_def bit_len_word u make_path_from_channel_def)
  also have "push_bit 64 (ucast d) OR path_of [c] = path_of [c, 0, d]"
    using or_slot [of "path_of [c]" 64 d] channel_unat_less [of c] by (simp add: word_unat_eq_iff u unat_path)
  finally show "update_channel_path (path_of [c]) d = Inr (path_of [c, 0, d])" .
  show "path_of [c, 0, d] \<noteq> path_of [c, d]"
    using assms(2) by (simp add: word_unat_eq_iff unat_path)
  show "dequeue_channel_from_path (path_of [c, 0, d]) = Inr (path_of [0, d], Some c)"
    using dequeue_list [of "[0, d]" c] c(2) by simp
  show "dequeue_channel_from_path (path_of [0, d]) = Inl (ZPanic ''value is > 0 as path is > 0; qed;'')"
    using dequeue_gap [of "[d]"] assms(2) by (simp add: word_unat_eq_iff)
qed

theorem wide_channel_breaks_path_witness:
  "\<exists>p t. update_channel_path (path_of [2147483648]) 7 = Inr p \<and> p \<noteq> path_of [2147483648, 7] \<and>
    dequeue_channel_from_path p = Inr (t, Some 2147483648) \<and> dequeue_channel_from_path t = Inl (ZPanic ''value is > 0 as path is > 0; qed;'')"
  by (rule wide_channel_breaks_path) simp_all

section \<open>Salts of forwarded packets\<close>

lemma tint_forwarded [simp]: "is_forwarded_packet (tint_forward_salt salt)"
  unfolding is_forwarded_packet_def tint_forward_salt_def by (rule bit_word_eqI) (auto simp: bit_simps)

lemma tint_idempotent: "tint_forward_salt (tint_forward_salt salt) = tint_forward_salt salt"
  unfolding tint_forward_salt_def by (rule bit_word_eqI) (auto simp: bit_simps)

lemma forwarded_iff_tinted: "is_forwarded_packet salt \<longleftrightarrow> tint_forward_salt salt = salt"
  unfolding is_forwarded_packet_def tint_forward_salt_def bit_eq_iff by (auto simp: bit_simps)

lemma derived_forwarded: "is_forwarded_packet (derive_forward_salt H salt)"
  by (simp add: derive_forward_salt_def)

end
