(* ===== verification/Zkgm_Order.thy ===== *)
theory Zkgm_Order
  imports Zkgm_Path
begin

text \<open>
  The source side of the zkgm application (\<open>contract.rs\<close>): channel balances, the rate limit, the verification of
  an instruction that a user sends, and what happens to it when its packet is acknowledged or times out.
  Instructions nest: a forward contains an instruction and a batch several. The recursion takes fuel; a
  verified instruction nests at most three deep, and running out is the error \<open>ZOutOfFuel\<close>.
\<close>

section \<open>Balances, rate limit, predictions\<close>

definition now_secs :: "block_env \<Rightarrow> nat" where
  "now_secs env = unat (timestamp_as_secs (block_time env))"

definition rate_limit :: "string \<Rightarrow> nat \<Rightarrow> nat \<Rightarrow> zkgm_state \<Rightarrow> zkgm_error + zkgm_state" where
  "rate_limit denom amount now s =
     bindE (zread (zk_config s)) (\<lambda>config.
     if zc_rate_limit_disabled config then Inr s
     else (case token_bucket_of s denom of
       Some b \<Rightarrow> bindE (map_err TokenBucketErr (bucket_rate_limit b amount now)) (\<lambda>b.
         Inr (s\<lparr>token_bucket_of := (token_bucket_of s)(denom \<mapsto> b)\<rparr>))
     | None \<Rightarrow> Inl (TokenBucketIsAbsent denom)))"

definition decrease_channel_balance_v2 :: "channel_id \<Rightarrow> u256 \<Rightarrow> string \<Rightarrow> bytes \<Rightarrow> uint256 \<Rightarrow> zkgm_state \<Rightarrow> zkgm_error + zkgm_state" where
  "decrease_channel_balance_v2 ch path base_token quote_token amount s =
     (let key = (ch, path, base_token, quote_token) in
      bindE (case channel_balance_v2 s key of
          Some v \<Rightarrow> ok_or InvalidChannelBalance (sub256 v amount)
        | None \<Rightarrow> Inl InvalidChannelBalance) (\<lambda>v.
      Inr (s\<lparr>channel_balance_v2 := (channel_balance_v2 s)(key \<mapsto> v)\<rparr>)))"

definition increase_channel_balance_v2 :: "channel_id \<Rightarrow> u256 \<Rightarrow> string \<Rightarrow> bytes \<Rightarrow> uint256 \<Rightarrow> zkgm_state \<Rightarrow> zkgm_error + zkgm_state" where
  "increase_channel_balance_v2 ch path base_token quote_token amount s =
     (let key = (ch, path, base_token, quote_token) in
      bindE (case channel_balance_v2 s key of
          Some v \<Rightarrow> ok_or InvalidChannelBalance (add256 v amount)
        | None \<Rightarrow> Inr amount) (\<lambda>v.
      Inr (s\<lparr>channel_balance_v2 := (channel_balance_v2 s)(key \<mapsto> v)\<rparr>)))"

definition predict_wrapped_token :: "'z zkgm_host_scheme \<Rightarrow> addr \<Rightarrow> u256 \<Rightarrow> channel_id \<Rightarrow> bytes \<Rightarrow> zkgm_error + string" where
  "predict_wrapped_token H minter path ch token = map_err ZStd (q_predict H minter path ch token)"

definition predict_wrapped_token_from_metadata_image_v2 ::
    "'z zkgm_host_scheme \<Rightarrow> addr \<Rightarrow> u256 \<Rightarrow> channel_id \<Rightarrow> bytes \<Rightarrow> h256 \<Rightarrow> zkgm_error + string" where
  "predict_wrapped_token_from_metadata_image_v2 H minter path ch token img =
     map_err ZStd (q_predict_v2 H minter path ch token img)"

definition predict_wrapped_token_v2 :: "'z zkgm_host_scheme \<Rightarrow> addr \<Rightarrow> u256 \<Rightarrow> channel_id \<Rightarrow> bytes \<Rightarrow> token_metadata \<Rightarrow> zkgm_error + string" where
  "predict_wrapped_token_v2 H minter path ch token metadata =
     predict_wrapped_token_from_metadata_image_v2 H minter path ch token (keccak256 H (enc_metadata H metadata))"

text \<open>The coin of the funds of the call that goes along with a message to the minter, if there is one.\<close>

definition take_coin :: "purse \<Rightarrow> string \<Rightarrow> uint256 \<Rightarrow> zkgm_error + (coins \<times> purse)" where
  "take_coin coins_left denom amount =
     (if coins_left denom = 0 then Inr ([], coins_left)
      else bindE (to_u128 amount) (\<lambda>a.
        bindE (coins_sub coins_left denom a) (\<lambda>coins_left. Inr ([(denom, a)], coins_left))))"

section \<open>Verifying an instruction\<close>

type_synonym verify_result = "zkgm_error + zkgm_sub_msg list \<times> purse \<times> zkgm_state"

text \<open>The path and the last channel of the origin of a token, \<open>(0, None)\<close> for a token of this chain.\<close>

definition origin_split :: "u256 option \<Rightarrow> u256 \<times> channel_id option" where
  "origin_split origin = (case origin of Some o' \<Rightarrow> pop_channel_from_path o' | None \<Rightarrow> (0, None))"

definition verify_token_order_v2 :: "'z zkgm_host_scheme \<Rightarrow> message_info \<Rightarrow> channel_id \<Rightarrow> u256 \<Rightarrow> order_v2 \<Rightarrow> purse \<Rightarrow> zkgm_state \<Rightarrow> verify_result" where
  "verify_token_order_v2 H info ch path order coins_left s =
     bindE (ok_or InvalidBaseToken (from_utf8 (o2_base_token order))) (\<lambda>base.
     bindE (zread (token_minter s)) (\<lambda>minter.
     if o2_kind order = TOKEN_ORDER_KIND_UNESCROW then
       (let (intermediate, destination) = origin_split (token_origin s base);
            img = (case metadata_image_of s base of None \<Rightarrow> 0 | Some h \<Rightarrow> h) in
       bindE (reverse_channel_path intermediate) (\<lambda>reversed.
       bindE (predict_wrapped_token H minter intermediate ch (o2_quote_token order)) (\<lambda>wrapped_v1.
       bindE (predict_wrapped_token_from_metadata_image_v2 H minter intermediate ch (o2_quote_token order) img) (\<lambda>wrapped_v2.
       bindE (ensureE ((base = wrapped_v1 \<or> base = wrapped_v2) \<and> path = reversed \<and> destination = Some ch)
                InvalidTokenOrderUnescrow) (\<lambda>_.
       bindE (take_coin coins_left base (o2_base_amount order)) (\<lambda>(coins, coins_left).
       bindE (to_u128 (o2_base_amount order)) (\<lambda>amount.
       Inr ([plain (ToMinter minter (BurnTokens base amount minter (sender info)) coins)], coins_left, s))))))))
     else
       bindE (increase_channel_balance_v2 ch path base (o2_quote_token order) (o2_base_amount order) s) (\<lambda>s.
       bindE (take_coin coins_left base (o2_base_amount order)) (\<lambda>(coins, coins_left).
       bindE (to_u128 (o2_base_amount order)) (\<lambda>amount.
       Inr ([plain (ToMinter minter (Escrow (sender info) base minter amount) coins)], coins_left, s))))))"

definition verify_token_order_v1 :: "'z zkgm_host_scheme \<Rightarrow> message_info \<Rightarrow> channel_id \<Rightarrow> u256 \<Rightarrow> order_v1 \<Rightarrow> purse \<Rightarrow> zkgm_state \<Rightarrow> verify_result" where
  "verify_token_order_v1 H info ch path order coins_left s =
     bindE (ok_or InvalidBaseToken (from_utf8 (o1_base_token order))) (\<lambda>base.
     bindE (zread (token_minter s)) (\<lambda>minter.
     bindE (map_err ZStd (q_metadata H minter base)) (\<lambda>(name, symbol, decimals).
     bindE (ensureE (name = o1_base_token_name order) (InvalidAssetName name (o1_base_token_name order))) (\<lambda>_.
     bindE (ensureE (symbol = o1_base_token_symbol order) (InvalidAssetSymbol symbol (o1_base_token_symbol order))) (\<lambda>_.
     bindE (ensureE (decimals = o1_base_token_decimals order) (InvalidAssetDecimals decimals (o1_base_token_decimals order))) (\<lambda>_.
     bindE (predict_wrapped_token H minter path ch (o1_quote_token order)) (\<lambda>wrapped.
     let origin = (case token_origin s base of Some o' \<Rightarrow> o' | None \<Rightarrow> 0);
         (intermediate, destination) = origin_split (token_origin s base) in
     bindE (reverse_channel_path intermediate) (\<lambda>reversed.
     bindE (if o1_base_amount order = 0 then Inr ([], coins_left) else take_coin coins_left base (o1_base_amount order)) (\<lambda>(coins, coins_left).
     if path = reversed \<and> destination = Some ch \<and> base = wrapped then
       bindE (ensureE (origin = o1_base_token_path order) (InvalidAssetOrigin (o1_base_token_path order) origin)) (\<lambda>_.
       bindE (to_u128 (o1_base_amount order)) (\<lambda>amount.
       Inr ([plain (ToMinter minter (BurnTokens base amount minter (sender info)) coins)], coins_left, s)))
     else
       bindE (ensureE (o1_base_token_path order = 0) (InvalidAssetOrigin (o1_base_token_path order) 0)) (\<lambda>_.
       bindE (increase_channel_balance_v2 ch path base (o1_quote_token order) (o1_base_amount order) s) (\<lambda>s.
       bindE (to_u128 (o1_base_amount order)) (\<lambda>amount.
       Inr ([plain (ToMinter minter (Escrow (sender info) base minter amount) coins)], coins_left, s)))))))))))))"

definition verify_call :: "zcall \<Rightarrow> addr \<Rightarrow> zkgm_error + unit" where
  "verify_call c caller =
     bindE (ok_or InvalidSender (from_utf8 (cl_sender c))) (\<lambda>call_sender.
     ensureE (call_sender = caller) InvalidCallSender)"

definition is_allowed_batch_instruction :: "u8 \<Rightarrow> bool" where
  "is_allowed_batch_instruction opcode \<longleftrightarrow> opcode = OP_CALL \<or> opcode = OP_TOKEN_ORDER"

definition is_allowed_forward_instruction :: "u8 \<Rightarrow> bool" where
  "is_allowed_forward_instruction opcode \<longleftrightarrow> opcode = OP_CALL \<or> opcode = OP_TOKEN_ORDER \<or> opcode = OP_BATCH"

fun verify_batch :: "(instruction \<Rightarrow> purse \<Rightarrow> zkgm_state \<Rightarrow> verify_result) \<Rightarrow> instruction list \<Rightarrow> purse \<Rightarrow> zkgm_state \<Rightarrow> verify_result" where
  "verify_batch verify [] coins_left s = Inr ([], coins_left, s)"
| "verify_batch verify (i # is) coins_left s =
     bindE (ensureE (is_allowed_batch_instruction (i_opcode i)) InvalidBatchInstruction) (\<lambda>_.
     bindE (verify i coins_left s) (\<lambda>(msgs, coins_left, s).
     bindE (verify_batch verify is coins_left s) (\<lambda>(msgs', coins_left, s).
     Inr (msgs @ msgs', coins_left, s))))"

definition only_version_0 :: "instruction \<Rightarrow> zkgm_error + unit" where
  "only_version_0 i = ensureE (i_version i \<le> INSTR_VERSION_0) (UnsupportedVersion (i_version i))"

primrec verify_internal :: "nat \<Rightarrow> 'z zkgm_host_scheme \<Rightarrow> message_info \<Rightarrow> channel_id \<Rightarrow> u256 \<Rightarrow> instruction \<Rightarrow> purse \<Rightarrow> zkgm_state \<Rightarrow> verify_result" where
  "verify_internal 0 H info ch path i coins_left s = Inl ZOutOfFuel"
| "verify_internal (Suc n) H info ch path i coins_left s =
     (if i_opcode i = OP_TOKEN_ORDER then
        (if i_version i = INSTR_VERSION_1 then
           bindE (decode (dec_order_v1 H (i_operand i))) (\<lambda>order. verify_token_order_v1 H info ch path order coins_left s)
         else if i_version i = INSTR_VERSION_2 then
           bindE (decode (dec_order_v2 H (i_operand i))) (\<lambda>order. verify_token_order_v2 H info ch path order coins_left s)
         else Inl (UnsupportedVersion (i_version i)))
      else if i_opcode i = OP_BATCH then
        bindE (only_version_0 i) (\<lambda>_.
        bindE (decode (dec_batch H (i_operand i))) (\<lambda>is.
        verify_batch (verify_internal n H info ch path) is coins_left s))
      else if i_opcode i = OP_FORWARD then
        bindE (only_version_0 i) (\<lambda>_.
        bindE (decode (dec_forward H (i_operand i))) (\<lambda>fw.
        bindE (ensureE (is_allowed_forward_instruction (i_opcode (fw_instruction fw))) InvalidForwardInstruction) (\<lambda>_.
        verify_internal n H info ch (fw_path fw) (fw_instruction fw) coins_left s)))
      else if i_opcode i = OP_CALL then
        bindE (only_version_0 i) (\<lambda>_.
        bindE (decode (dec_call H (i_operand i))) (\<lambda>call.
        bindE (verify_call call (sender info)) (\<lambda>_. Inr ([], coins_left, s))))
      else Inl (UnknownOpcode (i_opcode i)))"

definition send :: "'z zkgm_host_scheme \<Rightarrow> message_info \<Rightarrow> channel_id \<Rightarrow> timestamp \<Rightarrow> h256 \<Rightarrow> instruction \<Rightarrow> zkgm_state \<Rightarrow> zkgm_result" where
  "send H info ch timeout salt i s =
     bindE (zexpect ''impossible'' (coins_try_from (funds info))) (\<lambda>purse.
     bindE (verify_internal 3 H info ch 0 i purse s) (\<lambda>(msgs, _, s).
     let hashed_salt = keccak256 H (enc_bytes_h256 H (str_bytes (sender info)) salt) in
     bindE (zread (zk_config s)) (\<lambda>config.
     Inr (z_respond [] (msgs @ [plain (ToHost (zc_ibc_host config) (PacketSend ch timeout
            (enc_packet H \<lparr>zp_salt = hashed_salt, zp_path = 0, zp_instruction = i\<rparr>)))]), s))))"

section \<open>Refunds\<close>

definition refund :: "'z zkgm_host_scheme \<Rightarrow> u256 \<Rightarrow> channel_id \<Rightarrow> order_v1 \<Rightarrow> zkgm_state \<Rightarrow> zkgm_result" where
  "refund H path source_channel order s =
     bindE (validate_bytes H InvalidSender UnableToValidateSender (o1_sender order)) (\<lambda>sender.
     bindE (zread (token_minter s)) (\<lambda>minter.
     bindE (to_u128 (o1_base_amount order)) (\<lambda>amount.
     bindE (ok_or InvalidBaseToken (from_utf8 (o1_base_token order))) (\<lambda>base.
     if amount = 0 then Inr (z_respond [] [], s)
     else if o1_base_token_path order \<noteq> 0 then
       Inr (z_respond [] [plain (ToMinter minter (MintTokens base amount sender) [])], s)
     else
       bindE (decrease_channel_balance_v2 source_channel path base (o1_quote_token order) amount s) (\<lambda>s.
       Inr (z_respond [] [plain (ToMinter minter (Unescrow base sender amount) [])], s))))))"

definition refund_v2 :: "'z zkgm_host_scheme \<Rightarrow> u256 \<Rightarrow> channel_id \<Rightarrow> order_v2 \<Rightarrow> zkgm_state \<Rightarrow> zkgm_result" where
  "refund_v2 H path source_channel order s =
     bindE (validate_bytes H InvalidSender UnableToValidateSender (o2_sender order)) (\<lambda>sender.
     bindE (ok_or InvalidBaseToken (from_utf8 (o2_base_token order))) (\<lambda>base.
     bindE (to_u128 (o2_base_amount order)) (\<lambda>amount.
     bindE (zread (token_minter s)) (\<lambda>minter.
     if o2_kind order = TOKEN_ORDER_KIND_UNESCROW then
       Inr (z_respond [] [plain (ToMinter minter (MintTokens base amount sender) [])], s)
     else
       bindE (decrease_channel_balance_v2 source_channel path base (o2_quote_token order) amount s) (\<lambda>s.
       Inr (z_respond [] [plain (ToMinter minter (Unescrow base sender amount) [])], s))))))"

section \<open>Acknowledgements\<close>

definition get_burn_address :: "'z zkgm_host_scheme \<Rightarrow> zkgm_error + addr" where
  "get_burn_address H = map_err ZStd (burn_address H)"

definition acknowledge_token_order_v2 :: "'z zkgm_host_scheme \<Rightarrow> packet \<Rightarrow> u256 \<Rightarrow> order_v2 \<Rightarrow> token_order_ack option \<Rightarrow> zkgm_state \<Rightarrow> zkgm_result" where
  "acknowledge_token_order_v2 H packet path order order_ack s =
     (case order_ack of
       None \<Rightarrow> refund_v2 H path (source_channel_id packet) order s
     | Some ack \<Rightarrow>
         if toa_fill_type ack = FILL_TYPE_PROTOCOL then Inr (z_respond [] [], s)
         else if toa_fill_type ack = FILL_TYPE_MARKETMAKER then
           bindE (ok_or InvalidBaseToken (from_utf8 (o2_base_token order))) (\<lambda>base.
           bindE (to_u128 (o2_base_amount order)) (\<lambda>amount.
           if amount = 0 then Inr (z_respond [] [], s)
           else
             bindE (zread (token_minter s)) (\<lambda>minter.
             if o2_kind order = TOKEN_ORDER_KIND_UNESCROW then
               bindE (validate_bytes H InvalidReceiver UnableToValidateMarketMaker (toa_market_maker ack)) (\<lambda>maker.
               Inr (z_respond [] [plain (ToMinter minter (MintTokens base amount maker) [])], s))
             else
               bindE (decrease_channel_balance_v2 (source_channel_id packet) path base (o2_quote_token order) amount s) (\<lambda>s.
               bindE (get_burn_address H) (\<lambda>burn.
               if toa_market_maker ack = str_bytes burn then
                 Inr (z_respond [] [plain (ToMinter minter (BurnTokens base amount minter minter) [])], s)
               else
                 bindE (validate_bytes H InvalidReceiver UnableToValidateMarketMaker (toa_market_maker ack)) (\<lambda>maker.
                 Inr (z_respond [] [plain (ToMinter minter (Unescrow base maker amount) [])], s)))))))
         else Inl (InvalidFillType (toa_fill_type ack)))"

definition acknowledge_token_order_v1 :: "'z zkgm_host_scheme \<Rightarrow> packet \<Rightarrow> u256 \<Rightarrow> order_v1 \<Rightarrow> token_order_ack option \<Rightarrow> zkgm_state \<Rightarrow> zkgm_result" where
  "acknowledge_token_order_v1 H packet path order order_ack s =
     (case order_ack of
       None \<Rightarrow> refund H path (source_channel_id packet) order s
     | Some ack \<Rightarrow>
         if toa_fill_type ack = FILL_TYPE_PROTOCOL then Inr (z_respond [] [], s)
         else if toa_fill_type ack = FILL_TYPE_MARKETMAKER then
           bindE (validate_bytes H InvalidReceiver UnableToValidateMarketMaker (toa_market_maker ack)) (\<lambda>maker.
           bindE (ok_or InvalidBaseToken (from_utf8 (o1_base_token order))) (\<lambda>base.
           bindE (to_u128 (o1_base_amount order)) (\<lambda>amount.
           bindE (zread (token_minter s)) (\<lambda>minter.
           if o1_base_token_path order \<noteq> 0 then
             Inr (z_respond [] [plain (ToMinter minter (MintTokens base amount maker) [])], s)
           else
             bindE (decrease_channel_balance_v2 (source_channel_id packet) path base (o1_quote_token order) amount s) (\<lambda>s.
             Inr (z_respond [] [plain (ToMinter minter (Unescrow base maker amount) [])], s))))))
         else Inl (InvalidFillType (toa_fill_type ack)))"

definition encode_call_calldata :: "'z zkgm_host_scheme \<Rightarrow> u256 \<Rightarrow> bytes \<Rightarrow> bytes \<Rightarrow> bytes" where
  "encode_call_calldata H path caller calldata = enc_calldata H path caller calldata"

text \<open>The virtual packet that a contract called in eureka mode sees.\<close>

definition call_packet :: "'z zkgm_host_scheme \<Rightarrow> packet \<Rightarrow> u256 \<Rightarrow> zcall \<Rightarrow> packet" where
  "call_packet H packet path call =
     \<lparr>source_channel_id = source_channel_id packet, destination_channel_id = destination_channel_id packet,
      packet_data = encode_call_calldata H path (cl_sender call) (cl_contract_calldata call), timeout_height = MustBeZero,
      timeout_timestamp = timeout_timestamp packet\<rparr>"

definition acknowledge_call :: "'z zkgm_host_scheme \<Rightarrow> addr \<Rightarrow> packet \<Rightarrow> addr \<Rightarrow> u256 \<Rightarrow> zcall \<Rightarrow> bool \<Rightarrow> bytes \<Rightarrow> zkgm_state \<Rightarrow> zkgm_result" where
  "acknowledge_call H caller packet relayer path call successful ack s =
     (if successful \<and> cl_eureka call then
        bindE (validate_bytes H InvalidSender UnableToValidateSender (cl_sender call)) (\<lambda>sender.
        Inr (z_respond [] [plain (ToModule sender (OnAcknowledgementPacket caller (call_packet H packet path call) ack relayer))], s))
      else Inr (z_respond [] [], s))"

definition timeout_call :: "'z zkgm_host_scheme \<Rightarrow> addr \<Rightarrow> packet \<Rightarrow> addr \<Rightarrow> u256 \<Rightarrow> zcall \<Rightarrow> zkgm_state \<Rightarrow> zkgm_result" where
  "timeout_call H caller packet relayer path call s =
     (if cl_eureka call then
        bindE (validate_bytes H InvalidSender UnableToValidateSender (cl_sender call)) (\<lambda>sender.
        Inr (z_respond [] [plain (ToModule sender (OnTimeoutPacket caller (call_packet H packet path call) relayer))], s))
      else Inr (z_respond [] [], s))"

text \<open>The loop over a batch; without an acknowledgement of the batch each member gets the empty one.\<close>

fun acknowledge_batch :: "(nat \<Rightarrow> instruction \<Rightarrow> bytes \<Rightarrow> zkgm_state \<Rightarrow> zkgm_result) \<Rightarrow> nat \<Rightarrow> instruction list \<Rightarrow> bytes list option
    \<Rightarrow> zkgm_state \<Rightarrow> zkgm_result" where
  "acknowledge_batch f k [] acks s = Inr (z_respond [] [], s)"
| "acknowledge_batch f k (i # is) acks s =
     bindE (case acks of None \<Rightarrow> Inr []
       | Some as \<Rightarrow> if k < length as then Inr (as ! k) else Inl (ZPanic ''index out of bounds'')) (\<lambda>ack.
     bindE (f k i ack s) (\<lambda>(r, s).
     bindE (acknowledge_batch f (Suc k) is acks s) (\<lambda>(r', s).
     Inr (z_append r r', s))))"

definition decode_if :: "bool \<Rightarrow> 'a option \<Rightarrow> zkgm_error + 'a option" where
  "decode_if b x = (if b then bindE (decode x) (\<lambda>a. Inr (Some a)) else Inr None)"

primrec acknowledge_internal :: "nat \<Rightarrow> 'z zkgm_host_scheme \<Rightarrow> addr \<Rightarrow> packet \<Rightarrow> addr \<Rightarrow> h256 \<Rightarrow> u256 \<Rightarrow> instruction \<Rightarrow> bool
    \<Rightarrow> bytes \<Rightarrow> zkgm_state \<Rightarrow> zkgm_result" where
  "acknowledge_internal 0 H caller packet relayer salt path i successful ack s = Inl ZOutOfFuel"
| "acknowledge_internal (Suc n) H caller packet relayer salt path i successful ack s =
     (if i_opcode i = OP_TOKEN_ORDER then
        (if i_version i = INSTR_VERSION_1 then
           bindE (decode (dec_order_v1 H (i_operand i))) (\<lambda>order.
           bindE (decode_if successful (dec_order_ack H ack)) (\<lambda>order_ack.
           acknowledge_token_order_v1 H packet path order order_ack s))
         else if i_version i = INSTR_VERSION_2 then
           bindE (decode (dec_order_v2 H (i_operand i))) (\<lambda>order.
           bindE (decode_if successful (dec_order_ack H ack)) (\<lambda>order_ack.
           acknowledge_token_order_v2 H packet path order order_ack s))
         else Inl (UnsupportedVersion (i_version i)))
      else if i_opcode i = OP_BATCH then
        bindE (only_version_0 i) (\<lambda>_.
        bindE (decode (dec_batch H (i_operand i))) (\<lambda>is.
        bindE (decode_if successful (dec_batch_ack H ack)) (\<lambda>acks.
        acknowledge_batch (\<lambda>k i ack s. acknowledge_internal n H caller packet relayer (derive_batch_salt H k salt) path i successful ack s)
          0 is acks s)))
      else if i_opcode i = OP_CALL then
        bindE (only_version_0 i) (\<lambda>_.
        bindE (decode (dec_call H (i_operand i))) (\<lambda>call.
        acknowledge_call H caller packet relayer path call successful ack s))
      else Inl (UnknownOpcode (i_opcode i)))"

primrec timeout_internal :: "nat \<Rightarrow> 'z zkgm_host_scheme \<Rightarrow> addr \<Rightarrow> packet \<Rightarrow> addr \<Rightarrow> h256 \<Rightarrow> u256 \<Rightarrow> instruction \<Rightarrow> zkgm_state \<Rightarrow> zkgm_result" where
  "timeout_internal 0 H caller packet relayer salt path i s = Inl ZOutOfFuel"
| "timeout_internal (Suc n) H caller packet relayer salt path i s =
     (if i_opcode i = OP_TOKEN_ORDER then
        (if i_version i = INSTR_VERSION_1 then
           bindE (decode (dec_order_v1 H (i_operand i))) (\<lambda>order. refund H path (source_channel_id packet) order s)
         else if i_version i = INSTR_VERSION_2 then
           bindE (decode (dec_order_v2 H (i_operand i))) (\<lambda>order. refund_v2 H path (source_channel_id packet) order s)
         else Inl (UnsupportedVersion (i_version i)))
      else if i_opcode i = OP_BATCH then
        bindE (only_version_0 i) (\<lambda>_.
        bindE (decode (dec_batch H (i_operand i))) (\<lambda>is.
        acknowledge_batch (\<lambda>k i _ s. timeout_internal n H caller packet relayer (derive_batch_salt H k salt) path i s) 0 is None s))
      else if i_opcode i = OP_CALL then
        bindE (only_version_0 i) (\<lambda>_.
        bindE (decode (dec_call H (i_operand i))) (\<lambda>call. timeout_call H caller packet relayer path call s))
      else Inl (UnknownOpcode (i_opcode i)))"

text \<open>The key of a sent packet in \<open>IN_FLIGHT_PACKET\<close>.\<close>

definition flight_key :: "'z crypto_scheme \<Rightarrow> packet \<Rightarrow> h256" where
  "flight_key H packet = path_key H (batch_packets_path H [packet])"

text \<open>Deep enough for what \<open>decode\<close> can nest in that many bytes.\<close>

definition nesting :: "zkgm_packet \<Rightarrow> nat" where
  "nesting z = 3 + length (i_operand (zp_instruction z))"

definition z_acknowledge_packet :: "'z zkgm_host_scheme \<Rightarrow> addr \<Rightarrow> packet \<Rightarrow> addr \<Rightarrow> bytes \<Rightarrow> zkgm_state \<Rightarrow> zkgm_result" where
  "z_acknowledge_packet H caller packet relayer ack s =
     bindE (decode (dec_packet H (packet_data packet))) (\<lambda>z.
     case (if is_forwarded_packet (zp_salt z) then in_flight_packet s (flight_key H packet) else None) of
       Some parent \<Rightarrow>
         bindE (zread (zk_config s)) (\<lambda>config.
         Inr (z_respond [] [plain (ToHost (zc_ibc_host config) (WriteAcknowledgement parent ack))],
              s\<lparr>in_flight_packet := (in_flight_packet s)(flight_key H packet := None)\<rparr>))
     | None \<Rightarrow>
         bindE (decode (dec_ack H ack)) (\<lambda>a.
         acknowledge_internal (nesting z) H caller packet relayer (zp_salt z) (zp_path z) (zp_instruction z)
           (ack_tag a = TAG_ACK_SUCCESS) (ack_inner a) s))"

definition z_timeout_packet :: "'z zkgm_host_scheme \<Rightarrow> addr \<Rightarrow> packet \<Rightarrow> addr \<Rightarrow> zkgm_state \<Rightarrow> zkgm_result" where
  "z_timeout_packet H caller packet relayer s =
     bindE (decode (dec_packet H (packet_data packet))) (\<lambda>z.
     case (if is_forwarded_packet (zp_salt z) then in_flight_packet s (flight_key H packet) else None) of
       Some parent \<Rightarrow>
         bindE (zread (zk_config s)) (\<lambda>config.
         Inr (z_respond [] [plain (ToHost (zc_ibc_host config) (WriteAcknowledgement parent
                (enc_ack H \<lparr>ack_tag = TAG_ACK_FAILURE, ack_inner = []\<rparr>)))],
              s\<lparr>in_flight_packet := (in_flight_packet s)(flight_key H packet := None)\<rparr>))
     | None \<Rightarrow> timeout_internal (nesting z) H caller packet relayer (zp_salt z) (zp_path z) (zp_instruction z) s)"

end
