(* ===== verification/Zkgm_Exec.thy ===== *)
theory Zkgm_Exec
  imports Zkgm_Order
begin

text \<open>
  The destination side of the zkgm application (\<open>contract.rs\<close>): what a received instruction does. A
  token order is filled by the protocol (it mints the wrapped token or releases escrowed tokens) or by a market
  maker, a call goes to a contract (through a proxy account that may have to be created), a forward sends the next packet, and a batch
  does its members in order. Every instruction asks the contract to write its acknowledgement to itself.
\<close>

type_synonym exec_result = "zkgm_error + zkgm_response \<times> purse \<times> zkgm_state"

text \<open>\<open>InternalWriteAck\<close>, as a message of the contract to itself.\<close>

definition write_ack :: "block_env \<Rightarrow> bytes \<Rightarrow> zkgm_sub_msg" where
  "write_ack env ack = plain (SelfWriteAck (contract_address env) ack)"

definition protocol_ack :: "'z zkgm_host_scheme \<Rightarrow> bytes" where
  "protocol_ack H = enc_order_ack H \<lparr>toa_fill_type = FILL_TYPE_PROTOCOL, toa_market_maker = []\<rparr>"

definition maker_ack :: "'z zkgm_host_scheme \<Rightarrow> bytes \<Rightarrow> bytes" where
  "maker_ack H maker = enc_order_ack H \<lparr>toa_fill_type = FILL_TYPE_MARKETMAKER, toa_market_maker = maker\<rparr>"

section \<open>Forwards\<close>

definition next_instruction :: "'z zkgm_host_scheme \<Rightarrow> u256 \<Rightarrow> forward \<Rightarrow> instruction" where
  "next_instruction H continuation fw =
     (if continuation = 0 then fw_instruction fw
      else \<lparr>i_version = INSTR_VERSION_0, i_opcode = OP_FORWARD,
            i_operand = enc_forward H \<lparr>fw_path = continuation, fw_timeout_height = 0,
              fw_timeout_timestamp = fw_timeout_timestamp fw, fw_instruction = fw_instruction fw\<rparr>\<rparr>)"

definition execute_forward :: "'z zkgm_host_scheme \<Rightarrow> block_env \<Rightarrow> packet \<Rightarrow> h256 \<Rightarrow> u256 \<Rightarrow> forward \<Rightarrow> bool \<Rightarrow> zkgm_state \<Rightarrow> zkgm_result" where
  "execute_forward H env packet salt path fw intent s =
     bindE (ensureE (is_allowed_forward_instruction (i_opcode (fw_instruction fw))) InvalidForwardInstruction) (\<lambda>_.
     if intent then Inr (z_respond [] [write_ack env ACK_ERR_ONLY_MAKER], s)
     else
       bindE (dequeue_channel_from_path (fw_path fw)) (\<lambda>(tail_path, d).
       bindE (ok_or (InvalidForwardDestinationChannelId None (destination_channel_id packet)) d) (\<lambda>previous_destination.
       bindE (dequeue_channel_from_path tail_path) (\<lambda>(continuation, n).
       bindE (ok_or MissingForwardSourceChannelId n) (\<lambda>next_source.
       bindE (ensureE (destination_channel_id packet = previous_destination)
                (InvalidForwardDestinationChannelId (Some previous_destination) (destination_channel_id packet))) (\<lambda>_.
       bindE (zread (zk_config s)) (\<lambda>config.
       bindE (update_channel_path path previous_destination) (\<lambda>p.
       bindE (update_channel_path p next_source) (\<lambda>next_path.
       Inr (z_respond []
         [(ToHost (zc_ibc_host config) (PacketSend next_source (fw_timeout_timestamp fw)
             (enc_packet H \<lparr>zp_salt = derive_forward_salt H salt, zp_path = next_path,
                            zp_instruction = next_instruction H continuation fw\<rparr>)),
           ReplyOnSuccess FORWARD_REPLY_ID),
          write_ack env []], s))))))))))"

section \<open>Calls\<close>

definition proxy_account_salt :: "'z zkgm_host_scheme \<Rightarrow> call_proxy_salt \<Rightarrow> h256" where
  "proxy_account_salt H cps = keccak256 H (enc_proxy_salt H cps)"

definition get_code_hash :: "'z zkgm_host_scheme \<Rightarrow> u64 \<Rightarrow> zkgm_error + h256" where
  "get_code_hash H code_id = map_err ZStd (q_code_hash H code_id)"

definition predict_call_proxy_account :: "'z zkgm_host_scheme \<Rightarrow> block_env \<Rightarrow> call_proxy_salt \<Rightarrow> zkgm_state \<Rightarrow> zkgm_error + addr" where
  "predict_call_proxy_account H env cps s =
     bindE (zread (zk_config s)) (\<lambda>config.
     bindE (get_code_hash H (zc_dummy_code_id config)) (\<lambda>code_hash.
     map_err ZStd (instantiate2 H code_hash (contract_address env) (h256_bytes (proxy_account_salt H cps)))))"

text \<open>The three messages that make a proxy account, with their event.\<close>

definition create_proxy :: "'z zkgm_host_scheme \<Rightarrow> block_env \<Rightarrow> zkgm_config \<Rightarrow> call_proxy_salt \<Rightarrow> addr \<Rightarrow> zkgm_response" where
  "create_proxy H env config cps predicted =
     z_respond [CreateProxyAccount (cps_path cps) (cps_channel_id cps) (cps_sender cps) predicted]
       [plain (InstantiateProxy (contract_address env) (zc_dummy_code_id config) cps (proxy_account_salt H cps)),
        plain (MigrateProxy predicted (zc_cw_account_code_id config) (contract_address env) (cps_path cps) (cps_channel_id cps) (cps_sender cps)),
        plain (UpdateProxyAdmin predicted predicted)]"

definition call_message :: "'z zkgm_host_scheme \<Rightarrow> block_env \<Rightarrow> addr \<Rightarrow> packet \<Rightarrow> addr \<Rightarrow> bytes \<Rightarrow> u256 \<Rightarrow> zcall \<Rightarrow> addr \<Rightarrow> bool \<Rightarrow> zkgm_response" where
  "call_message H env caller packet relayer relayer_msg path call target intent =
     (if cl_eureka call then
        z_respond []
          [(ToModule target
             ((if intent then OnIntentRecvPacket else OnRecvPacket) caller (call_packet H packet path call) relayer relayer_msg),
            ReplyOnSuccess CALL_REPLY_ID)]
      else
        z_respond []
          [plain (ToZkgmable target
             ((if intent then OnIntentZkgm else OnZkgm) caller path (source_channel_id packet) (destination_channel_id packet)
                (cl_sender call) (cl_contract_calldata call) relayer relayer_msg)),
           write_ack env (enc_u256 H TAG_ACK_SUCCESS)])"

definition execute_call :: "'z zkgm_host_scheme \<Rightarrow> block_env \<Rightarrow> addr \<Rightarrow> packet \<Rightarrow> addr \<Rightarrow> bytes \<Rightarrow> u256 \<Rightarrow> zcall \<Rightarrow> bool \<Rightarrow> zkgm_state \<Rightarrow> zkgm_result" where
  "execute_call H env caller packet relayer relayer_msg path call intent s =
     bindE (validate_bytes H InvalidContractAddress UnableToValidateCallTarget (cl_contract_address call)) (\<lambda>target.
     let cps = \<lparr>cps_path = path, cps_channel_id = destination_channel_id packet, cps_sender = cl_sender call\<rparr> in
     bindE (predict_call_proxy_account H env cps s) (\<lambda>predicted.
     bindE (if predicted = target \<and> \<not> z_contract_exists H target \<and> created_proxy_account s = None then
              bindE (zread (zk_config s)) (\<lambda>config.
              Inr (create_proxy H env config cps predicted, s\<lparr>created_proxy_account := Some cps\<rparr>))
            else Inr (z_respond [] [], s)) (\<lambda>(r, s).
     Inr (z_append r (call_message H env caller packet relayer relayer_msg path call target intent), s))))"

section \<open>Filling by a market maker\<close>

definition fill_messages :: "addr \<Rightarrow> addr \<Rightarrow> string \<Rightarrow> nat \<Rightarrow> addr \<Rightarrow> coins \<Rightarrow> zkgm_msg list" where
  "fill_messages caller minter quote_token amount receiver coins =
     (if amount > 0 then
        [ToMinter minter (Escrow caller quote_token minter amount) coins,
         ToMinter minter (Unescrow quote_token receiver amount) []]
      else [])"

definition market_maker_fill :: "block_env \<Rightarrow> addr \<Rightarrow> bytes \<Rightarrow> nat \<Rightarrow> string \<Rightarrow> addr \<Rightarrow> addr \<Rightarrow> purse \<Rightarrow> zkgm_state \<Rightarrow> exec_result" where
  "market_maker_fill env caller relayer_msg quote_amount quote_token minter receiver coins_left s =
     bindE (take_coin coins_left quote_token quote_amount) (\<lambda>(coins, coins_left).
     Inr (z_respond []
            [(SelfBatch (contract_address env) (fill_messages caller minter quote_token quote_amount receiver coins),
              ReplyAlways MM_RELAYER_FILL_REPLY_ID)],
          coins_left, s\<lparr>market_maker := Some relayer_msg\<rparr>))"

definition relayer_market_maker_fill_v2 :: "'z zkgm_host_scheme \<Rightarrow> block_env \<Rightarrow> addr \<Rightarrow> addr \<Rightarrow> order_v2 \<Rightarrow> purse \<Rightarrow> zkgm_state \<Rightarrow> exec_result" where
  "relayer_market_maker_fill_v2 H env caller minter order coins_left s =
     bindE (ok_or InvalidQuoteToken (from_utf8 (o2_quote_token order))) (\<lambda>quote_token.
     bindE (validate_bytes H InvalidReceiver UnableToValidateReceiver (o2_receiver order)) (\<lambda>receiver.
     bindE (to_u128 (o2_quote_amount order)) (\<lambda>quote_amount.
     bindE (take_coin coins_left quote_token quote_amount) (\<lambda>(coins, coins_left).
     Inr (z_respond []
            [(SelfBatch (contract_address env) (fill_messages caller minter quote_token quote_amount receiver coins),
              ReplyAlways MM_RELAYER_FILL_REPLY_ID)],
          coins_left, s)))))"

definition solver_market_maker_fill_v2 :: "'z zkgm_host_scheme \<Rightarrow> addr \<Rightarrow> addr \<Rightarrow> bytes \<Rightarrow> u256 \<Rightarrow> packet \<Rightarrow> order_v2 \<Rightarrow> bool \<Rightarrow> zkgm_error + zkgm_response" where
  "solver_market_maker_fill_v2 H caller relayer relayer_msg path packet order intent =
     bindE (decode (dec_solver H (o2_metadata order))) (\<lambda>solver_address.
     bindE (ok_or InvalidSolverAddress (from_utf8 solver_address)) (\<lambda>solver.
     Inr (z_respond [] [(ToSolver solver packet order path caller relayer relayer_msg intent, ReplyAlways MM_SOLVER_FILL_REPLY_ID)])))"

definition market_maker_fill_v2 :: "'z zkgm_host_scheme \<Rightarrow> block_env \<Rightarrow> addr \<Rightarrow> addr \<Rightarrow> bytes \<Rightarrow> addr \<Rightarrow> u256 \<Rightarrow> packet \<Rightarrow> order_v2 \<Rightarrow> bool
    \<Rightarrow> purse \<Rightarrow> zkgm_state \<Rightarrow> exec_result" where
  "market_maker_fill_v2 H env caller relayer relayer_msg minter path packet order intent coins_left s =
     (if o2_kind order = TOKEN_ORDER_KIND_SOLVE then
        bindE (solver_market_maker_fill_v2 H caller relayer relayer_msg path packet order intent) (\<lambda>r. Inr (r, coins_left, s))
      else relayer_market_maker_fill_v2 H env caller minter order coins_left (s\<lparr>market_maker := Some relayer_msg\<rparr>))"

section \<open>Token orders\<close>

text \<open>The messages for the receiver and for the relayer, neither of them for an amount of zero.\<close>

definition pay :: "(nat \<Rightarrow> addr \<Rightarrow> minter_msg) \<Rightarrow> addr \<Rightarrow> nat \<Rightarrow> addr \<Rightarrow> nat \<Rightarrow> addr \<Rightarrow> zkgm_sub_msg list" where
  "pay f minter quote_amount receiver fee relayer =
     (if quote_amount > 0 then [plain (ToMinter minter (f quote_amount receiver) [])] else []) @
     (if fee > 0 then [plain (ToMinter minter (f fee relayer) [])] else [])"

abbreviation mint_of :: "string \<Rightarrow> nat \<Rightarrow> addr \<Rightarrow> minter_msg" where
  "mint_of denom \<equiv> (\<lambda>amount to. MintTokens denom amount to)"

abbreviation unescrow_of :: "string \<Rightarrow> nat \<Rightarrow> addr \<Rightarrow> minter_msg" where
  "unescrow_of denom \<equiv> (\<lambda>amount to. Unescrow denom to amount)"

text \<open>The message that creates a wrapped token the first time, with what is remembered of the token.\<close>

definition deploy_v1 :: "addr \<Rightarrow> channel_id \<Rightarrow> u256 \<Rightarrow> string \<Rightarrow> order_v1 \<Rightarrow> zkgm_state \<Rightarrow> zkgm_error + (zkgm_sub_msg list \<times> zkgm_state)" where
  "deploy_v1 minter ch path wrapped order s =
     (if hash_to_foreign_token s wrapped = None then
        bindE (update_channel_path path ch) (\<lambda>origin.
        Inr ([plain (ToMinter minter (CreateDenom wrapped (o1_base_token_name order) (o1_base_token_symbol order)
                (o1_base_token_decimals order) path ch (o1_base_token order)) [])],
             s\<lparr>hash_to_foreign_token := (hash_to_foreign_token s)(wrapped \<mapsto> o1_base_token order),
               token_origin := (token_origin s)(wrapped \<mapsto> origin)\<rparr>))
      else Inr ([], s))"

definition execute_token_order_v1 :: "'z zkgm_host_scheme \<Rightarrow> block_env \<Rightarrow> addr \<Rightarrow> packet \<Rightarrow> addr \<Rightarrow> bytes \<Rightarrow> u256 \<Rightarrow> order_v1 \<Rightarrow> bool
    \<Rightarrow> purse \<Rightarrow> zkgm_state \<Rightarrow> exec_result" where
  "execute_token_order_v1 H env caller packet relayer relayer_msg path order intent coins_left s =
     bindE (zread (token_minter s)) (\<lambda>minter.
     bindE (ok_or InvalidQuoteToken (from_utf8 (o1_quote_token order))) (\<lambda>quote_token.
     bindE (validate_bytes H InvalidReceiver UnableToValidateReceiver (o1_receiver order)) (\<lambda>receiver.
     bindE (to_u128 (o1_base_amount order)) (\<lambda>base_amount.
     bindE (to_u128 (o1_quote_amount order)) (\<lambda>quote_amount.
     if intent then market_maker_fill env caller relayer_msg quote_amount quote_token minter receiver coins_left s
     else
       let base_covers_quote = quote_amount \<le> base_amount;
           fee_amount = base_amount - quote_amount in
       bindE (predict_wrapped_token H minter path (destination_channel_id packet) (o1_base_token order)) (\<lambda>wrapped.
       if quote_token = wrapped \<and> base_covers_quote then
         bindE (rate_limit wrapped quote_amount (now_secs env) s) (\<lambda>s.
         bindE (deploy_v1 minter (destination_channel_id packet) path wrapped order s) (\<lambda>(create, s).
         Inr (z_respond [] (create @ pay (mint_of wrapped) minter quote_amount receiver fee_amount relayer
                @ [write_ack env (protocol_ack H)]), coins_left, s)))
       else if o1_base_token_path order \<noteq> 0 \<and> base_covers_quote then
         bindE (rate_limit quote_token quote_amount (now_secs env) s) (\<lambda>s.
         bindE (reverse_channel_path path) (\<lambda>reversed.
         bindE (decrease_channel_balance_v2 (destination_channel_id packet) reversed quote_token (o1_base_token order) base_amount s) (\<lambda>s.
         Inr (z_respond [] (pay (unescrow_of quote_token) minter quote_amount receiver fee_amount relayer
                @ [write_ack env (protocol_ack H)]), coins_left, s))))
       else market_maker_fill env caller relayer_msg quote_amount quote_token minter receiver coins_left s))))))"

definition deploy_v2 :: "'z zkgm_host_scheme \<Rightarrow> addr \<Rightarrow> channel_id \<Rightarrow> u256 \<Rightarrow> bytes \<Rightarrow> string \<Rightarrow> token_metadata option \<Rightarrow> bool \<Rightarrow> zkgm_state
    \<Rightarrow> zkgm_error + (zkgm_sub_msg list \<times> zkgm_state)" where
  "deploy_v2 H minter ch path base_token wrapped metadata can_deploy s =
     (case metadata of
       Some m \<Rightarrow>
         if can_deploy \<and> hash_to_foreign_token s wrapped = None then
           bindE (update_channel_path path ch) (\<lambda>origin.
           Inr ([plain (ToMinter minter (CreateDenomV2 wrapped path ch base_token (tm_implementation m) (tm_initializer m)) [])],
                s\<lparr>hash_to_foreign_token := (hash_to_foreign_token s)(wrapped \<mapsto> base_token),
                  token_origin := (token_origin s)(wrapped \<mapsto> origin),
                  metadata_image_of := (metadata_image_of s)(wrapped \<mapsto> keccak256 H (enc_metadata H m))\<rparr>))
         else Inr ([], s)
     | None \<Rightarrow> Inr ([], s))"

definition protocol_fill_mint :: "'z zkgm_host_scheme \<Rightarrow> block_env \<Rightarrow> channel_id \<Rightarrow> u256 \<Rightarrow> bytes \<Rightarrow> string \<Rightarrow> addr \<Rightarrow> addr \<Rightarrow> uint256 \<Rightarrow> uint256
    \<Rightarrow> token_metadata option \<Rightarrow> bool \<Rightarrow> zkgm_state \<Rightarrow> zkgm_result" where
  "protocol_fill_mint H env ch path base_token wrapped receiver relayer base_amount quote_amount metadata can_deploy s =
     bindE (zread (token_minter s)) (\<lambda>minter.
     bindE (ok_or AmountOverflow (sub256 base_amount quote_amount)) (\<lambda>fee_amount.
     bindE (deploy_v2 H minter ch path base_token wrapped metadata can_deploy s) (\<lambda>(create, s).
     bindE (if quote_amount > 0 then to_u128 quote_amount else Inr 0) (\<lambda>quote_amount.
     bindE (if fee_amount > 0 then to_u128 fee_amount else Inr 0) (\<lambda>fee_amount.
     Inr (z_respond [] (create @ pay (mint_of wrapped) minter quote_amount receiver fee_amount relayer
            @ [write_ack env (protocol_ack H)]), s))))))"

definition protocol_fill_unescrow_v2 :: "'z zkgm_host_scheme \<Rightarrow> block_env \<Rightarrow> channel_id \<Rightarrow> u256 \<Rightarrow> bytes \<Rightarrow> string \<Rightarrow> addr \<Rightarrow> addr \<Rightarrow> uint256 \<Rightarrow> uint256
    \<Rightarrow> zkgm_state \<Rightarrow> zkgm_result" where
  "protocol_fill_unescrow_v2 H env ch path base_token quote_token receiver relayer base_amount quote_amount s =
     bindE (zread (token_minter s)) (\<lambda>minter.
     bindE (ok_or AmountOverflow (sub256 base_amount quote_amount)) (\<lambda>fee_amount.
     bindE (reverse_channel_path path) (\<lambda>reversed.
     bindE (decrease_channel_balance_v2 ch reversed quote_token base_token base_amount s) (\<lambda>s.
     bindE (if quote_amount > 0 then to_u128 quote_amount else Inr 0) (\<lambda>quote_amount.
     bindE (if fee_amount > 0 then to_u128 fee_amount else Inr 0) (\<lambda>fee_amount.
     Inr (z_respond [] (pay (unescrow_of quote_token) minter quote_amount receiver fee_amount relayer
            @ [write_ack env (protocol_ack H)]), s)))))))"

text \<open>The wrapped token that an order of kind escrow or initialize can be filled with.\<close>

definition wrapped_token_v2 :: "'z zkgm_host_scheme \<Rightarrow> addr \<Rightarrow> u256 \<Rightarrow> channel_id \<Rightarrow> order_v2 \<Rightarrow> string \<Rightarrow> token_metadata option \<Rightarrow> zkgm_state
    \<Rightarrow> zkgm_error + string option" where
  "wrapped_token_v2 H minter path ch order quote_token metadata s =
     (if o2_kind order = TOKEN_ORDER_KIND_ESCROW then
        (let img = (case metadata_image_of s quote_token of None \<Rightarrow> 0 | Some h \<Rightarrow> h) in
         bindE (if img = 0 then predict_wrapped_token H minter path ch (o2_base_token order)
                else predict_wrapped_token_from_metadata_image_v2 H minter path ch (o2_base_token order) img) (\<lambda>w. Inr (Some w)))
      else if o2_kind order = TOKEN_ORDER_KIND_INITIALIZE then
        (case metadata of
          Some m \<Rightarrow> bindE (predict_wrapped_token_v2 H minter path ch (o2_base_token order) m) (\<lambda>w.
            bindE (ensureE (quote_token = w) InvalidTokenOrderKind) (\<lambda>_. Inr (Some w)))
        | None \<Rightarrow> Inr None)
      else Inr None)"

definition execute_token_order_v2 :: "'z zkgm_host_scheme \<Rightarrow> block_env \<Rightarrow> addr \<Rightarrow> packet \<Rightarrow> addr \<Rightarrow> bytes \<Rightarrow> u256 \<Rightarrow> order_v2 \<Rightarrow> bool
    \<Rightarrow> purse \<Rightarrow> zkgm_state \<Rightarrow> exec_result" where
  "execute_token_order_v2 H env caller packet relayer relayer_msg path order intent coins_left s =
     bindE (ok_or InvalidQuoteToken (from_utf8 (o2_quote_token order))) (\<lambda>quote_token.
     bindE (validate_bytes H InvalidReceiver UnableToValidateReceiver (o2_receiver order)) (\<lambda>receiver.
     if intent \<or> o2_kind order = TOKEN_ORDER_KIND_SOLVE then
       bindE (zread (token_minter s)) (\<lambda>minter.
       market_maker_fill_v2 H env caller relayer relayer_msg minter path packet order intent coins_left s)
     else if o2_kind order = TOKEN_ORDER_KIND_UNESCROW \<and> o2_quote_amount order \<le> o2_base_amount order then
       bindE (to_u128 (o2_base_amount order)) (\<lambda>base_amount.
       bindE (to_u128 (o2_quote_amount order)) (\<lambda>quote_amount.
       bindE (rate_limit quote_token quote_amount (now_secs env) s) (\<lambda>s.
       bindE (protocol_fill_unescrow_v2 H env (destination_channel_id packet) path (o2_base_token order) quote_token receiver relayer
                base_amount quote_amount s) (\<lambda>(r, s).
       Inr (r, coins_left, s)))))
     else
       bindE (zread (token_minter s)) (\<lambda>minter.
       let metadata = dec_metadata H (o2_metadata order) in
       bindE (wrapped_token_v2 H minter path (destination_channel_id packet) order quote_token metadata s) (\<lambda>wrapped.
       if wrapped = Some quote_token \<and> o2_quote_amount order \<le> o2_base_amount order then
         bindE (to_u128 (o2_base_amount order)) (\<lambda>base_amount.
         bindE (to_u128 (o2_quote_amount order)) (\<lambda>quote_amount.
         bindE (rate_limit quote_token quote_amount (now_secs env) s) (\<lambda>s.
         bindE (protocol_fill_mint H env (destination_channel_id packet) path (o2_base_token order) quote_token receiver relayer
                  base_amount quote_amount metadata (o2_kind order = TOKEN_ORDER_KIND_INITIALIZE) s) (\<lambda>(r, s).
         Inr (r, coins_left, s)))))
       else market_maker_fill_v2 H env caller relayer relayer_msg minter path packet order intent coins_left s))))"

section \<open>Instructions\<close>

fun execute_batch :: "(nat \<Rightarrow> instruction \<Rightarrow> purse \<Rightarrow> zkgm_state \<Rightarrow> exec_result) \<Rightarrow> nat \<Rightarrow> instruction list \<Rightarrow> purse \<Rightarrow> zkgm_state \<Rightarrow> exec_result" where
  "execute_batch f k [] coins_left s = Inr (z_respond [] [], coins_left, s)"
| "execute_batch f k (i # is) coins_left s =
     bindE (ensureE (is_allowed_batch_instruction (i_opcode i)) InvalidBatchInstruction) (\<lambda>_.
     bindE (f k i coins_left s) (\<lambda>(r, coins_left, s).
     bindE (execute_batch f (Suc k) is coins_left s) (\<lambda>(r', coins_left, s).
     Inr (z_append r r', coins_left, s))))"

definition with_purse :: "purse \<Rightarrow> zkgm_result \<Rightarrow> exec_result" where
  "with_purse coins_left m = bindE m (\<lambda>(r, s). Inr (r, coins_left, s))"

primrec execute_internal :: "nat \<Rightarrow> 'z zkgm_host_scheme \<Rightarrow> block_env \<Rightarrow> addr \<Rightarrow> packet \<Rightarrow> addr \<Rightarrow> bytes \<Rightarrow> h256 \<Rightarrow> u256 \<Rightarrow> instruction \<Rightarrow> bool
    \<Rightarrow> purse \<Rightarrow> zkgm_state \<Rightarrow> exec_result" where
  "execute_internal 0 H env caller packet relayer relayer_msg salt path i intent coins_left s = Inl ZOutOfFuel"
| "execute_internal (Suc n) H env caller packet relayer relayer_msg salt path i intent coins_left s =
     (if i_opcode i = OP_TOKEN_ORDER then
        (if i_version i = INSTR_VERSION_1 then
           bindE (decode (dec_order_v1 H (i_operand i))) (\<lambda>order.
           execute_token_order_v1 H env caller packet relayer relayer_msg path order intent coins_left s)
         else if i_version i = INSTR_VERSION_2 then
           bindE (decode (dec_order_v2 H (i_operand i))) (\<lambda>order.
           execute_token_order_v2 H env caller packet relayer relayer_msg path order intent coins_left s)
         else Inl (UnsupportedVersion (i_version i)))
      else if i_opcode i = OP_BATCH then
        bindE (only_version_0 i) (\<lambda>_.
        bindE (decode (dec_batch H (i_operand i))) (\<lambda>is.
        execute_batch (\<lambda>k i. execute_internal n H env caller packet relayer relayer_msg (derive_batch_salt H k salt) path i intent)
          0 is coins_left (s\<lparr>executing_packet_is_batch := Some (length is)\<rparr>)))
      else if i_opcode i = OP_CALL then
        bindE (only_version_0 i) (\<lambda>_.
        bindE (decode (dec_call H (i_operand i))) (\<lambda>call.
        with_purse coins_left (execute_call H env caller packet relayer relayer_msg path call intent s)))
      else if i_opcode i = OP_FORWARD then
        bindE (only_version_0 i) (\<lambda>_.
        bindE (decode (dec_forward H (i_operand i))) (\<lambda>fw.
        with_purse coins_left (execute_forward H env packet salt path fw intent s)))
      else Inl (UnknownOpcode (i_opcode i)))"

definition execute_packet :: "'z zkgm_host_scheme \<Rightarrow> block_env \<Rightarrow> message_info \<Rightarrow> addr \<Rightarrow> packet \<Rightarrow> addr \<Rightarrow> bytes \<Rightarrow> bool \<Rightarrow> zkgm_state \<Rightarrow> zkgm_result" where
  "execute_packet H env info caller packet relayer relayer_msg intent s =
     bindE (zexpect ''impossible'' (coins_try_from (funds info))) (\<lambda>coins_left.
     bindE (decode (dec_packet H (packet_data packet))) (\<lambda>z.
     bindE (execute_internal 2 H env caller packet relayer relayer_msg (zp_salt z) (zp_path z) (zp_instruction z) intent coins_left s)
       (\<lambda>(r, _, s).
     Inr (r, s\<lparr>created_proxy_account := None\<rparr>))))"

end
