(* ===== verification/Zkgm_Contract.thy ===== *)
theory Zkgm_Contract
  imports Zkgm_Exec
begin

text \<open>
  The entry points of the zkgm application (\<open>contract.rs\<close>): \<open>execute\<close> with the callbacks of the IBC host,
  the messages of the contract to itself, sends and the restricted messages; \<open>reply\<close>, \<open>init\<close>, \<open>migrate\<close> and
  \<open>query\<close>; and the pause of \<open>cosmwasm/pausable\<close>.
\<close>

section \<open>Pausing\<close>

definition is_paused :: "zkgm_state \<Rightarrow> bool" where
  "is_paused s = zk_paused s"

definition require_not_paused :: "zkgm_state \<Rightarrow> zkgm_error + unit" where
  "require_not_paused s = ensureE (\<not> is_paused s) EnforcedPause"

definition require_paused :: "zkgm_state \<Rightarrow> zkgm_error + unit" where
  "require_paused s = ensureE (is_paused s) ExpectedPause"

definition pause :: "message_info \<Rightarrow> zkgm_state \<Rightarrow> zkgm_result" where
  "pause info s =
     bindE (require_not_paused s) (\<lambda>_. Inr (z_respond [PausedEv (sender info)] [], s\<lparr>zk_paused := True\<rparr>))"

definition unpause :: "message_info \<Rightarrow> zkgm_state \<Rightarrow> zkgm_result" where
  "unpause info s =
     bindE (require_paused s) (\<lambda>_. Inr (z_respond [UnpausedEv (sender info)] [], s\<lparr>zk_paused := False\<rparr>))"

section \<open>Restricted messages\<close>

fun z_selector :: "zkgm_restricted \<Rightarrow> string" where
  "z_selector (MigrateV1ToV2 _ _) = ''migrate_v1_to_v2''"
| "z_selector (SetBucketConfig _ _ _ _) = ''set_bucket_config''"
| "z_selector (MigrateMinter _ _) = ''migrate_minter''"
| "z_selector (SetRateLimitDisabled _) = ''set_rate_limit_disabled''"
| "z_selector (UpdateDummyCodeId _) = ''update_dummy_code_id''"
| "z_selector (UpdateCwAccountCodeId _) = ''update_cw_account_code_id''"
| "z_selector Pause = ''pause''"
| "z_selector Unpause = ''unpause''"
| "z_selector (ZUpgradable _) = ''upgrade''"

definition Z_CONSUME_REPLY_ID :: u64 where
  "Z_CONSUME_REPLY_ID = - 1"

definition zam_read :: "'v option \<Rightarrow> zkgm_error + 'v" where
  "zam_read v = ok_or (ZAccessManaged (AccessManagedStd (GenericErr ''key not present''))) v"

definition z_ensure_can_call :: "'z zkgm_host_scheme \<Rightarrow> block_env \<Rightarrow> message_info \<Rightarrow> zkgm_restricted \<Rightarrow> zkgm_state
    \<Rightarrow> zkgm_error + (zkgm_sub_msg list option \<times> zkgm_state)" where
  "z_ensure_can_call H env info msg s =
     bindE (zam_read (zk_authority s)) (\<lambda>auth.
     bindE (map_err (\<lambda>e. ZAccessManaged (AccessManagedStd e))
              (zq_can_call H auth (z_selector msg) (contract_address env) (sender info))) (\<lambda>can.
     case can of
       Immediate \<Rightarrow> Inr (None, s)
     | NotAuthorized \<Rightarrow> Inl (ZAccessManaged (AccessManagedUnauthorized (sender info)))
     | WithDelay _ \<Rightarrow>
         Inr (Some [plain (ConsumeScheduled auth (sender info) msg),
                (SelfRestricted (contract_address env) msg, ReplyOnSuccess Z_CONSUME_REPLY_ID)],
              s\<lparr>zk_consuming_schedule := Some True\<rparr>)))"

definition z_set_authority :: "'z zkgm_host_scheme \<Rightarrow> message_info \<Rightarrow> addr \<Rightarrow> zkgm_state \<Rightarrow> zkgm_result" where
  "z_set_authority H info new_authority s =
     bindE (zam_read (zk_authority s)) (\<lambda>auth.
     bindE (ensureE (sender info = auth) (ZAccessManaged (AccessManagedUnauthorized (sender info)))) (\<lambda>_.
     if z_contract_exists H new_authority
     then Inr (z_respond [ZAuthorityUpdated new_authority] [], s\<lparr>zk_authority := Some new_authority\<rparr>)
     else Inl (ZAccessManaged (AccessManagedInvalidAuthority new_authority))))"

fun migrate_balances :: "(u256 \<times> channel_id \<times> string \<times> bytes) list \<Rightarrow> zkgm_state \<Rightarrow> zkgm_error + zkgm_state" where
  "migrate_balances [] s = Inr s"
| "migrate_balances ((path, ch, base_token, quote_token) # ms) s =
     (let key = (ch, path, base_token) in
      case deprecated_channel_balance_v1 s key of
        Some balance \<Rightarrow>
          if balance = 0 then Inl (ZStd (GenericErr ''balance is zero for migration''))
          else
            bindE (increase_channel_balance_v2 ch path base_token quote_token balance s) (\<lambda>s.
            migrate_balances ms (s\<lparr>deprecated_channel_balance_v1 := (deprecated_channel_balance_v1 s)(key := None)\<rparr>))
      | None \<Rightarrow> Inl (ZStd (GenericErr ''no balance found for migration'')))"

definition migrate_v1_to_v2 :: "(u256 \<times> channel_id \<times> string \<times> bytes) list \<Rightarrow> (u256 \<times> channel_id \<times> bytes \<times> string) list \<Rightarrow> zkgm_state \<Rightarrow> zkgm_result" where
  "migrate_v1_to_v2 balance_migrations wrapped_migrations s =
     bindE (migrate_balances balance_migrations s) (\<lambda>s.
     Inr (z_respond (V1ToV2MigrationEv #
            map (\<lambda>(path, ch, base_token, quote_token). CreateWrappedTokenEv path ch base_token quote_token) wrapped_migrations) [], s))"

definition set_bucket_config :: "block_env \<Rightarrow> string \<Rightarrow> uint256 \<Rightarrow> uint256 \<Rightarrow> bool \<Rightarrow> zkgm_state \<Rightarrow> zkgm_result" where
  "set_bucket_config env denom cap rate reset s =
     bindE (map_err TokenBucketErr (case token_bucket_of s denom of
         Some b \<Rightarrow> bucket_update b cap rate reset
       | None \<Rightarrow> bucket_new cap rate (now_secs env))) (\<lambda>b.
     Inr (z_respond [TokenBucketUpdate denom (capacity b) (refill_rate b)] [],
          s\<lparr>token_bucket_of := (token_bucket_of s)(denom \<mapsto> b)\<rparr>))"

definition update_zconfig :: "(zkgm_config \<Rightarrow> zkgm_config) \<Rightarrow> zkgm_state \<Rightarrow> zkgm_result" where
  "update_zconfig f s =
     bindE (zread (zk_config s)) (\<lambda>config. Inr (z_respond [] [], s\<lparr>zk_config := Some (f config)\<rparr>))"

fun execute_zrestricted :: "block_env \<Rightarrow> message_info \<Rightarrow> zkgm_restricted \<Rightarrow> zkgm_state \<Rightarrow> zkgm_result" where
  "execute_zrestricted env info (SetBucketConfig denom cap rate reset) s = set_bucket_config env denom cap rate reset s"
| "execute_zrestricted env info (MigrateV1ToV2 balances wrapped) s = migrate_v1_to_v2 balances wrapped s"
| "execute_zrestricted env info (MigrateMinter new_code_id msg) s =
     bindE (zread (token_minter s)) (\<lambda>minter. Inr (z_respond [] [plain (MigrateWasm minter new_code_id msg)], s))"
| "execute_zrestricted env info (SetRateLimitDisabled b) s = update_zconfig (\<lambda>c. c\<lparr>zc_rate_limit_disabled := b\<rparr>) s"
| "execute_zrestricted env info (UpdateDummyCodeId i) s = update_zconfig (\<lambda>c. c\<lparr>zc_dummy_code_id := i\<rparr>) s"
| "execute_zrestricted env info (UpdateCwAccountCodeId i) s = update_zconfig (\<lambda>c. c\<lparr>zc_cw_account_code_id := i\<rparr>) s"
| "execute_zrestricted env info (ZUpgradable (Upgrade new_code_id msg)) s =
     Inr (z_respond [ZUpgrade new_code_id msg] [plain (UpgradeSelf (contract_address env) new_code_id msg)], s)"
| "execute_zrestricted env info Pause s = pause info s"
| "execute_zrestricted env info Unpause s = unpause info s"

section \<open>Callbacks of the IBC host\<close>

definition enforce_version :: "string \<Rightarrow> string option \<Rightarrow> zkgm_error + unit" where
  "enforce_version version counterparty_version =
     bindE (ensureE (version = PROTOCOL_VERSION) (InvalidIbcVersion version)) (\<lambda>_.
     case counterparty_version of
       Some v \<Rightarrow> ensureE (v = PROTOCOL_VERSION) (InvalidIbcVersion v)
     | None \<Rightarrow> Inr ())"

definition dispatch_execute_packet :: "'z zkgm_host_scheme \<Rightarrow> block_env \<Rightarrow> message_info \<Rightarrow> addr \<Rightarrow> packet \<Rightarrow> addr \<Rightarrow> bytes \<Rightarrow> bool \<Rightarrow> zkgm_state \<Rightarrow> zkgm_result" where
  "dispatch_execute_packet H env info caller packet relayer relayer_msg intent s =
     bindE (z_validate H caller) (\<lambda>caller.
     bindE (z_validate H relayer) (\<lambda>relayer.
     bindE (ensureE (executing_packet s = None) AlreadyExecuting) (\<lambda>_.
     Inr (z_respond []
            [(SelfExecutePacket (contract_address env) caller packet relayer relayer_msg intent (funds info),
              ReplyAlways EXECUTE_PACKET_REPLY_ID)],
          s\<lparr>executing_packet := Some packet\<rparr>))))"

fun execute_ibc :: "'z zkgm_host_scheme \<Rightarrow> block_env \<Rightarrow> message_info \<Rightarrow> ibc_union_msg \<Rightarrow> zkgm_state \<Rightarrow> zkgm_result" where
  "execute_ibc H env info (OnChannelOpenInit _ _ _ version _) s =
     bindE (enforce_version version None) (\<lambda>_. Inr (z_respond [] [], s))"
| "execute_ibc H env info (OnChannelOpenTry _ _ _ version counterparty_version _) s =
     bindE (enforce_version version (Some counterparty_version)) (\<lambda>_. Inr (z_respond [] [], s))"
| "execute_ibc H env info (OnChannelOpenAck _ _ _ _ _) s = Inr (z_respond [] [], s)"
| "execute_ibc H env info (OnChannelOpenConfirm _ _ _) s = Inr (z_respond [] [], s)"
| "execute_ibc H env info (OnRecvPacket caller packet relayer relayer_msg) s =
     dispatch_execute_packet H env info caller packet relayer relayer_msg False s"
| "execute_ibc H env info (OnIntentRecvPacket caller packet maker maker_msg) s =
     dispatch_execute_packet H env info caller packet maker maker_msg True s"
| "execute_ibc H env info (OnAcknowledgementPacket caller packet ack relayer) s =
     bindE (z_validate H caller) (\<lambda>caller.
     bindE (z_validate H relayer) (\<lambda>relayer.
     z_acknowledge_packet H caller packet relayer ack s))"
| "execute_ibc H env info (OnTimeoutPacket caller packet relayer) s =
     bindE (z_validate H caller) (\<lambda>caller.
     bindE (z_validate H relayer) (\<lambda>relayer.
     z_timeout_packet H caller packet relayer s))"
| "execute_ibc H env info (OnChannelCloseInit _ _ _) s = Inl (ZStd (GenericErr ''the show must go on''))"
| "execute_ibc H env info (OnChannelCloseConfirm _ _ _) s = Inl (ZStd (GenericErr ''the show must go on''))"

definition internal_write_ack :: "bytes \<Rightarrow> zkgm_state \<Rightarrow> zkgm_state" where
  "internal_write_ack ack s =
     (if executing_packet_is_batch s \<noteq> None then
        s\<lparr>batch_execution_acks := Some (case batch_execution_acks s of Some acks \<Rightarrow> acks @ [ack] | None \<Rightarrow> [ack])\<rparr>
      else s\<lparr>execution_ack := Some ack\<rparr>)"

definition only_self :: "block_env \<Rightarrow> message_info \<Rightarrow> zkgm_error + unit" where
  "only_self env info = ensureE (sender info = contract_address env) OnlySelf"

fun zkgm_execute :: "'z zkgm_host_scheme \<Rightarrow> block_env \<Rightarrow> message_info \<Rightarrow> zkgm_execute_msg \<Rightarrow> zkgm_state \<Rightarrow> zkgm_result" where
  "zkgm_execute H env info (IbcUnion msg) s =
     bindE (zread (zk_config s)) (\<lambda>config.
     bindE (ensureE (sender info = zc_ibc_host config) OnlyIbcHost) (\<lambda>_.
     bindE (require_not_paused s) (\<lambda>_. execute_ibc H env info msg s)))"
| "zkgm_execute H env info (InternalBatch messages) s =
     bindE (only_self env info) (\<lambda>_. Inr (z_respond [] (map plain messages), s))"
| "zkgm_execute H env info (InternalExecutePacket caller packet relayer relayer_msg intent) s =
     bindE (only_self env info) (\<lambda>_. execute_packet H env info caller packet relayer relayer_msg intent s)"
| "zkgm_execute H env info (InternalWriteAck ack) s =
     bindE (only_self env info) (\<lambda>_. Inr (z_respond [] [], internal_write_ack ack s))"
| "zkgm_execute H env info (Send ch timeout salt i) s =
     bindE (require_not_paused s) (\<lambda>_.
     bindE (decode (dec_instruction H i)) (\<lambda>i.
     send H info ch timeout salt i s))"
| "zkgm_execute H env info (ZSetAuthority a) s = z_set_authority H info a s"
| "zkgm_execute H env info (ZRestricted msg) s =
     bindE (z_ensure_can_call H env info msg s) (\<lambda>(scheduled, s).
     case scheduled of
       None \<Rightarrow> execute_zrestricted env info msg s
     | Some subs \<Rightarrow> Inr (z_respond [] subs, s))"

section \<open>Replies\<close>

text \<open>The acknowledgement that the execution of a packet left behind.\<close>

definition take_execution_ack :: "'z zkgm_host_scheme \<Rightarrow> zkgm_state \<Rightarrow> zkgm_error + (bytes \<times> zkgm_state)" where
  "take_execution_ack H s =
     (case executing_packet_is_batch s of
       Some expected \<Rightarrow>
         bindE (zread (batch_execution_acks s)) (\<lambda>acks.
         bindE (ensureE (length acks = expected) BatchMustBeSync) (\<lambda>_.
         case filter (\<lambda>ack. ack = [] \<or> ack = ACK_ERR_ONLY_MAKER) acks of
           [] \<Rightarrow> Inr (enc_batch_ack H acks, s\<lparr>executing_packet_is_batch := None, batch_execution_acks := None\<rparr>)
         | ack # _ \<Rightarrow> Inl (if ack = [] then BatchMustBeSync else OnlyMaker)))
     | None \<Rightarrow>
         bindE (zread (execution_ack s)) (\<lambda>ack.
         bindE (ensureE (ack \<noteq> ACK_ERR_ONLY_MAKER) OnlyMaker) (\<lambda>_.
         Inr (ack, s\<lparr>execution_ack := None\<rparr>))))"

definition execute_packet_reply :: "'z zkgm_host_scheme \<Rightarrow> sub_result \<Rightarrow> zkgm_state \<Rightarrow> zkgm_result" where
  "execute_packet_reply H result s =
     bindE (zread (zk_config s)) (\<lambda>config.
     bindE (zread (executing_packet s)) (\<lambda>packet.
     let s = s\<lparr>executing_packet := None\<rparr> in
     case result of
       SubOk _ _ \<Rightarrow>
         bindE (take_execution_ack H s) (\<lambda>(ack, s).
         Inr (z_respond []
           (if ack \<noteq> [] then [plain (ToHost (zc_ibc_host config) (WriteAcknowledgement packet
                  (enc_ack H \<lparr>ack_tag = TAG_ACK_SUCCESS, ack_inner = ack\<rparr>)))] else []), s))
     | SubErr e \<Rightarrow>
         Inr (z_respond [FatalError e] [plain (ToHost (zc_ibc_host config) (WriteAcknowledgement packet
                (enc_ack H \<lparr>ack_tag = TAG_ACK_FAILURE, ack_inner = []\<rparr>)))], s)))"

definition forward_reply :: "'z zkgm_host_scheme \<Rightarrow> sub_result \<Rightarrow> zkgm_state \<Rightarrow> zkgm_result" where
  "forward_reply H result s =
     (case result of
       SubOk data _ \<Rightarrow>
         let data = (case data of Some d \<Rightarrow> d | None \<Rightarrow> []) in
         bindE (ok_or (CouldNotDeserializeSentPacket data) (json_packet H data)) (\<lambda>sent_packet.
         Inr (z_respond [] [], s\<lparr>in_flight_packet := (in_flight_packet s)(flight_key H sent_packet \<mapsto> sent_packet)\<rparr>))
     | SubErr _ \<Rightarrow> Inl ForwardedPacketMissingInReply)"

definition call_reply :: "block_env \<Rightarrow> sub_result \<Rightarrow> zkgm_state \<Rightarrow> zkgm_result" where
  "call_reply env result s =
     (case result of
       SubOk data _ \<Rightarrow>
         let ack = (case data of Some d \<Rightarrow> d | None \<Rightarrow> []) in
         bindE (ensureE (ack \<noteq> []) AsyncCallUnsupported) (\<lambda>_. Inr (z_respond [] [write_ack env ack], s))
     | SubErr e \<Rightarrow> Inl (CallError e))"

definition maker_reply :: "'z zkgm_host_scheme \<Rightarrow> block_env \<Rightarrow> sub_result \<Rightarrow> zkgm_state \<Rightarrow> zkgm_result" where
  "maker_reply H env result s =
     bindE (zread (market_maker s)) (\<lambda>maker.
     let s = s\<lparr>market_maker := None\<rparr> in
     case result of
       SubOk _ _ \<Rightarrow> Inr (z_respond [] [write_ack env (maker_ack H maker)], s)
     | SubErr e \<Rightarrow> Inr (z_respond [MakerExecutionFailure e] [write_ack env ACK_ERR_ONLY_MAKER], s))"

fun find_map :: "('a \<Rightarrow> 'b option) \<Rightarrow> 'a list \<Rightarrow> 'b option" where
  "find_map f [] = None"
| "find_map f (x # xs) = (case f x of Some y \<Rightarrow> Some y | None \<Rightarrow> find_map f xs)"

definition extract_market_maker :: "'z zkgm_host_scheme \<Rightarrow> (string \<times> (string \<times> string) list) list \<Rightarrow> bytes option" where
  "extract_market_maker H events =
     find_map (\<lambda>(ty, attributes).
       if ty = ''wasm-solver'' then Option.bind (map_of attributes ''market_maker'') (bytes_from_str H) else None) events"

definition solver_reply :: "'z zkgm_host_scheme \<Rightarrow> block_env \<Rightarrow> sub_result \<Rightarrow> zkgm_state \<Rightarrow> zkgm_result" where
  "solver_reply H env result s =
     (case result of
       SubOk _ events \<Rightarrow>
         (case extract_market_maker H events of
           Some maker \<Rightarrow> Inr (z_respond [] [write_ack env (maker_ack H maker)], s)
         | None \<Rightarrow> Inr (z_respond [] [write_ack env ACK_ERR_ONLY_MAKER], s))
     | SubErr e \<Rightarrow> Inr (z_respond [MakerExecutionFailure e] [write_ack env ACK_ERR_ONLY_MAKER], s))"

definition zkgm_reply :: "'z zkgm_host_scheme \<Rightarrow> block_env \<Rightarrow> u64 \<Rightarrow> sub_result \<Rightarrow> zkgm_state \<Rightarrow> zkgm_result" where
  "zkgm_reply H env reply_id result s =
     (if reply_id = Z_CONSUME_REPLY_ID then
        (case result of
          SubErr e \<Rightarrow> Inl (ZPanic e)
        | SubOk _ _ \<Rightarrow>
            if zk_consuming_schedule s = Some True
            then Inr (z_respond [] [], s\<lparr>zk_consuming_schedule := Some False\<rparr>)
            else Inl (ZPanic ''invariant: attempted to handle consume scheduled op reply while not consuming schedule''))
      else if reply_id = EXECUTE_PACKET_REPLY_ID then execute_packet_reply H result s
      else if reply_id = FORWARD_REPLY_ID then forward_reply H result s
      else if reply_id = CALL_REPLY_ID then call_reply env result s
      else if reply_id = MM_RELAYER_FILL_REPLY_ID then maker_reply H env result s
      else if reply_id = MM_SOLVER_FILL_REPLY_ID then solver_reply H env result s
      else Inl (UnknownReply reply_id))"

section \<open>Initialisation and migration\<close>

record zkgm_init_msg =
  zi_config :: zkgm_config
  zi_minter :: minter_init
  zi_authority :: addr

definition minter_salt :: string where
  "minter_salt = PROTOCOL_VERSION @ ''/'' @ ZKGM_TOKEN_MINTER_LABEL"

definition zkgm_instantiate :: "zkgm_state \<Rightarrow> zkgm_result" where
  "zkgm_instantiate s = Inl (ZPanic ''this contract cannot be instantiated directly, but must be migrated from an existing instantiated contract.'')"

definition zkgm_init :: "'z zkgm_host_scheme \<Rightarrow> block_env \<Rightarrow> zkgm_init_msg \<Rightarrow> zkgm_state \<Rightarrow> zkgm_result" where
  "zkgm_init H env m s =
     bindE (get_code_hash H (zc_token_minter_code_id (zi_config m))) (\<lambda>code_hash.
     bindE (map_err ZStd (instantiate2 H code_hash (contract_address env) (str_bytes minter_salt))) (\<lambda>minter.
     Inr (z_respond [] [plain (InstantiateMinter (contract_address env) (zc_token_minter_code_id (zi_config m)) (zi_minter m)
                          (zc_admin (zi_config m)) minter_salt)],
          s\<lparr>zk_authority := Some (zi_authority m), zk_consuming_schedule := Some False, zk_config := Some (zi_config m),
            token_minter := Some minter\<rparr>)))"

definition ZKGM_VERSION_INIT :: u32 where "ZKGM_VERSION_INIT = 1"
definition ZKGM_VERSION_MANAGED :: u32 where "ZKGM_VERSION_MANAGED = 2"

definition put_zkgm_version :: "u32 \<Rightarrow> zkgm_state \<Rightarrow> zkgm_state" where
  "put_zkgm_version v s = s\<lparr>zk_version := Some v\<rparr>"

definition zkgm_init_run :: "'z zkgm_host_scheme \<Rightarrow> block_env \<Rightarrow> zkgm_init_msg \<Rightarrow> zkgm_state \<Rightarrow> zkgm_error + ((zkgm_response \<times> u32 option) \<times> zkgm_state)" where
  "zkgm_init_run H env m s = bindE (zkgm_init H env m s) (\<lambda>(r, s). Inr ((r, Some ZKGM_VERSION_MANAGED), s))"

definition zkgm_migrate_run :: "u32 \<Rightarrow> zkgm_state \<Rightarrow> zkgm_error + ((zkgm_response \<times> u32 option) \<times> zkgm_state)" where
  "zkgm_migrate_run v s =
     (if v = ZKGM_VERSION_INIT then Inl (ZStd (GenericErr ''unsupported version: INIT''))
      else if v = ZKGM_VERSION_MANAGED then Inr ((z_respond [] [], None), s)
      else Inl (ZMigrate (UnknownStateVersion v)))"

definition zkgm_migrate :: "'z zkgm_host_scheme \<Rightarrow> block_env \<Rightarrow> zkgm_init_msg upgrade_msg \<Rightarrow> zkgm_state \<Rightarrow> zkgm_result" where
  "zkgm_migrate H env msg s =
     upgrade_run ZMigrate zk_version put_zkgm_version msg (zkgm_init_run H env) zkgm_migrate_run s"

interpretation zkgm: versioned ZMigrate zk_version put_zkgm_version "zkgm_init_run H env" zkgm_migrate_run for H env
  by unfold_locales (simp add: put_zkgm_version_def)

section \<open>Queries\<close>

datatype zkgm_query_msg =
    ZQPredictWrappedToken string channel_id bytes
  | ZQPredictWrappedTokenV2 string channel_id bytes h256
  | ZQGetMinter
  | ZQGetTokenBucket string
  | ZQGetChannelBalance channel_id u256 string
  | ZQGetChannelBalanceV2 channel_id u256 string bytes
  | ZQGetConfig
  | ZQGetBurnAddress
  | ZQAuthority
  | ZQIsConsumingScheduledOp
  | ZQPaused

datatype zkgm_answer =
    ZAWrappedToken string
  | ZAAddr addr
  | ZABucket token_bucket
  | ZABalance uint256
  | ZAConfig zkgm_config
  | ZASelector string
  | ZABool bool

definition hex_digit :: "nat \<Rightarrow> char" where
  "hex_digit n = ''0123456789abcdef'' ! (n mod 16)"

definition hex_str :: "bytes \<Rightarrow> string" where
  "hex_str bs = ''0x'' @ concat (map (\<lambda>b. [hex_digit (unat b div 16), hex_digit (unat b)]) bs)"

fun zkgm_query :: "'z zkgm_host_scheme \<Rightarrow> zkgm_query_msg \<Rightarrow> zkgm_state \<Rightarrow> zkgm_error + zkgm_answer" where
  "zkgm_query H (ZQPredictWrappedToken path ch token) s =
     bindE (zread (token_minter s)) (\<lambda>minter.
     bindE (ok_or InvalidPath (parse_u256 H path)) (\<lambda>path.
     bindE (predict_wrapped_token H minter path ch token) (\<lambda>w. Inr (ZAWrappedToken (hex_str (str_bytes w))))))"
| "zkgm_query H (ZQPredictWrappedTokenV2 path ch token img) s =
     bindE (zread (token_minter s)) (\<lambda>minter.
     bindE (ok_or InvalidPath (parse_u256 H path)) (\<lambda>path.
     bindE (predict_wrapped_token_from_metadata_image_v2 H minter path ch token img) (\<lambda>w. Inr (ZAWrappedToken w))))"
| "zkgm_query H ZQGetMinter s = bindE (zread (token_minter s)) (\<lambda>a. Inr (ZAAddr a))"
| "zkgm_query H (ZQGetTokenBucket denom) s = bindE (zread (token_bucket_of s denom)) (\<lambda>b. Inr (ZABucket b))"
| "zkgm_query H (ZQGetChannelBalance ch path denom) s =
     bindE (zread (deprecated_channel_balance_v1 s (ch, path, denom))) (\<lambda>b. Inr (ZABalance b))"
| "zkgm_query H (ZQGetChannelBalanceV2 ch path base_token quote_token) s =
     bindE (zread (channel_balance_v2 s (ch, path, base_token, quote_token))) (\<lambda>b. Inr (ZABalance b))"
| "zkgm_query H ZQGetConfig s = bindE (zread (zk_config s)) (\<lambda>c. Inr (ZAConfig c))"
| "zkgm_query H ZQGetBurnAddress s = bindE (get_burn_address H) (\<lambda>a. Inr (ZAAddr a))"
| "zkgm_query H ZQAuthority s = bindE (zam_read (zk_authority s)) (\<lambda>a. Inr (ZAAddr a))"
| "zkgm_query H ZQIsConsumingScheduledOp s =
     bindE (zam_read (zk_consuming_schedule s)) (\<lambda>b. Inr (ZASelector (if b then ''is_consuming_scheduled_op'' else [])))"
| "zkgm_query H ZQPaused s = Inr (ZABool (is_paused s))"

end
