(* ===== verification/Zkgm_Run.thy ===== *)
theory Zkgm_Run
  imports Zkgm_Contract
begin

text \<open>
  A whole transaction of the zkgm application: CosmWasm runs the messages of a response depth first, each
  with its own messages, undoes a message that fails, and calls \<open>reply\<close> where the message asked for it. The messages of
  the contract to itself go back into \<open>execute\<close>; what other contracts do is the record \<open>world\<close>: the result
  of a call, the messages that calls back into this contract sent meanwhile, and the state they left. A run gives the
  messages that were accepted, in order. The number is the depth of the calls; \<open>run_depth_enough\<close> shows that three
  is enough for every callback of the host and every send.
\<close>

record world =
  w_call :: "zkgm_msg \<Rightarrow> zkgm_state \<Rightarrow> sub_result \<times> zkgm_msg list \<times> zkgm_state"
  w_text :: "zkgm_error \<Rightarrow> string"

datatype run_error = RunErr string | RunOutOfFuel

type_synonym run_result = "run_error + zkgm_msg list \<times> zkgm_state"

text \<open>The message of the contract to itself as a call of \<open>execute\<close>.\<close>

fun self_call :: "zkgm_msg \<Rightarrow> (zkgm_execute_msg \<times> coins) option" where
  "self_call (SelfExecutePacket _ caller packet relayer relayer_msg intent fs) =
     Some (InternalExecutePacket caller packet relayer relayer_msg intent, fs)"
| "self_call (SelfWriteAck _ ack) = Some (InternalWriteAck ack, [])"
| "self_call (SelfBatch _ ms) = Some (InternalBatch ms, [])"
| "self_call (SelfRestricted _ m) = Some (ZRestricted m, [])"
| "self_call _ = None"

definition as_run :: "world \<Rightarrow> zkgm_error + 'a \<Rightarrow> run_error + 'a" where
  "as_run W m = map_err (\<lambda>e. RunErr (w_text W e)) m"

fun run_subs :: "(zkgm_sub_msg \<Rightarrow> zkgm_state \<Rightarrow> run_result) \<Rightarrow> zkgm_sub_msg list \<Rightarrow> zkgm_state \<Rightarrow> run_result" where
  "run_subs f [] s = Inr ([], s)"
| "run_subs f (m # ms) s =
     bindE (f m s) (\<lambda>(l, s). bindE (run_subs f ms s) (\<lambda>(l', s). Inr (l @ l', s)))"

definition run_response :: "(zkgm_sub_msg \<Rightarrow> zkgm_state \<Rightarrow> run_result) \<Rightarrow> run_error + zkgm_response \<times> zkgm_state \<Rightarrow> run_result" where
  "run_response f m = bindE m (\<lambda>(r, s). run_subs f (z_messages r) s)"

text \<open>The message alone, with the data and events that its reply sees.\<close>

definition call_msg :: "(zkgm_sub_msg \<Rightarrow> zkgm_state \<Rightarrow> run_result) \<Rightarrow> world \<Rightarrow> 'z zkgm_host_scheme \<Rightarrow> block_env \<Rightarrow> zkgm_msg \<Rightarrow> zkgm_state
    \<Rightarrow> run_error + (zkgm_msg list \<times> sub_result \<times> zkgm_state)" where
  "call_msg f W H env m s =
     (case self_call m of
       Some (em, fs) \<Rightarrow>
         bindE (run_response f (as_run W (zkgm_execute H env \<lparr>sender = contract_address env, funds = fs\<rparr> em s))) (\<lambda>(l, s).
         Inr (l, SubOk None [], s))
     | None \<Rightarrow>
         (case w_call W m s of
           (SubOk d e, l, s') \<Rightarrow> Inr (m # l, SubOk d e, s')
         | (SubErr t, _, _) \<Rightarrow> Inl (RunErr t)))"

definition reply_msg :: "(zkgm_sub_msg \<Rightarrow> zkgm_state \<Rightarrow> run_result) \<Rightarrow> world \<Rightarrow> 'z zkgm_host_scheme \<Rightarrow> block_env \<Rightarrow> u64 \<Rightarrow> zkgm_msg list \<Rightarrow> sub_result
    \<Rightarrow> zkgm_state \<Rightarrow> run_result" where
  "reply_msg f W H env i l res s =
     bindE (run_response f (as_run W (zkgm_reply H env i res s))) (\<lambda>(l', s). Inr (l @ l', s))"

primrec run_sub :: "nat \<Rightarrow> world \<Rightarrow> 'z zkgm_host_scheme \<Rightarrow> block_env \<Rightarrow> zkgm_sub_msg \<Rightarrow> zkgm_state \<Rightarrow> run_result" where
  "run_sub 0 W H env sm s = Inl RunOutOfFuel"
| "run_sub (Suc n) W H env sm s =
     (case call_msg (run_sub n W H env) W H env (fst sm) s of
       Inr (l, res, s') \<Rightarrow>
         (case snd sm of
           ReplyNever \<Rightarrow> Inr (l, s')
         | ReplyAlways i \<Rightarrow> reply_msg (run_sub n W H env) W H env i l res s'
         | ReplyOnSuccess i \<Rightarrow> reply_msg (run_sub n W H env) W H env i l res s')
     | Inl (RunErr t) \<Rightarrow>
         (case snd sm of
           ReplyAlways i \<Rightarrow> reply_msg (run_sub n W H env) W H env i [] (SubErr t) s
         | _ \<Rightarrow> Inl (RunErr t))
     | Inl RunOutOfFuel \<Rightarrow> Inl RunOutOfFuel)"

definition zkgm_run :: "nat \<Rightarrow> world \<Rightarrow> 'z zkgm_host_scheme \<Rightarrow> block_env \<Rightarrow> message_info \<Rightarrow> zkgm_execute_msg \<Rightarrow> zkgm_state \<Rightarrow> run_result" where
  "zkgm_run n W H env info em s = run_response (run_sub n W H env) (as_run W (zkgm_execute H env info em s))"

section \<open>Taking runs apart\<close>

lemma as_run_Inr [result_simps]: "as_run W m = Inr a \<longleftrightarrow> m = Inr a"
  by (simp add: as_run_def result_simps)

lemma as_run_simps [simp]: "as_run W (Inr a) = Inr a" "as_run W (Inl e) = Inl (RunErr (w_text W e))"
  by (simp_all add: as_run_def)

lemma run_response_Inr:
  "run_response f m = Inr (l, s') \<longleftrightarrow> (\<exists>r s. m = Inr (r, s) \<and> run_subs f (z_messages r) s = Inr (l, s'))"
  by (auto simp: run_response_def result_simps)

lemma bindE_Inr_id [simp]: "bindE m Inr = m"
  by (cases m) simp_all

lemma run_subs_append:
  "run_subs f (xs @ ys) s = bindE (run_subs f xs s) (\<lambda>(l, s). bindE (run_subs f ys s) (\<lambda>(l', s). Inr (l @ l', s)))"
  by (induction xs arbitrary: s) (simp_all add: bindE_assoc case_prod_unfold)

lemma call_msg_self:
  assumes "self_call m = Some (em, fs)" "call_msg f W H env m s = Inr (l, res, s')"
  obtains r s1 where "zkgm_execute H env \<lparr>sender = contract_address env, funds = fs\<rparr> em s = Inr (r, s1)"
    "run_subs f (z_messages r) s1 = Inr (l, s')" "res = SubOk None []"
  using assms by (auto simp: call_msg_def result_simps run_response_Inr)

lemma call_msg_other:
  assumes "self_call m = None" "call_msg f W H env m s = Inr (l, res, s')"
  obtains d e l' where "w_call W m s = (SubOk d e, l', s')" "res = SubOk d e" "l = m # l'"
  using assms by (auto simp: call_msg_def split: prod.splits sub_result.splits)

lemma reply_msg_Inr:
  assumes "reply_msg f W H env i l res s = Inr (l', s')"
  obtains r s1 k where "zkgm_reply H env i res s = Inr (r, s1)" "run_subs f (z_messages r) s1 = Inr (k, s')" "l' = l @ k"
  using assms by (auto simp: reply_msg_def result_simps run_response_Inr)

text \<open>What a successful message did: its call succeeded, with or without a reply, or it failed and the reply took over.\<close>

lemma run_sub_Inr:
  assumes "run_sub (Suc n) W H env (m, on) s = Inr (l, s')"
  obtains (never) res where "on = ReplyNever" "call_msg (run_sub n W H env) W H env m s = Inr (l, res, s')"
    | (answered) i l1 res s1 where "on = ReplyAlways i \<or> on = ReplyOnSuccess i"
        "call_msg (run_sub n W H env) W H env m s = Inr (l1, res, s1)" "reply_msg (run_sub n W H env) W H env i l1 res s1 = Inr (l, s')"
    | (failed) i t where "on = ReplyAlways i" "reply_msg (run_sub n W H env) W H env i [] (SubErr t) s = Inr (l, s')"
  using assms
  by (cases "call_msg (run_sub n W H env) W H env m s")
     (force split: run_error.splits reply_on.splits)+

section \<open>Taking handlers apart\<close>

lemma z_ensure_can_call_Inr:
  assumes "z_ensure_can_call H env info msg s = Inr (sched, s')"
  obtains (immediate) auth where "sched = None" "s' = s" "zk_authority s = Some auth"
      "zq_can_call H auth (z_selector msg) (contract_address env) (sender info) = Inr Immediate"
    | (delayed) auth delay where "zk_authority s = Some auth" "s' = s\<lparr>zk_consuming_schedule := Some True\<rparr>"
      "zq_can_call H auth (z_selector msg) (contract_address env) (sender info) = Inr (WithDelay delay)"
      "sched = Some [plain (ConsumeScheduled auth (sender info) msg),
         (SelfRestricted (contract_address env) msg, ReplyOnSuccess Z_CONSUME_REPLY_ID)]"
proof -
  obtain auth can where c: "zk_authority s = Some auth" "zq_can_call H auth (z_selector msg) (contract_address env) (sender info) = Inr can"
    using assms unfolding z_ensure_can_call_def zam_read_def bindE_eq_Inr ok_or_eq_Inr map_err_eq_Inr by blast
  note e = assms [unfolded z_ensure_can_call_def zam_read_def c ok_or_simps map_err_simps bindE_simps]
  show thesis
  proof (cases can)
    case Immediate
    then show thesis using e c immediate by simp
  next
    case NotAuthorized
    then show thesis using e by simp
  next
    case (WithDelay delay)
    then show thesis using e c delayed by simp
  qed
qed

lemma take_execution_ack_Inr:
  assumes "take_execution_ack H s = Inr (ack, s')"
  obtains (batch) acks where "executing_packet_is_batch s = Some (length acks)" "batch_execution_acks s = Some acks" "ack = enc_batch_ack H acks"
      "\<forall>a\<in>set acks. a \<noteq> [] \<and> a \<noteq> ACK_ERR_ONLY_MAKER" "s' = s\<lparr>executing_packet_is_batch := None, batch_execution_acks := None\<rparr>"
    | (single) "executing_packet_is_batch s = None" "execution_ack s = Some ack" "ack \<noteq> ACK_ERR_ONLY_MAKER" "s' = s\<lparr>execution_ack := None\<rparr>"
proof (cases "executing_packet_is_batch s")
  case None
  then show thesis
    using assms single by (auto simp: take_execution_ack_def bindE_eq_Inr zread_Inr ensureE_eq_Inr)
next
  case (Some k)
  then obtain acks where acks: "batch_execution_acks s = Some acks" "length acks = k"
    using assms by (auto simp: take_execution_ack_def bindE_eq_Inr zread_Inr ensureE_eq_Inr)
  then show thesis
    using assms batch Some
    by (cases "filter (\<lambda>ack. ack = [] \<or> ack = ACK_ERR_ONLY_MAKER) acks") (auto simp: take_execution_ack_def filter_empty_conv)
qed

lemma rate_limit_stores:
  assumes "rate_limit d a now s = Inr s'"
  shows "\<exists>f. s' = s\<lparr>token_bucket_of := f\<rparr>"
proof -
  obtain config where c: "zk_config s = Some config"
    using assms by (auto simp: rate_limit_def bindE_eq_Inr zread_Inr)
  show ?thesis
  proof (cases "zc_rate_limit_disabled config")
    case True
    then have "s' = s\<lparr>token_bucket_of := token_bucket_of s\<rparr>"
      using assms c by (simp add: rate_limit_def)
    then show ?thesis by blast
  next
    case False
    then obtain b where "token_bucket_of s d = Some b"
      using assms c by (cases "token_bucket_of s d") (simp_all add: rate_limit_def)
    then show ?thesis
      using assms c False by (cases "bucket_rate_limit b a now") (auto simp: rate_limit_def)
  qed
qed

lemma execute_token_order_v1_Inr:
  assumes "execute_token_order_v1 H env caller packet relayer msg path order intent fs s = Inr (r, fs', s')"
  obtains (fill) q denom minter receiver where "market_maker_fill env caller msg q denom minter receiver fs s = Inr (r, fs', s')"
    | (mint) denom q s1 minter create receiver fee where "rate_limit denom q (now_secs env) s = Inr s1"
        "deploy_v1 minter (destination_channel_id packet) path denom order s1 = Inr (create, s')"
        "z_messages r = create @ pay (mint_of denom) minter q receiver fee relayer @ [write_ack env (protocol_ack H)]"
    | (unescrow) denom q b s1 minter receiver rev where "rate_limit denom q (now_secs env) s = Inr s1" "q \<le> b"
        "decrease_channel_balance_v2 (destination_channel_id packet) rev denom (o1_base_token order) b s1 = Inr s'"
        "z_messages r = pay (unescrow_of denom) minter q receiver (b - q) relayer @ [write_ack env (protocol_ack H)]"
  using assms by (auto simp: execute_token_order_v1_def Let_def bindE_eq_Inr split: if_split_asm)

lemma execute_token_order_v2_Inr:
  assumes "execute_token_order_v2 H env caller packet relayer msg path order intent fs s = Inr (r, fs', s')"
  obtains (fill) minter where "market_maker_fill_v2 H env caller relayer msg minter path packet order intent fs s = Inr (r, fs', s')"
    | (unescrow) denom q b s1 receiver where "rate_limit denom q (now_secs env) s = Inr s1"
        "protocol_fill_unescrow_v2 H env (destination_channel_id packet) path (o2_base_token order) denom receiver relayer b q s1 = Inr (r, s')"
    | (mint) denom q b s1 receiver metadata can where "rate_limit denom q (now_secs env) s = Inr s1"
        "protocol_fill_mint H env (destination_channel_id packet) path (o2_base_token order) denom receiver relayer b q metadata can s1 = Inr (r, s')"
  using assms by (auto simp: execute_token_order_v2_def Let_def bindE_eq_Inr split: if_split_asm)

lemma execute_call_Inr:
  assumes "execute_call H env caller packet relayer msg path call intent s = Inr (r, s')"
  obtains (there) target where "r = z_append (z_respond [] []) (call_message H env caller packet relayer msg path call target intent)" "s' = s"
    | (created) target config cps a where "r = z_append (create_proxy H env config cps a) (call_message H env caller packet relayer msg path call target intent)"
        "s' = s\<lparr>created_proxy_account := Some cps\<rparr>"
proof -
  obtain r1 target c cps a where r: "r = z_append r1 (call_message H env caller packet relayer msg path call target intent)"
      and "(if c then bindE (zread (zk_config s)) (\<lambda>config. Inr (create_proxy H env config cps a, s\<lparr>created_proxy_account := Some cps\<rparr>))
            else Inr (z_respond [] [], s)) = Inr (r1, s')"
    using assms unfolding execute_call_def Let_def bindE_eq_Inr by (elim exE conjE) (simp only: case_prod_unfold Inr_Inl_False sum.inject, fastforce)
  then show thesis
    using there created by (cases c) (auto simp: bindE_eq_Inr)
qed

end
