(* ===== verification/Zkgm_Law.thy ===== *)
theory Zkgm_Law
  imports Zkgm_Run
begin

text \<open>
  The source side of the zkgm application as an interface. Whatever holds of the single steps it is made of
  (escrow, release, burn, mint, a message to the host or to a module) and of nothing happening, and is closed under sequencing, holds of
  every send, acknowledgement and timeout. The locale \<open>sending_law\<close> states the steps of a send, and \<open>message_law\<close>
  extends it by those that settle one; the books, the scratch stores, the depth of a transaction and the right to pay out interpret them.
\<close>

lemma verify_token_order_v2_Inr:
  assumes "verify_token_order_v2 H info ch path order fs s = Inr (msgs, fs', s')"
  obtains (burn) base minter amount coins where "token_minter s = Some minter" "s' = s"
      "msgs = [plain (ToMinter minter (BurnTokens base amount minter (sender info)) coins)]"
    | (escrow) base minter coins where "increase_channel_balance_v2 ch path base (o2_quote_token order) (o2_base_amount order) s = Inr s'"
      "msgs = [plain (ToMinter minter (Escrow (sender info) base minter (o2_base_amount order)) coins)]"
proof -
  obtain base minter where bm: "from_utf8 (o2_base_token order) = Some base" "token_minter s = Some minter"
    using assms by (auto simp: verify_token_order_v2_def bindE_eq_Inr ok_or_eq_Inr zread_Inr)
  show thesis
  proof (cases "o2_kind order = TOKEN_ORDER_KIND_UNESCROW")
    case True
    then obtain amount coins where "s' = s"
        "msgs = [plain (ToMinter minter (BurnTokens base amount minter (sender info)) coins)]"
      using assms bm by (auto simp: verify_token_order_v2_def Let_def case_prod_beta bindE_eq_Inr)
    then show thesis
      using burn bm(2) by blast
  next
    case False
    show thesis
      using assms False bm escrow
      by (auto simp: verify_token_order_v2_def bindE_eq_Inr case_prod_beta to_u128_Inr)
  qed
qed

lemma verify_token_order_v1_Inr:
  assumes "verify_token_order_v1 H info ch path order fs s = Inr (msgs, fs', s')"
  obtains (burn) base minter amount coins where "token_minter s = Some minter" "s' = s"
      "msgs = [plain (ToMinter minter (BurnTokens base amount minter (sender info)) coins)]"
    | (escrow) base minter coins where "increase_channel_balance_v2 ch path base (o1_quote_token order) (o1_base_amount order) s = Inr s'"
      "msgs = [plain (ToMinter minter (Escrow (sender info) base minter (o1_base_amount order)) coins)]"
proof -
  obtain base minter where bm: "from_utf8 (o1_base_token order) = Some base" "token_minter s = Some minter"
    using assms by (auto simp: verify_token_order_v1_def bindE_eq_Inr ok_or_eq_Inr zread_Inr)
  have "(\<exists>amount coins. s' = s \<and> msgs = [plain (ToMinter minter (BurnTokens base amount minter (sender info)) coins)]) \<or>
      (\<exists>coins. increase_channel_balance_v2 ch path base (o1_quote_token order) (o1_base_amount order) s = Inr s' \<and>
        msgs = [plain (ToMinter minter (Escrow (sender info) base minter (o1_base_amount order)) coins)])"
    using assms bm
    by (auto simp: verify_token_order_v1_def Let_def case_prod_beta bindE_eq_Inr ok_or_eq_Inr to_u128_Inr ensureE_eq_Inr split: if_split_asm)
  then show thesis
    using burn bm(2) escrow by blast
qed

lemma increase_minter:
  assumes "increase_channel_balance_v2 ch path base quote a s = Inr s'"
  shows "token_minter s' = token_minter s"
  using assms by (auto simp: increase_channel_balance_v2_def Let_def bindE_eq_Inr)

locale sending_law =
  fixes P :: "zkgm_state \<Rightarrow> zkgm_sub_msg list \<Rightarrow> zkgm_state \<Rightarrow> bool"
    and may_burn :: "addr \<Rightarrow> zkgm_state \<Rightarrow> bool"
  assumes silent: "P s [] s"
    and seq: "P s ms s1 \<Longrightarrow> P s1 ms' s2 \<Longrightarrow> P s (ms @ ms') s2"
    and escrow: "increase_channel_balance_v2 ch path base quote a s = Inr s' \<Longrightarrow>
      P s [plain (ToMinter minter (Escrow from base minter a) coins)] s'"
    and burn: "token_minter s = Some minter \<Longrightarrow> may_burn from s \<Longrightarrow> P s [plain (ToMinter minter (BurnTokens base a minter from) coins)] s"
    and burn_kept: "increase_channel_balance_v2 ch path base quote a s = Inr s' \<Longrightarrow> may_burn from s \<Longrightarrow> may_burn from s'"
    and host: "P s [plain (ToHost h hm)] (s\<lparr>in_flight_packet := fl\<rparr>)"
begin

lemma seq_append: "P s (z_messages r) s1 \<Longrightarrow> P s1 (z_messages r') s2 \<Longrightarrow> P s (z_messages (z_append r r')) s2"
  by (simp add: seq)

lemma verify_batch_law:
  assumes "verify_batch f is fs s = Inr (msgs, fs', s')" "Q s"
    and "\<And>i fs s msgs fs' s'. f i fs s = Inr (msgs, fs', s') \<Longrightarrow> Q s \<Longrightarrow> P s msgs s' \<and> Q s'"
  shows "P s msgs s' \<and> Q s'"
  using assms(1,2)
proof (induction "is" arbitrary: fs s msgs)
  case Nil
  then show ?case by (simp add: silent)
next
  case (Cons i "is")
  then obtain m1 fs1 s1 m2 where "f i fs s = Inr (m1, fs1, s1)" "verify_batch f is fs1 s1 = Inr (m2, fs', s')" "msgs = m1 @ m2"
    by (auto simp: bindE_eq_Inr)
  then show ?case
    using Cons.IH Cons.prems(2) assms(3) seq by blast
qed

lemma verify_internal_law:
  assumes "verify_internal n H info ch path i fs s = Inr (msgs, fs', s')" "may_burn (sender info) s"
  shows "P s msgs s' \<and> may_burn (sender info) s'"
  using assms
proof (induction n arbitrary: path i fs s msgs fs' s')
  case (Suc n)
  consider (v1) order where "verify_token_order_v1 H info ch path order fs s = Inr (msgs, fs', s')"
    | (v2) order where "verify_token_order_v2 H info ch path order fs s = Inr (msgs, fs', s')"
    | (batch) "is" where "verify_batch (verify_internal n H info ch path) is fs s = Inr (msgs, fs', s')"
    | (forward) path' i' where "verify_internal n H info ch path' i' fs s = Inr (msgs, fs', s')"
    | (call) "msgs = []" "s' = s"
    using Suc.prems(1) by (auto simp: bindE_eq_Inr split: if_split_asm)
  then show ?case
  proof cases
    case v1
    then show ?thesis
      by (rule verify_token_order_v1_Inr) (use Suc.prems(2) in \<open>auto intro: escrow burn burn_kept\<close>)
  next
    case v2
    then show ?thesis
      by (rule verify_token_order_v2_Inr) (use Suc.prems(2) in \<open>auto intro: escrow burn burn_kept\<close>)
  next
    case batch
    then show ?thesis
      by (rule verify_batch_law) (use Suc in auto)
  next
    case forward
    then show ?thesis using Suc by blast
  next
    case call
    then show ?thesis using Suc.prems(2) by (simp add: silent)
  qed
qed simp

lemma send_law:
  assumes "send H info ch timeout salt i s = Inr (r, s')" "may_burn (sender info) s"
  shows "P s (z_messages r) s'"
proof -
  obtain fs msgs fs' h hm where v: "verify_internal 3 H info ch 0 i fs s = Inr (msgs, fs', s')"
      "z_messages r = msgs @ [plain (ToHost h hm)]"
    using assms(1) by (auto simp: send_def bindE_eq_Inr Let_def)
  have "P s' [plain (ToHost h hm)] s'"
    using host [of s' h hm "in_flight_packet s'"] by simp
  then show ?thesis
    unfolding v(2) using verify_internal_law [OF v(1) assms(2)] by (blast intro: seq)
qed

end

locale message_law = sending_law +
  assumes release: "decrease_channel_balance_v2 ch path base quote a s = Inr s' \<Longrightarrow>
      P s [plain (ToMinter minter (Unescrow base who a) coins)] s'"
    and burn_escrow: "decrease_channel_balance_v2 ch path base quote a s = Inr s' \<Longrightarrow>
      P s [plain (ToMinter minter (BurnTokens base a minter minter) coins)] s'"
    and mint: "P s [plain (ToMinter minter (MintTokens base a who) coins)] s"
    and module: "P s [plain (ToModule who m)] s"
begin

lemmas settle_laws = silent release burn_escrow mint module

lemma refund_law: "refund H path ch order s = Inr (r, s') \<Longrightarrow> P s (z_messages r) s'"
  by (auto simp: refund_def bindE_eq_Inr intro: settle_laws split: if_split_asm)

lemma refund_v2_law: "refund_v2 H path ch order s = Inr (r, s') \<Longrightarrow> P s (z_messages r) s'"
  by (auto simp: refund_v2_def bindE_eq_Inr intro: settle_laws split: if_split_asm)

lemma acknowledge_v1_law: "acknowledge_token_order_v1 H packet path order ack s = Inr (r, s') \<Longrightarrow> P s (z_messages r) s'"
  using refund_law
  by (auto simp: acknowledge_token_order_v1_def bindE_eq_Inr intro: settle_laws split: if_split_asm option.split_asm)

lemma acknowledge_v2_law: "acknowledge_token_order_v2 H packet path order ack s = Inr (r, s') \<Longrightarrow> P s (z_messages r) s'"
  using refund_v2_law
  by (auto simp: acknowledge_token_order_v2_def bindE_eq_Inr intro: settle_laws split: if_split_asm option.split_asm)

lemma call_law:
  "acknowledge_call H caller packet relayer path call ok ack s = Inr (r, s') \<Longrightarrow> P s (z_messages r) s'"
  "timeout_call H caller packet relayer path call s = Inr (r, s') \<Longrightarrow> P s (z_messages r) s'"
  by (auto simp: acknowledge_call_def timeout_call_def bindE_eq_Inr intro: settle_laws split: if_split_asm)

lemma acknowledge_batch_law:
  assumes "acknowledge_batch f k is acks s = Inr (r, s')"
    and "\<And>k i ack s r s'. f k i ack s = Inr (r, s') \<Longrightarrow> P s (z_messages r) s'"
  shows "P s (z_messages r) s'"
  using assms(1)
proof (induction "is" arbitrary: k s r)
  case Nil
  then show ?case by (auto intro: silent)
next
  case (Cons i "is")
  then obtain ack r1 s1 r2 where "f k i ack s = Inr (r1, s1)" "acknowledge_batch f (Suc k) is acks s1 = Inr (r2, s')" "r = z_append r1 r2"
    by (auto simp: bindE_eq_Inr)
  then show ?case
    using Cons.IH assms(2) by (blast intro: seq_append)
qed

lemma acknowledge_internal_law:
  assumes "acknowledge_internal n H caller packet relayer salt path i ok ack s = Inr (r, s')"
  shows "P s (z_messages r) s'"
  using assms
proof (induction n arbitrary: salt i ack s r s')
  case (Suc n)
  consider (v1) order a where "acknowledge_token_order_v1 H packet path order a s = Inr (r, s')"
    | (v2) order a where "acknowledge_token_order_v2 H packet path order a s = Inr (r, s')"
    | (batch) "is" acks where "acknowledge_batch (\<lambda>k i ack s. acknowledge_internal n H caller packet relayer (derive_batch_salt H k salt) path i ok ack s) 0 is acks s = Inr (r, s')"
    | (call) call where "acknowledge_call H caller packet relayer path call ok ack s = Inr (r, s')"
    using Suc.prems by (auto simp: bindE_eq_Inr split: if_split_asm)
  then show ?case
    using acknowledge_batch_law Suc.IH by cases (blast intro: acknowledge_v1_law acknowledge_v2_law call_law)+
qed simp

lemma timeout_internal_law:
  assumes "timeout_internal n H caller packet relayer salt path i s = Inr (r, s')"
  shows "P s (z_messages r) s'"
  using assms
proof (induction n arbitrary: salt i s r s')
  case (Suc n)
  consider (v1) order where "refund H path (source_channel_id packet) order s = Inr (r, s')"
    | (v2) order where "refund_v2 H path (source_channel_id packet) order s = Inr (r, s')"
    | (batch) "is" where "acknowledge_batch (\<lambda>k i _ s. timeout_internal n H caller packet relayer (derive_batch_salt H k salt) path i s) 0 is None s = Inr (r, s')"
    | (call) call where "timeout_call H caller packet relayer path call s = Inr (r, s')"
    using Suc.prems by (auto simp: bindE_eq_Inr split: if_split_asm)
  then show ?case
    using acknowledge_batch_law Suc.IH by cases (blast intro: refund_law refund_v2_law call_law)+
qed simp

lemma packet_callbacks_law:
  "z_acknowledge_packet H caller packet relayer ack s = Inr (r, s') \<Longrightarrow> P s (z_messages r) s'"
  "z_timeout_packet H caller packet relayer s = Inr (r, s') \<Longrightarrow> P s (z_messages r) s'"
  by (auto simp: z_acknowledge_packet_def z_timeout_packet_def bindE_eq_Inr
      intro: acknowledge_internal_law timeout_internal_law host split: if_split_asm option.split_asm)

end

end
