(* ===== verification/Zkgm_Books.thy ===== *)
theory Zkgm_Books
  imports Zkgm_Law
begin

text \<open>
  The books of the zkgm application. The token minter holds the tokens that users sent away; the channel balances
  of the contract say how many of each denomination are owed. The minter trusts the contract with this: it pays out whatever it
  is told to. The theory shows that every transaction changes the balances by exactly what it had the minter
  take in and pay out.
\<close>

section \<open>Sums over a store\<close>

definition msum :: "('k \<Rightarrow> bool) \<Rightarrow> ('k \<Rightarrow> nat option) \<Rightarrow> int" where
  "msum P m = (\<Sum>k\<in>dom m. if P k then int (the (m k)) else 0)"

definition stored :: "nat option \<Rightarrow> nat" where
  "stored x = (case x of None \<Rightarrow> 0 | Some a \<Rightarrow> a)"

lemma stored_simps [simp]: "stored None = 0" "stored (Some a) = a"
  by (simp_all add: stored_def)

lemma msum_upd:
  assumes "finite (dom m)"
  shows "msum P (m(k := x)) = (if P k then int (stored x) else 0) + (\<Sum>j\<in>dom m - {k}. if P j then int (the (m j)) else 0)"
proof -
  have rest: "(\<Sum>j\<in>dom m - {k}. if P j then int (the ((m(k := x)) j)) else 0) = (\<Sum>j\<in>dom m - {k}. if P j then int (the (m j)) else 0)"
    by (rule sum.cong) auto
  show ?thesis
  proof (cases x)
    case None
    show ?thesis
      using rest unfolding None msum_def by simp
  next
    case (Some a)
    then have "dom (m(k := x)) = insert k (dom m - {k})"
      by auto
    then have "msum P (m(k := x)) = (\<Sum>j\<in>insert k (dom m - {k}). if P j then int (the ((m(k := x)) j)) else 0)"
      by (simp only: msum_def)
    also have "\<dots> = (if P k then int (the ((m(k := x)) k)) else 0) + (\<Sum>j\<in>dom m - {k}. if P j then int (the ((m(k := x)) j)) else 0)"
      by (rule sum.insert) (use assms in auto)
    finally show ?thesis
      unfolding rest using Some by simp
  qed
qed

lemma msum_put:
  assumes "finite (dom m)"
  shows "msum P (m(k := x)) = msum P m + (if P k then int (stored x) - int (stored (m k)) else 0)"
  using msum_upd [OF assms, of P k x] msum_upd [OF assms, of P k "m k"] by simp

lemma msum_nonneg: "0 \<le> msum P m"
  by (simp add: msum_def sum_nonneg)

lemma msum_ge:
  assumes "finite (dom m)" "m k = Some v" "P k"
  shows "int v \<le> msum P m"
  using msum_put [OF assms(1), of P k "Some 0"] msum_nonneg [of P "m(k \<mapsto> 0)"] assms(2,3) by simp

section \<open>What is owed and what the minter moves\<close>

definition owed :: "string \<Rightarrow> zkgm_state \<Rightarrow> int" where
  "owed d s = msum (\<lambda>(_, _, base, _). base = d) (channel_balance_v2 s) + msum (\<lambda>(_, _, base). base = d) (deprecated_channel_balance_v1 s)"

definition finite_books :: "zkgm_state \<Rightarrow> bool" where
  "finite_books s \<longleftrightarrow> finite (dom (channel_balance_v2 s)) \<and> finite (dom (deprecated_channel_balance_v1 s))"

text \<open>The change of the tokens in escrow: the minter burns what it holds when it is both the owner and the sender.\<close>

fun net_minter :: "string \<Rightarrow> minter_msg \<Rightarrow> int" where
  "net_minter d (Escrow _ d' _ a) = (if d' = d then int a else 0)"
| "net_minter d (Unescrow d' _ a) = (if d' = d then - int a else 0)"
| "net_minter d (BurnTokens d' a from who) = (if d' = d \<and> from = who then - int a else 0)"
| "net_minter d _ = 0"

fun net_msg :: "string \<Rightarrow> zkgm_msg \<Rightarrow> int" where
  "net_msg d (ToMinter _ m _) = net_minter d m"
| "net_msg d _ = 0"

definition net :: "string \<Rightarrow> zkgm_msg list \<Rightarrow> int" where
  "net d l = sum_list (map (net_msg d) l)"

lemma net_simps [simp]: "net d [] = 0" "net d (m # l) = net_msg d m + net d l" "net d (l @ l') = net d l + net d l'"
  by (simp_all add: net_def)

text \<open>
  A response has messages for the minter, which never ask for a reply, and fills of a market maker, which pay out what they take in. No
  message of the contract is counted twice.
\<close>

fun clean :: "zkgm_sub_msg \<Rightarrow> bool" where
  "clean (ToMinter _ _ _, on) \<longleftrightarrow> on = ReplyNever"
| "clean (SelfBatch _ ms, on) \<longleftrightarrow> (\<forall>d. net d ms = 0) \<and> (\<forall>m\<in>set ms. self_call m = None)"
| "clean _ \<longleftrightarrow> True"

definition booked :: "string \<Rightarrow> zkgm_state \<Rightarrow> zkgm_sub_msg list \<Rightarrow> zkgm_state \<Rightarrow> bool" where
  "booked d s ms s' \<longleftrightarrow> (\<forall>m\<in>set ms. clean m) \<and>
     (finite_books s \<longrightarrow> finite_books s' \<and> owed d s' = owed d s + net d (map fst ms))"

lemma booked_refl: "booked d s [] s"
  by (simp add: booked_def)

lemma booked_trans: "booked d s ms s1 \<Longrightarrow> booked d s1 ms' s2 \<Longrightarrow> booked d s (ms @ ms') s2"
  by (auto simp: booked_def)

lemma booked_append: "booked d s (z_messages r) s1 \<Longrightarrow> booked d s1 (z_messages r') s2 \<Longrightarrow> booked d s (z_messages (z_append r r')) s2"
  by (simp add: booked_trans)

text \<open>A state with the same balances.\<close>

definition same_books :: "zkgm_state \<Rightarrow> zkgm_state \<Rightarrow> bool" where
  "same_books s s' \<longleftrightarrow> channel_balance_v2 s' = channel_balance_v2 s \<and> deprecated_channel_balance_v1 s' = deprecated_channel_balance_v1 s"

lemma same_books_owed: "same_books s s' \<Longrightarrow> owed d s' = owed d s \<and> (finite_books s' \<longleftrightarrow> finite_books s)"
  by (simp add: same_books_def owed_def finite_books_def)

lemma booked_same:
  assumes "same_books s s'" "\<And>m. m \<in> set ms \<Longrightarrow> clean m" "net d (map fst ms) = 0"
  shows "booked d s ms s'"
  using assms same_books_owed [OF assms(1), of d] by (simp add: booked_def)

lemma booked_shift:
  assumes "booked d s1 ms s2" "same_books s s1"
  shows "booked d s ms s2"
  using assms same_books_owed [OF assms(2), of d] by (simp add: booked_def)

lemma booked_keep:
  assumes "booked d s ms s1" "same_books s1 s2"
  shows "booked d s ms s2"
  using assms same_books_owed [OF assms(2), of d] by (simp add: booked_def)

section \<open>Balances\<close>

lemma increase_owed:
  assumes "increase_channel_balance_v2 ch path base quote a s = Inr s'" "finite_books s"
  shows "finite_books s' \<and> owed d s' = owed d s + (if base = d then int a else 0)"
  using assms
  by (auto simp: increase_channel_balance_v2_def Let_def result_simps owed_def finite_books_def msum_put add256_def
      split: option.splits if_splits)

lemma decrease_owed:
  assumes "decrease_channel_balance_v2 ch path base quote a s = Inr s'" "finite_books s"
  shows "finite_books s' \<and> owed d s' = owed d s - (if base = d then int a else 0)"
  using assms
  by (auto simp: decrease_channel_balance_v2_def Let_def result_simps owed_def finite_books_def msum_put sub256_def
      split: option.splits if_splits)

lemma increase_v1:
  assumes "increase_channel_balance_v2 ch path base quote a s = Inr s'"
  shows "deprecated_channel_balance_v1 s' = deprecated_channel_balance_v1 s"
  using assms by (auto simp: increase_channel_balance_v2_def Let_def result_simps)

lemma rate_limit_same: "rate_limit d a now s = Inr s' \<Longrightarrow> same_books s s'"
  using rate_limit_stores by (fastforce simp: same_books_def)

section \<open>Sending, acknowledgements and timeouts\<close>

lemma quiet_booked:
  assumes "same_books s s'" "\<forall>(m, _) \<in> set ms. (\<forall>d. net_msg d m = 0) \<and> (\<forall>a b c. m \<noteq> ToMinter a b c) \<and> (\<forall>a b. m \<noteq> SelfBatch a b)"
  shows "booked d s ms s'"
proof (rule booked_same [OF assms(1)])
  fix m
  assume "m \<in> set ms"
  then show "clean m"
    using assms(2) by (cases m rule: clean.cases) fastforce+
next
  show "net d (map fst ms) = 0"
    using assms(2) by (induction ms) auto
qed

interpretation books: message_law "booked d" "\<lambda>who s. token_minter s \<noteq> Some who" for d
proof
  fix ch path base quote a s s' minter who coins
  assume "increase_channel_balance_v2 ch path base quote a s = Inr s'"
  then show "booked d s [plain (ToMinter minter (Escrow who base minter a) coins)] s'"
    using increase_owed [of ch path base quote a s s' d] by (simp add: booked_def)
next
  fix ch path base quote a s s' minter who coins
  assume "decrease_channel_balance_v2 ch path base quote a s = Inr s'"
  then show "booked d s [plain (ToMinter minter (Unescrow base who a) coins)] s'"
      "booked d s [plain (ToMinter minter (BurnTokens base a minter minter) coins)] s'"
    using decrease_owed [of ch path base quote a s s' d] by (simp_all add: booked_def)
qed (auto intro: booked_refl booked_trans quiet_booked simp: booked_def same_books_def owed_def finite_books_def increase_minter)

section \<open>Executing\<close>

lemma pay_booked:
  assumes "decrease_channel_balance_v2 ch path base quote b s = Inr s'" "q \<le> b"
  shows "booked d s (pay (unescrow_of base) minter q receiver (b - q) relayer) s'"
  using decrease_owed [OF assms(1), of d] assms(2) by (auto simp: booked_def pay_def)

lemma pay_mint_booked: "booked d s (pay (mint_of base) minter q receiver fee relayer) s"
  by (simp add: booked_def pay_def)

lemma write_ack_booked: "booked d s [write_ack env ack] s"
  by (simp add: booked_def write_ack_def)

lemma fill_booked:
  assumes "same_books s s'"
  shows "booked d s [(SelfBatch a (fill_messages caller minter denom q receiver coins), on)] s'"
  by (rule booked_same [OF assms]) (auto simp: fill_messages_def)

lemma market_maker_fill_booked:
  assumes "market_maker_fill env caller msg q denom minter receiver fs s = Inr (r, fs', s')"
  shows "booked d s (z_messages r) s'"
  using assms by (auto simp: market_maker_fill_def bindE_eq_Inr same_books_def intro!: fill_booked)

lemma market_maker_fill_v2_booked:
  assumes "market_maker_fill_v2 H env caller relayer msg minter path packet order intent fs s = Inr (r, fs', s')"
  shows "booked d s (z_messages r) s'"
  using assms
  by (auto simp: market_maker_fill_v2_def relayer_market_maker_fill_v2_def solver_market_maker_fill_v2_def bindE_eq_Inr same_books_def
      fill_messages_def intro!: booked_same split: if_split_asm)

lemma protocol_fill_unescrow_booked:
  assumes "protocol_fill_unescrow_v2 H env ch path base_token quote receiver relayer b q s = Inr (r, s')"
  shows "booked d s (z_messages r) s'"
proof -
  obtain minter reversed where "decrease_channel_balance_v2 ch reversed quote base_token b s = Inr s'" "q \<le> b"
      "z_messages r = pay (unescrow_of quote) minter q receiver (b - q) relayer @ [write_ack env (protocol_ack H)]"
    using assms by (auto simp: protocol_fill_unescrow_v2_def bindE_eq_Inr ok_or_eq_Inr to_u128_Inr split: if_split_asm)
  then show ?thesis
    by (metis booked_trans pay_booked write_ack_booked)
qed

lemma create_booked:
  assumes "same_books s s'"
  shows "booked d s [plain (ToMinter minter (CreateDenom a b c e f g h) coins)] s'"
    "booked d s [plain (ToMinter minter (CreateDenomV2 a f g h i j) coins)] s'"
  by (rule booked_same [OF assms]; simp)+

lemma deploy_booked:
  "deploy_v1 minter ch path wrapped order s = Inr (ms, s') \<Longrightarrow> booked d s ms s'"
  "deploy_v2 H minter ch path base_token wrapped metadata can_deploy s = Inr (ms, s') \<Longrightarrow> booked d s ms s'"
  by (auto simp: deploy_v1_def deploy_v2_def bindE_eq_Inr same_books_def booked_refl intro!: create_booked split: option.split_asm if_split_asm)

lemma protocol_fill_mint_booked:
  assumes "protocol_fill_mint H env ch path base_token wrapped receiver relayer b q metadata can_deploy s = Inr (r, s')"
  shows "booked d s (z_messages r) s'"
proof -
  obtain minter create q' fee where "deploy_v2 H minter ch path base_token wrapped metadata can_deploy s = Inr (create, s')"
      "z_messages r = create @ pay (mint_of wrapped) minter q' receiver fee relayer @ [write_ack env (protocol_ack H)]"
    using assms by (auto simp: protocol_fill_mint_def bindE_eq_Inr ok_or_eq_Inr)
  then show ?thesis
    by (metis booked_trans pay_mint_booked write_ack_booked deploy_booked(2))
qed

lemma execute_token_order_v1_booked:
  assumes "execute_token_order_v1 H env caller packet relayer msg path order intent fs s = Inr (r, fs', s')"
  shows "booked d s (z_messages r) s'"
  by (rule execute_token_order_v1_Inr [OF assms])
     (metis booked_shift rate_limit_same booked_trans market_maker_fill_booked pay_mint_booked pay_booked write_ack_booked deploy_booked(1))+

lemma execute_token_order_v2_booked:
  assumes "execute_token_order_v2 H env caller packet relayer msg path order intent fs s = Inr (r, fs', s')"
  shows "booked d s (z_messages r) s'"
  by (rule execute_token_order_v2_Inr [OF assms])
     (metis booked_shift rate_limit_same market_maker_fill_v2_booked protocol_fill_unescrow_booked protocol_fill_mint_booked)+

lemma call_message_booked: "booked d s (z_messages (call_message H env caller packet relayer msg path call target intent)) s"
  by (rule quiet_booked) (simp_all add: call_message_def write_ack_def same_books_def)

lemma create_proxy_booked: "same_books s s' \<Longrightarrow> booked d s (z_messages (create_proxy H env config cps a)) s'"
  by (rule quiet_booked) (simp_all add: create_proxy_def)

lemma execute_call_booked:
  assumes "execute_call H env caller packet relayer msg path call intent s = Inr (r, s')"
  shows "booked d s (z_messages r) s'"
proof (rule execute_call_Inr [OF assms])
  fix target
  assume "r = z_append (z_respond [] []) (call_message H env caller packet relayer msg path call target intent)" "s' = s"
  then show ?thesis by (simp add: call_message_booked)
next
  fix target config cps a
  assume r: "r = z_append (create_proxy H env config cps a) (call_message H env caller packet relayer msg path call target intent)"
    and "s' = s\<lparr>created_proxy_account := Some cps\<rparr>"
  then have "booked d s (z_messages (create_proxy H env config cps a)) s'"
    by (intro create_proxy_booked) (simp add: same_books_def)
  then show ?thesis
    unfolding r by (rule booked_append [OF _ call_message_booked])
qed

lemma execute_forward_booked:
  assumes "execute_forward H env packet salt path fw intent s = Inr (r, s')"
  shows "booked d s (z_messages r) s'"
  using assms
  by (auto simp: execute_forward_def write_ack_def bindE_eq_Inr same_books_def intro!: quiet_booked split: if_split_asm)

lemma execute_batch_booked:
  assumes "execute_batch f k is fs s = Inr (r, fs', s')"
    and "\<And>k i fs s r fs' s'. f k i fs s = Inr (r, fs', s') \<Longrightarrow> booked d s (z_messages r) s'"
  shows "booked d s (z_messages r) s'"
  using assms(1)
proof (induction "is" arbitrary: k fs s r)
  case Nil
  then show ?case by (auto intro: booked_refl)
next
  case (Cons i "is")
  then obtain r1 fs1 s1 r2 where "f k i fs s = Inr (r1, fs1, s1)" "execute_batch f (Suc k) is fs1 s1 = Inr (r2, fs', s')" "r = z_append r1 r2"
    by (auto simp: bindE_eq_Inr)
  then show ?case
    using Cons.IH assms(2) by (blast intro: booked_append)
qed

lemma execute_internal_booked:
  assumes "execute_internal n H env caller packet relayer msg salt path i intent fs s = Inr (r, fs', s')"
  shows "booked d s (z_messages r) s'"
  using assms
proof (induction n arbitrary: salt i fs s r fs' s')
  case (Suc n)
  consider (v1) order where "execute_token_order_v1 H env caller packet relayer msg path order intent fs s = Inr (r, fs', s')"
    | (v2) order where "execute_token_order_v2 H env caller packet relayer msg path order intent fs s = Inr (r, fs', s')"
    | (batch) "is" where "execute_batch (\<lambda>k i. execute_internal n H env caller packet relayer msg (derive_batch_salt H k salt) path i intent) 0 is fs
          (s\<lparr>executing_packet_is_batch := Some (length is)\<rparr>) = Inr (r, fs', s')"
    | (call) call where "execute_call H env caller packet relayer msg path call intent s = Inr (r, s')"
    | (forward) fw where "execute_forward H env packet salt path fw intent s = Inr (r, s')"
    using Suc.prems by (auto simp: bindE_eq_Inr with_purse_def split: if_split_asm)
  then show ?case
  proof cases
    case (batch "is")
    then have "booked d (s\<lparr>executing_packet_is_batch := Some (length is)\<rparr>) (z_messages r) s'"
      by (rule execute_batch_booked) (rule Suc.IH)
    then show ?thesis
      by (rule booked_shift) (simp add: same_books_def)
  qed (blast intro: execute_token_order_v1_booked execute_token_order_v2_booked execute_call_booked execute_forward_booked)+
qed simp

lemma execute_packet_booked:
  assumes "execute_packet H env info caller packet relayer msg intent s = Inr (r, s')"
  shows "booked d s (z_messages r) s'"
proof -
  obtain salt path i fs fs' s1 where e: "execute_internal 2 H env caller packet relayer msg salt path i intent fs s = Inr (r, fs', s1)"
      "s' = s1\<lparr>created_proxy_account := None\<rparr>"
    using assms by (auto simp: execute_packet_def bindE_eq_Inr)
  then show ?thesis
    using booked_keep [OF execute_internal_booked [OF e(1)]] by (simp add: same_books_def)
qed

section \<open>Entry points\<close>

lemma migrate_balances_owed:
  assumes "migrate_balances ms s = Inr s'" "finite_books s"
  shows "finite_books s' \<and> owed d s' = owed d s"
  using assms
proof (induction ms arbitrary: s)
  case (Cons m ms)
  obtain path ch base quote where m: "m = (path, ch, base, quote)"
    by (cases m) auto
  then obtain b s1 where b: "deprecated_channel_balance_v1 s (ch, path, base) = Some b"
      "increase_channel_balance_v2 ch path base quote b s = Inr s1"
      "migrate_balances ms (s1\<lparr>deprecated_channel_balance_v1 := (deprecated_channel_balance_v1 s1)((ch, path, base) := None)\<rparr>) = Inr s'"
    using Cons.prems(1) by (auto simp: Let_def bindE_eq_Inr split: option.split_asm if_split_asm)
  have "finite_books s1 \<and> owed d s1 = owed d s + (if base = d then int b else 0)"
    by (rule increase_owed [OF b(2) Cons.prems(2)])
  moreover have "deprecated_channel_balance_v1 s1 (ch, path, base) = Some b"
    using b(1) increase_v1 [OF b(2)] by simp
  ultimately have "finite_books (s1\<lparr>deprecated_channel_balance_v1 := (deprecated_channel_balance_v1 s1)((ch, path, base) := None)\<rparr>) \<and>
      owed d (s1\<lparr>deprecated_channel_balance_v1 := (deprecated_channel_balance_v1 s1)((ch, path, base) := None)\<rparr>) = owed d s"
    by (auto simp: finite_books_def owed_def msum_put)
  then show ?case
    using Cons.IH [OF b(3)] by simp
qed simp

lemma restricted_booked:
  assumes "execute_zrestricted env info msg s = Inr (r, s')"
  shows "booked d s (z_messages r) s'"
proof (cases msg)
  case (MigrateV1ToV2 balances wrapped)
  then have "migrate_balances balances s = Inr s'" "z_messages r = []"
    using assms by (auto simp: migrate_v1_to_v2_def bindE_eq_Inr)
  then show ?thesis
    using migrate_balances_owed by (simp add: booked_def)
next
  case (ZUpgradable u)
  then show ?thesis
    using assms by (cases u) (auto simp: same_books_def intro!: quiet_booked)
qed (use assms in \<open>auto simp: bindE_eq_Inr same_books_def set_bucket_config_def update_zconfig_def pause_def unpause_def intro!: quiet_booked\<close>)

lemma dispatch_booked:
  "dispatch_execute_packet H env info caller packet relayer msg intent s = Inr (r, s') \<Longrightarrow> booked d s (z_messages r) s'"
  by (auto simp: dispatch_execute_packet_def bindE_eq_Inr same_books_def intro!: quiet_booked)

lemma ibc_booked:
  assumes "execute_ibc H env info msg s = Inr (r, s')"
  shows "booked d s (z_messages r) s'"
  using assms by (cases msg) (auto simp: bindE_eq_Inr booked_refl intro: books.packet_callbacks_law dispatch_booked)

text \<open>A call that the theory speaks of: a batch of messages is the contract's own, and the minter never sends.\<close>

fun fair_call :: "block_env \<Rightarrow> message_info \<Rightarrow> zkgm_execute_msg \<Rightarrow> zkgm_state \<Rightarrow> bool" where
  "fair_call env info (InternalBatch ms) s \<longleftrightarrow>
     (sender info = contract_address env \<longrightarrow> (\<forall>m\<in>set ms. self_call m = None) \<and> (\<forall>d. net d ms = 0))"
| "fair_call env info (Send _ _ _ _) s \<longleftrightarrow> token_minter s \<noteq> Some (sender info)"
| "fair_call env info _ s \<longleftrightarrow> True"

lemma plain_clean: "self_call m = None \<Longrightarrow> clean (plain m)"
  by (cases m) simp_all

lemma scheduled_booked:
  assumes "z_ensure_can_call H env info msg s = Inr (sched, s')"
  shows "same_books s s'" "sched = Some subs \<Longrightarrow> booked d s subs s'"
  by (rule z_ensure_can_call_Inr [OF assms]; auto simp: same_books_def intro!: quiet_booked)+

lemma zkgm_execute_booked:
  assumes "zkgm_execute H env info em s = Inr (r, s')" "fair_call env info em s"
  shows "booked d s (z_messages r) s'"
proof (cases em)
  case (IbcUnion x)
  then show ?thesis using assms(1) by (auto simp: bindE_eq_Inr intro: ibc_booked)
next
  case (InternalBatch ms)
  then have "z_messages r = map plain ms" "s' = s" "\<forall>m\<in>set ms. self_call m = None" "net d ms = 0"
    using assms(1,2) by (auto simp: bindE_eq_Inr only_self_def ensureE_eq_Inr)
  then show ?thesis
    by (auto simp: booked_def comp_def intro: plain_clean)
next
  case (InternalExecutePacket caller packet relayer msg intent)
  then show ?thesis using assms(1) by (auto simp: bindE_eq_Inr intro: execute_packet_booked)
next
  case (InternalWriteAck ack)
  then show ?thesis
    using assms(1) by (auto simp: bindE_eq_Inr internal_write_ack_def same_books_def intro!: quiet_booked)
next
  case (Send ch timeout salt i)
  then show ?thesis using assms(1,2) by (auto simp: bindE_eq_Inr intro: books.send_law)
next
  case (ZSetAuthority a)
  then show ?thesis
    using assms(1) by (auto simp: bindE_eq_Inr z_set_authority_def same_books_def intro!: quiet_booked split: if_split_asm)
next
  case (ZRestricted msg)
  then obtain sched s1 where e: "z_ensure_can_call H env info msg s = Inr (sched, s1)"
      "(case sched of None \<Rightarrow> execute_zrestricted env info msg s1 | Some subs \<Rightarrow> Inr (z_respond [] subs, s1)) = Inr (r, s')"
    using assms(1) by (auto simp: bindE_eq_Inr)
  show ?thesis
  proof (cases sched)
    case None
    then show ?thesis
      using e(2) scheduled_booked(1) [OF e(1)] by (auto intro: booked_shift restricted_booked)
  next
    case (Some subs)
    then show ?thesis
      using e scheduled_booked(2) [OF e(1)] by auto
  qed
qed

lemma zkgm_reply_booked:
  assumes "zkgm_reply H env i res s = Inr (r, s')"
  shows "booked d s (z_messages r) s'"
proof (rule quiet_booked)
  have e: "take_execution_ack H s = Inr (a, s') \<Longrightarrow> same_books s s'" for a s s'
    by (erule take_execution_ack_Inr) (simp_all add: same_books_def)
  show "same_books s s'"
    using assms
    by (cases res)
       (auto simp: zkgm_reply_def execute_packet_reply_def forward_reply_def call_reply_def maker_reply_def solver_reply_def Let_def
        bindE_eq_Inr same_books_def split: if_split_asm option.split_asm dest!: e)
  show "\<forall>(m, _)\<in>set (z_messages r). (\<forall>d. net_msg d m = 0) \<and> (\<forall>a b c. m \<noteq> ToMinter a b c) \<and> (\<forall>a b. m \<noteq> SelfBatch a b)"
    using assms
    by (cases res)
       (auto simp: zkgm_reply_def execute_packet_reply_def forward_reply_def call_reply_def maker_reply_def solver_reply_def Let_def
        write_ack_def bindE_eq_Inr split: if_split_asm option.split_asm)
qed

section \<open>Transactions\<close>

text \<open>The other contracts keep the books too: what calls back into this contract changed is what they had the minter move.\<close>

definition world_books :: "world \<Rightarrow> bool" where
  "world_books W \<longleftrightarrow> (\<forall>m s data evs l s' d. w_call W m s = (SubOk data evs, l, s') \<longrightarrow> finite_books s \<longrightarrow>
     finite_books s' \<and> owed d s' = owed d s + net d l)"

definition moved :: "string \<Rightarrow> zkgm_state \<Rightarrow> int \<Rightarrow> zkgm_msg list \<Rightarrow> zkgm_state \<Rightarrow> bool" where
  "moved d s announced l s' \<longleftrightarrow> (finite_books s \<longrightarrow> finite_books s' \<and> owed d s' + announced = owed d s + net d l)"

lemma moved_trans: "moved d s a l s1 \<Longrightarrow> moved d s1 b k s2 \<Longrightarrow> moved d s (a + b) (l @ k) s2"
  by (auto simp: moved_def)

lemma booked_moved: "booked d s ms s1 \<Longrightarrow> moved d s1 (net d (map fst ms)) l s2 \<Longrightarrow> moved d s 0 l s2"
  by (auto simp: booked_def moved_def)

lemma run_subs_moved:
  assumes "run_subs f ms s = Inr (l, s')" "\<And>m. m \<in> set ms \<Longrightarrow> clean m"
    and "\<And>m s l s'. f m s = Inr (l, s') \<Longrightarrow> clean m \<Longrightarrow> moved d s (net_msg d (fst m)) l s'"
  shows "moved d s (net d (map fst ms)) l s'"
  using assms(1,2)
proof (induction ms arbitrary: s l)
  case Nil
  then show ?case by (simp add: moved_def)
next
  case (Cons m ms)
  then obtain l1 s1 l2 where "f m s = Inr (l1, s1)" "run_subs f ms s1 = Inr (l2, s')" "l = l1 @ l2"
    by (auto simp: bindE_eq_Inr)
  then show ?case
    using Cons assms(3) moved_trans [of d s "net_msg d (fst m)" l1 s1] by simp
qed

lemma clean_fair:
  assumes "clean (m, on)" "self_call m = Some (em, fs)"
  shows "fair_call env info em s \<and> net_msg d m = 0"
  using assms by (cases m) auto

lemma call_msg_moved:
  assumes "call_msg f W H env m s = Inr (l, res, s')" "clean (m, on)" "world_books W"
    and "\<And>m s l s'. f m s = Inr (l, s') \<Longrightarrow> clean m \<Longrightarrow> moved d s (net_msg d (fst m)) l s'"
  shows "moved d s (net_msg d m) l s'"
proof (cases "self_call m")
  case None
  obtain data evs l' where "w_call W m s = (SubOk data evs, l', s')" "l = m # l'"
    by (rule call_msg_other [OF None assms(1)])
  then show ?thesis
    using assms(3) by (simp add: world_books_def moved_def)
next
  case (Some x)
  obtain em fs where x: "self_call m = Some (em, fs)"
    using Some by (cases x) auto
  obtain r s1 where e: "zkgm_execute H env \<lparr>sender = contract_address env, funds = fs\<rparr> em s = Inr (r, s1)"
      "run_subs f (z_messages r) s1 = Inr (l, s')"
    by (rule call_msg_self [OF x assms(1)])
  have b: "booked d s (z_messages r) s1"
    by (rule zkgm_execute_booked [OF e(1)]) (simp add: clean_fair [OF assms(2) x])
  then have "moved d s1 (net d (map fst (z_messages r))) l s'"
    by (intro run_subs_moved [OF e(2)] assms(4)) (auto simp: booked_def)
  then show ?thesis
    using booked_moved [OF b] clean_fair [OF assms(2) x, of env undefined s d] by simp
qed

lemma reply_msg_moved:
  assumes "reply_msg f W H env i l res s = Inr (l', s')" "moved d s0 a l s"
    and "\<And>m s l s'. f m s = Inr (l, s') \<Longrightarrow> clean m \<Longrightarrow> moved d s (net_msg d (fst m)) l s'"
  shows "moved d s0 a l' s'"
proof -
  obtain r s1 k where e: "zkgm_reply H env i res s = Inr (r, s1)" "run_subs f (z_messages r) s1 = Inr (k, s')" "l' = l @ k"
    by (rule reply_msg_Inr [OF assms(1)])
  have b: "booked d s (z_messages r) s1"
    by (rule zkgm_reply_booked [OF e(1)])
  then have "moved d s1 (net d (map fst (z_messages r))) k s'"
    by (intro run_subs_moved [OF e(2)] assms(3)) (auto simp: booked_def)
  then show ?thesis
    using moved_trans [OF assms(2) booked_moved [OF b]] e(3) by simp
qed

lemma run_sub_moved:
  assumes "run_sub n W H env sm s = Inr (l, s')" "clean sm" "world_books W"
  shows "moved d s (net_msg d (fst sm)) l s'"
  using assms(1,2)
proof (induction n arbitrary: sm s l s')
  case (Suc n)
  obtain m on where sm: "sm = (m, on)"
    by (cases sm) auto
  note IH = Suc.IH
  from Suc.prems(1) [unfolded sm] show ?case
  proof (cases rule: run_sub_Inr)
    case (never res)
    then show ?thesis
      using call_msg_moved [OF never(2) Suc.prems(2) [unfolded sm] assms(3) IH] sm by simp
  next
    case (answered i l1 res s1)
    then show ?thesis
      using reply_msg_moved [OF answered(3) call_msg_moved [OF answered(2) Suc.prems(2) [unfolded sm] assms(3) IH] IH] sm by simp
  next
    case (failed i t)
    have "net_msg d m = 0"
      using Suc.prems(2) failed(1) sm by (cases m) auto
    then show ?thesis
      using reply_msg_moved [OF failed(2) _ IH, of s 0] sm by (simp add: moved_def)
  qed
qed simp

lemma zkgm_run_moved:
  assumes "zkgm_run n W H env info em s = Inr (l, s')" "fair_call env info em s" "world_books W"
  shows "moved d s 0 l s'"
proof -
  obtain r s1 where e: "zkgm_execute H env info em s = Inr (r, s1)" "run_subs (run_sub n W H env) (z_messages r) s1 = Inr (l, s')"
    using assms(1) by (auto simp: zkgm_run_def run_response_Inr as_run_Inr)
  have b: "booked d s (z_messages r) s1"
    by (rule zkgm_execute_booked [OF e(1) assms(2)])
  then have "moved d s1 (net d (map fst (z_messages r))) l s'"
    by (intro run_subs_moved [OF e(2)]) (auto simp: booked_def intro: run_sub_moved assms(3))
  then show ?thesis
    by (rule booked_moved [OF b])
qed

end
