(* ===== verification/Zkgm_Ack.thy ===== *)
theory Zkgm_Ack
  imports Zkgm_Law
begin

text \<open>
  The acknowledgement of a received packet. The execution of a packet leaves its acknowledgement in a store,
  through messages of the contract to itself, and the reply to the execution sends it to the host. The theory shows
  what messages an execution can consist of, that they all run within the depth given to them, that the stores are empty again
  afterwards, and that at most one acknowledgement is written.
\<close>

section \<open>The messages of an execution\<close>

fun writes_ack :: "zkgm_msg \<Rightarrow> bool" where
  "writes_ack (ToHost _ (WriteAcknowledgement _ _)) \<longleftrightarrow> True"
| "writes_ack _ \<longleftrightarrow> False"

definition other_msg :: "zkgm_msg \<Rightarrow> bool" where
  "other_msg m \<longleftrightarrow> self_call m = None \<and> \<not> writes_ack m"

text \<open>The messages that come out of an execution; only a forward, \<open>fwd\<close>, writes the empty acknowledgement.\<close>

inductive inner :: "bool \<Rightarrow> zkgm_sub_msg \<Rightarrow> bool" for fwd where
  inner_plain: "other_msg m \<Longrightarrow> inner fwd (plain m)"
| inner_call: "other_msg m \<Longrightarrow> inner fwd (m, ReplyOnSuccess CALL_REPLY_ID)"
| inner_solver: "other_msg m \<Longrightarrow> inner fwd (m, ReplyAlways MM_SOLVER_FILL_REPLY_ID)"
| inner_forward: "other_msg m \<Longrightarrow> fwd \<Longrightarrow> inner fwd (m, ReplyOnSuccess FORWARD_REPLY_ID)"
| inner_ack: "a \<noteq> [] \<or> fwd \<Longrightarrow> inner fwd (plain (SelfWriteAck c a))"
| inner_fill: "(\<And>m. m \<in> set ms \<Longrightarrow> other_msg m) \<Longrightarrow> inner fwd (SelfBatch c ms, ReplyAlways MM_RELAYER_FILL_REPLY_ID)"

definition wide_codec :: "'z zkgm_host_scheme \<Rightarrow> bool" where
  "wide_codec H \<longleftrightarrow> (\<forall>a. enc_order_ack H a \<noteq> []) \<and> (\<forall>l. enc_batch_ack H l \<noteq> []) \<and> (\<forall>w. enc_u256 H w \<noteq> [])"

abbreviation all_inner :: "bool \<Rightarrow> zkgm_response \<Rightarrow> bool" where
  "all_inner fwd r \<equiv> \<forall>m\<in>set (z_messages r). inner fwd m"

lemma other_msg_simps [simp]:
  "other_msg (ToMinter a m c)" "other_msg (ToModule a i)" "other_msg (ToZkgmable a z)"
  "other_msg (ToSolver b p od w c1 e f g)" "other_msg (InstantiateProxy a j cps h)" "other_msg (MigrateProxy a j b1 w ch x)"
  "other_msg (UpdateProxyAdmin a b1)" "other_msg (ToHost a (PacketSend ch t dat))"
  by (simp_all add: other_msg_def)

lemma protocol_ack_nonempty [simp]: "wide_codec H \<Longrightarrow> protocol_ack H \<noteq> []" "wide_codec H \<Longrightarrow> maker_ack H m \<noteq> []"
  by (simp_all add: wide_codec_def protocol_ack_def maker_ack_def)

lemma ONLY_MAKER_nonempty [simp]: "ACK_ERR_ONLY_MAKER \<noteq> []"
  by (simp add: ACK_ERR_ONLY_MAKER_def)

lemma write_ack_inj [simp]: "write_ack env a = write_ack env b \<longleftrightarrow> a = b"
  by (simp add: write_ack_def)

lemma inner_write: "a \<noteq> [] \<or> fwd \<Longrightarrow> inner fwd (write_ack env a)"
  by (simp add: write_ack_def inner_ack)

lemma pay_inner: "m \<in> set (pay f minter q receiver fee relayer) \<Longrightarrow> inner fwd m"
  by (auto simp: pay_def intro: inner_plain split: if_split_asm)

lemma fill_inner: "inner fwd (SelfBatch c (fill_messages caller minter denom q receiver coins), ReplyAlways MM_RELAYER_FILL_REPLY_ID)"
  by (rule inner_fill) (auto simp: fill_messages_def split: if_split_asm)

lemma inner_mono: "inner False m \<Longrightarrow> inner fwd m"
  by (induction rule: inner.induct) (auto intro: inner.intros)

section \<open>The scratch stores\<close>

text \<open>What the execution of an instruction leaves of them: a fill names its market maker.\<close>

definition frame :: "zkgm_state \<Rightarrow> zkgm_response \<Rightarrow> zkgm_state \<Rightarrow> bool" where
  "frame s r s' \<longleftrightarrow> executing_packet s' = executing_packet s \<and> executing_packet_is_batch s' = executing_packet_is_batch s \<and>
     execution_ack s' = execution_ack s \<and> batch_execution_acks s' = batch_execution_acks s \<and>
     (market_maker s' = market_maker s \<or> (\<exists>m\<in>set (z_messages r). snd m = ReplyAlways MM_RELAYER_FILL_REPLY_ID))"

lemma frame_append: "frame s r s1 \<Longrightarrow> frame s1 r' s2 \<Longrightarrow> frame s (z_append r r') s2"
  by (auto simp: frame_def)

lemma decrease_frame: "decrease_channel_balance_v2 ch path base quote a s = Inr s' \<Longrightarrow> frame s r s'"
  by (auto simp: decrease_channel_balance_v2_def Let_def bindE_eq_Inr frame_def)

text \<open>An execution has the messages above and keeps the frame.\<close>

definition tidy :: "bool \<Rightarrow> zkgm_state \<Rightarrow> zkgm_response \<Rightarrow> zkgm_state \<Rightarrow> bool" where
  "tidy fwd s r s' \<longleftrightarrow> all_inner fwd r \<and> frame s r s'"

lemma tidy_append: "tidy fwd s r s1 \<Longrightarrow> tidy fwd s1 r' s2 \<Longrightarrow> tidy fwd s (z_append r r') s2"
  using frame_append by (auto simp: tidy_def)

lemma market_maker_fill_tidy:
  assumes "market_maker_fill env caller msg q denom minter receiver fs s = Inr (r, fs', s')"
  shows "tidy fwd s r s'"
  using assms by (auto simp: market_maker_fill_def bindE_eq_Inr tidy_def frame_def intro: fill_inner)

lemma market_maker_fill_v2_tidy:
  assumes "market_maker_fill_v2 H env caller relayer msg minter path packet order intent fs s = Inr (r, fs', s')"
  shows "tidy fwd s r s'"
  using assms
  by (auto simp: market_maker_fill_v2_def relayer_market_maker_fill_v2_def solver_market_maker_fill_v2_def bindE_eq_Inr tidy_def frame_def
      intro!: fill_inner inner_solver split: if_split_asm)

lemma protocol_fill_unescrow_tidy:
  assumes "protocol_fill_unescrow_v2 H env ch path base_token quote receiver relayer b q s = Inr (r, s')" "wide_codec H \<or> fwd"
  shows "tidy fwd s r s'"
proof -
  obtain minter reversed q' fee where "decrease_channel_balance_v2 ch reversed quote base_token b s = Inr s'"
      "z_messages r = pay (unescrow_of quote) minter q' receiver fee relayer @ [write_ack env (protocol_ack H)]"
    using assms(1) by (auto simp: protocol_fill_unescrow_v2_def bindE_eq_Inr)
  then show ?thesis
    using assms(2) by (auto simp: tidy_def intro: pay_inner inner_write decrease_frame)
qed

lemma deploy_tidy:
  "deploy_v1 minter ch path wrapped order s = Inr (ms, s') \<Longrightarrow> z_messages r = ms @ ms' \<Longrightarrow> frame s r s' \<and> (\<forall>m\<in>set ms. inner fwd m)"
  "deploy_v2 H minter ch path base_token wrapped metadata can_deploy s = Inr (ms, s') \<Longrightarrow> z_messages r = ms @ ms' \<Longrightarrow>
     frame s r s' \<and> (\<forall>m\<in>set ms. inner fwd m)"
  by (auto simp: deploy_v1_def deploy_v2_def bindE_eq_Inr frame_def intro!: inner_plain split: option.split_asm if_split_asm)

lemma protocol_fill_mint_tidy:
  assumes "protocol_fill_mint H env ch path base_token wrapped receiver relayer b q metadata can_deploy s = Inr (r, s')" "wide_codec H \<or> fwd"
  shows "tidy fwd s r s'"
proof -
  obtain minter create q' fee where c: "deploy_v2 H minter ch path base_token wrapped metadata can_deploy s = Inr (create, s')"
      "z_messages r = create @ pay (mint_of wrapped) minter q' receiver fee relayer @ [write_ack env (protocol_ack H)]"
    using assms(1) by (auto simp: protocol_fill_mint_def bindE_eq_Inr ok_or_eq_Inr)
  then show ?thesis
    using assms(2) deploy_tidy(2) [OF c, where fwd = fwd] by (auto simp: tidy_def intro: pay_inner inner_write)
qed

lemma tidy_after_rate_limit:
  assumes "rate_limit d a now s = Inr s1" "tidy fwd s1 r s'"
  shows "tidy fwd s r s'"
proof -
  obtain f where "s1 = s\<lparr>token_bucket_of := f\<rparr>"
    using rate_limit_stores [OF assms(1)] by blast
  then show ?thesis
    using assms(2) by (simp add: tidy_def frame_def)
qed

lemma execute_token_order_v1_tidy:
  assumes "execute_token_order_v1 H env caller packet relayer msg path order intent fs s = Inr (r, fs', s')" "wide_codec H \<or> fwd"
  shows "tidy fwd s r s'"
proof -
  consider (fill) q denom minter receiver where "market_maker_fill env caller msg q denom minter receiver fs s = Inr (r, fs', s')"
    | (mint) denom q s1 minter create receiver fee where "rate_limit denom q (now_secs env) s = Inr s1"
        "deploy_v1 minter (destination_channel_id packet) path denom order s1 = Inr (create, s')"
        "z_messages r = create @ pay (mint_of denom) minter q receiver fee relayer @ [write_ack env (protocol_ack H)]"
    | (unescrow) denom q b s1 minter receiver rev where "rate_limit denom q (now_secs env) s = Inr s1" "q \<le> b"
        "decrease_channel_balance_v2 (destination_channel_id packet) rev denom (o1_base_token order) b s1 = Inr s'"
        "z_messages r = pay (unescrow_of denom) minter q receiver (b - q) relayer @ [write_ack env (protocol_ack H)]"
    by (rule execute_token_order_v1_Inr [OF assms(1)])
  then show ?thesis
  proof cases
    case fill
    then show ?thesis by (rule market_maker_fill_tidy)
  next
    case mint
    show ?thesis
      using assms(2) mint(3) deploy_tidy(1) [OF mint(2,3), where fwd = fwd]
      by (intro tidy_after_rate_limit [OF mint(1)]) (auto simp: tidy_def intro: pay_inner inner_write)
  next
    case unescrow
    show ?thesis
      using assms(2) unescrow(3,4)
      by (intro tidy_after_rate_limit [OF unescrow(1)]) (auto simp: tidy_def intro: pay_inner inner_write decrease_frame)
  qed
qed

lemma execute_token_order_v2_tidy:
  assumes "execute_token_order_v2 H env caller packet relayer msg path order intent fs s = Inr (r, fs', s')" "wide_codec H \<or> fwd"
  shows "tidy fwd s r s'"
proof (rule execute_token_order_v2_Inr [OF assms(1)])
  fix minter
  assume "market_maker_fill_v2 H env caller relayer msg minter path packet order intent fs s = Inr (r, fs', s')"
  then show ?thesis by (rule market_maker_fill_v2_tidy)
next
  fix denom q b s1 receiver
  assume "rate_limit denom q (now_secs env) s = Inr s1"
    and "protocol_fill_unescrow_v2 H env (destination_channel_id packet) path (o2_base_token order) denom receiver relayer b q s1 = Inr (r, s')"
  then show ?thesis
    by (rule tidy_after_rate_limit [OF _ protocol_fill_unescrow_tidy [OF _ assms(2)]])
next
  fix denom q b s1 receiver metadata can
  assume "rate_limit denom q (now_secs env) s = Inr s1"
    and "protocol_fill_mint H env (destination_channel_id packet) path (o2_base_token order) denom receiver relayer b q metadata can s1 = Inr (r, s')"
  then show ?thesis
    by (rule tidy_after_rate_limit [OF _ protocol_fill_mint_tidy [OF _ assms(2)]])
qed

lemma call_message_tidy:
  assumes "wide_codec H \<or> fwd"
  shows "tidy fwd s (call_message H env caller packet relayer msg path call target intent) s"
proof -
  have "enc_u256 H TAG_ACK_SUCCESS \<noteq> [] \<or> fwd"
    using assms by (auto simp: wide_codec_def)
  then have "inner fwd (write_ack env (enc_u256 H TAG_ACK_SUCCESS))"
    by (rule inner_write)
  then show ?thesis
    by (cases "cl_eureka call") (simp_all add: tidy_def frame_def call_message_def inner_plain inner_call)
qed

lemma execute_call_tidy:
  assumes "execute_call H env caller packet relayer msg path call intent s = Inr (r, s')" "wide_codec H \<or> fwd"
  shows "tidy fwd s r s'"
proof (rule execute_call_Inr [OF assms(1)])
  fix target
  assume "r = z_append (z_respond [] []) (call_message H env caller packet relayer msg path call target intent)" "s' = s"
  then show ?thesis
    using call_message_tidy [OF assms(2)] by (simp add: tidy_def frame_def)
next
  fix target config cps a
  assume r: "r = z_append (create_proxy H env config cps a) (call_message H env caller packet relayer msg path call target intent)"
    and "s' = s\<lparr>created_proxy_account := Some cps\<rparr>"
  then have "tidy fwd s (create_proxy H env config cps a) s'"
    by (auto simp: tidy_def frame_def create_proxy_def intro!: inner_plain)
  then show ?thesis
    unfolding r by (rule tidy_append [OF _ call_message_tidy [OF assms(2)]])
qed

lemma execute_forward_tidy:
  assumes "execute_forward H env packet salt path fw intent s = Inr (r, s')"
  shows "tidy True s r s'"
  using assms
  by (auto simp: execute_forward_def bindE_eq_Inr tidy_def frame_def intro!: inner_forward inner_write split: if_split_asm)

lemma execute_batch_tidy:
  assumes "execute_batch f k is fs s = Inr (r, fs', s')"
    and "\<And>k i fs s r fs' s'. f k i fs s = Inr (r, fs', s') \<Longrightarrow> is_allowed_batch_instruction (i_opcode i) \<Longrightarrow> tidy fwd s r s'"
  shows "tidy fwd s r s'"
  using assms(1)
proof (induction "is" arbitrary: k fs s r)
  case Nil
  then show ?case by (auto simp: tidy_def frame_def)
next
  case (Cons i "is")
  then obtain r1 fs1 s1 r2 where "f k i fs s = Inr (r1, fs1, s1)" "execute_batch f (Suc k) is fs1 s1 = Inr (r2, fs', s')" "r = z_append r1 r2"
      "is_allowed_batch_instruction (i_opcode i)"
    by (auto simp: bindE_eq_Inr ensureE_eq_Inr)
  then show ?case
    using Cons.IH assms(2) by (blast intro: tidy_append)
qed

lemma execute_leaf_tidy:
  assumes "execute_internal n H env caller packet relayer msg salt path i intent fs s = Inr (r, fs', s')" "wide_codec H \<or> fwd"
    "is_allowed_batch_instruction (i_opcode i)"
  shows "tidy fwd s r s'"
proof (cases n)
  case (Suc m)
  have "i_opcode i \<noteq> OP_BATCH" "i_opcode i \<noteq> OP_FORWARD"
    using assms(3) by (auto simp: is_allowed_batch_instruction_def opcode_defs)
  then show ?thesis
    using assms(1,2) Suc
    by (auto simp: bindE_eq_Inr with_purse_def intro: execute_token_order_v1_tidy execute_token_order_v2_tidy execute_call_tidy split: if_split_asm)
qed (use assms(1) in simp)

text \<open>The whole instruction: a batch says how many acknowledgements it needs.\<close>

lemma execute_internal_tidy:
  assumes "execute_internal n H env caller packet relayer msg salt path i intent fs s = Inr (r, fs', s')" "wide_codec H"
  obtains (single) "tidy (i_opcode i = OP_FORWARD) s r s'" "i_opcode i \<noteq> OP_BATCH"
    | (batch) k where "tidy False (s\<lparr>executing_packet_is_batch := Some k\<rparr>) r s'" "i_opcode i = OP_BATCH"
proof (cases n)
  case (Suc m)
  consider (leaf) "is_allowed_batch_instruction (i_opcode i)" | (batch) "i_opcode i = OP_BATCH" | (forward) "i_opcode i = OP_FORWARD"
    using assms(1) Suc by (auto simp: is_allowed_batch_instruction_def split: if_split_asm)
  then show thesis
  proof cases
    case leaf
    then show thesis
      using single execute_leaf_tidy [OF assms(1) disjI1 [OF assms(2)] leaf] by (auto simp: is_allowed_batch_instruction_def opcode_defs)
  next
    case b: batch
    then obtain "is" where "execute_batch (\<lambda>k i. execute_internal m H env caller packet relayer msg (derive_batch_salt H k salt) path i intent) 0 is fs
          (s\<lparr>executing_packet_is_batch := Some (length is)\<rparr>) = Inr (r, fs', s')"
      using assms(1) Suc by (auto simp: bindE_eq_Inr opcode_defs)
    then have "tidy False (s\<lparr>executing_packet_is_batch := Some (length is)\<rparr>) r s'"
      by (rule execute_batch_tidy) (rule execute_leaf_tidy [OF _ disjI1 [OF assms(2)]])
    then show thesis
      using batch b by blast
  next
    case forward
    then obtain fw where "execute_forward H env packet salt path fw intent s = Inr (r, s')"
      using assms(1) Suc by (auto simp: bindE_eq_Inr with_purse_def opcode_defs)
    then have "tidy True s r s'"
      by (rule execute_forward_tidy)
    then show thesis
      using single forward by (simp add: opcode_defs)
  qed
qed (use assms(1) in simp)

lemma execute_internal_inner:
  assumes "execute_internal n H env caller packet relayer msg salt path i intent fs s = Inr (r, fs', s')"
  shows "all_inner True r"
proof (cases n)
  case (Suc m)
  consider (leaf) "is_allowed_batch_instruction (i_opcode i)" | (batch) "i_opcode i = OP_BATCH" | (forward) "i_opcode i = OP_FORWARD"
    using assms Suc by (auto simp: is_allowed_batch_instruction_def split: if_split_asm)
  then show ?thesis
  proof cases
    case leaf
    then show ?thesis
      using execute_leaf_tidy [OF assms disjI2 [OF TrueI] leaf] by (simp add: tidy_def)
  next
    case batch
    then obtain "is" where "execute_batch (\<lambda>k i. execute_internal m H env caller packet relayer msg (derive_batch_salt H k salt) path i intent) 0 is fs
          (s\<lparr>executing_packet_is_batch := Some (length is)\<rparr>) = Inr (r, fs', s')"
      using assms Suc by (auto simp: bindE_eq_Inr opcode_defs)
    then have "tidy True (s\<lparr>executing_packet_is_batch := Some (length is)\<rparr>) r s'"
      by (rule execute_batch_tidy) (rule execute_leaf_tidy [OF _ disjI2 [OF TrueI]])
    then show ?thesis
      by (simp add: tidy_def)
  next
    case forward
    then obtain fw where "execute_forward H env packet salt path fw intent s = Inr (r, s')"
      using assms Suc by (auto simp: bindE_eq_Inr with_purse_def opcode_defs)
    then show ?thesis
      unfolding tidy_def by (blast dest: execute_forward_tidy [unfolded tidy_def])
  qed
qed (use assms in simp)

section \<open>Running the messages\<close>

definition same_scratch :: "zkgm_state \<Rightarrow> zkgm_state \<Rightarrow> bool" where
  "same_scratch s s' \<longleftrightarrow> executing_packet s' = executing_packet s \<and> executing_packet_is_batch s' = executing_packet_is_batch s \<and>
     execution_ack s' = execution_ack s \<and> batch_execution_acks s' = batch_execution_acks s \<and> market_maker s' = market_maker s \<and>
     created_proxy_account s' = created_proxy_account s"

text \<open>
  The other contracts have no way to the scratch stores: the messages that write them are for the contract itself, and the host's
  callback for a packet is refused while one is executing. What they make the contract send has no acknowledgement in it.
\<close>

definition quiet_world :: "world \<Rightarrow> bool" where
  "quiet_world W \<longleftrightarrow> (\<forall>m s data evs l s'. w_call W m s = (SubOk data evs, l, s') \<longrightarrow> same_scratch s s' \<and> (\<forall>k\<in>set l. \<not> writes_ack k))"

definition kept :: "bool \<Rightarrow> zkgm_state \<Rightarrow> zkgm_state \<Rightarrow> bool" where
  "kept fwd s s' \<longleftrightarrow> executing_packet s' = executing_packet s \<and> executing_packet_is_batch s' = executing_packet_is_batch s \<and>
     created_proxy_account s' = created_proxy_account s \<and>
     (executing_packet_is_batch s = None \<longrightarrow> batch_execution_acks s' = batch_execution_acks s) \<and>
     (executing_packet_is_batch s \<noteq> None \<longrightarrow> execution_ack s' = execution_ack s) \<and>
     (fwd \<or> execution_ack s' = execution_ack s \<or> execution_ack s' \<noteq> Some []) \<and>
     (market_maker s = None \<longrightarrow> market_maker s' = None)"

lemma same_scratch_kept: "same_scratch s s' \<Longrightarrow> kept fwd s s'"
  by (simp add: same_scratch_def kept_def)

lemma kept_trans: "kept fwd s s1 \<Longrightarrow> kept fwd s1 s2 \<Longrightarrow> kept fwd s s2"
  by (auto simp: kept_def)

lemma write_kept: "a \<noteq> [] \<or> fwd \<Longrightarrow> kept fwd s (internal_write_ack a s)"
  by (auto simp: kept_def internal_write_ack_def)

lemma run_write_ack:
  assumes "run_sub n W H env (plain (SelfWriteAck c a)) s = Inr (l, s')"
  shows "l = [] \<and> s' = internal_write_ack a s"
proof (cases n)
  case (Suc k)
  then show ?thesis
    using assms by (auto simp: call_msg_def run_response_def only_self_def)
qed (use assms in simp)

lemma run_one: "run_subs f [m] s = f m s"
  by (cases "f m s") auto

lemma run_other:
  assumes "call_msg f W H env m s = Inr (l, res, s')" "other_msg m" "quiet_world W"
  shows "same_scratch s s' \<and> (\<forall>k\<in>set l. \<not> writes_ack k) \<and> (\<exists>d e. res = SubOk d e)"
proof -
  have "self_call m = None"
    using assms(2) by (simp add: other_msg_def)
  then obtain d e l' where "w_call W m s = (SubOk d e, l', s')" "res = SubOk d e" "l = m # l'"
    by (rule call_msg_other [OF _ assms(1)])
  then show ?thesis
    using assms(2,3) by (auto simp: quiet_world_def other_msg_def)
qed

lemma run_others:
  assumes "run_subs (run_sub n W H env) (map plain ms) s = Inr (l, s')" "\<And>m. m \<in> set ms \<Longrightarrow> other_msg m" "quiet_world W"
  shows "same_scratch s s' \<and> (\<forall>k\<in>set l. \<not> writes_ack k)"
  using assms(1,2)
proof (induction ms arbitrary: s l)
  case Nil
  then show ?case by (simp add: same_scratch_def)
next
  case (Cons m ms)
  then obtain l1 s1 l2 where r: "run_sub n W H env (plain m) s = Inr (l1, s1)" "run_subs (run_sub n W H env) (map plain ms) s1 = Inr (l2, s')" "l = l1 @ l2"
    by (auto simp: bindE_eq_Inr)
  obtain k where n: "n = Suc k"
    using r(1) by (cases n) auto
  from r(1) [unfolded n] obtain res where "call_msg (run_sub k W H env) W H env m s = Inr (l1, res, s1)"
    by (cases rule: run_sub_Inr) auto
  then have "same_scratch s s1 \<and> (\<forall>k\<in>set l1. \<not> writes_ack k)"
    using run_other [OF _ _ assms(3)] Cons.prems(2) by (meson list.set_intros(1))
  then show ?case
    using Cons.IH [OF r(2)] Cons.prems(2) r(3) by (auto simp: same_scratch_def)
qed

text \<open>The replies within an execution: each writes one acknowledgement at most.\<close>

lemma inner_reply:
  assumes "reply_msg (run_sub n W H env) W H env i l res s = Inr (l', s')" "wide_codec H"
    and i: "i = CALL_REPLY_ID \<or> i = MM_SOLVER_FILL_REPLY_ID \<or> i = MM_RELAYER_FILL_REPLY_ID \<or> (i = FORWARD_REPLY_ID \<and> fwd)"
  shows "l' = l \<and> kept fwd s s' \<and> (i = MM_RELAYER_FILL_REPLY_ID \<longrightarrow> market_maker s' = None)"
proof -
  obtain r s1 k where e: "zkgm_reply H env i res s = Inr (r, s1)" "run_subs (run_sub n W H env) (z_messages r) s1 = Inr (k, s')" "l' = l @ k"
    by (rule reply_msg_Inr [OF assms(1)])
  have k: "kept fwd s s1 \<and> (i = MM_RELAYER_FILL_REPLY_ID \<longrightarrow> market_maker s1 = None) \<and>
      (z_messages r = [] \<or> (\<exists>a. a \<noteq> [] \<and> z_messages r = [write_ack env a]))"
    using e(1) i assms(2)
    by (cases res)
       (auto simp: zkgm_reply_def Z_CONSUME_REPLY_ID_def reply_id_defs call_reply_def solver_reply_def maker_reply_def forward_reply_def
         Let_def bindE_eq_Inr ensureE_eq_Inr kept_def split: option.split_asm if_split_asm)
  show ?thesis
  proof (cases "z_messages r = []")
    case True
    then show ?thesis using e k by auto
  next
    case False
    then obtain a where a: "a \<noteq> []" "z_messages r = [write_ack env a]"
      using k by blast
    then have "k = [] \<and> s' = internal_write_ack a s1"
      using e(2) run_write_ack by (metis run_one write_ack_def)
    then show ?thesis
      using e(3) k write_kept [of a fwd s1] a(1) by (auto intro: kept_trans simp: internal_write_ack_def)
  qed
qed

lemma run_inner:
  assumes "inner fwd sm" "run_sub n W H env sm s = Inr (l, s')" "quiet_world W" "wide_codec H"
  shows "kept fwd s s' \<and> (\<forall>k\<in>set l. \<not> writes_ack k) \<and> (snd sm = ReplyAlways MM_RELAYER_FILL_REPLY_ID \<longrightarrow> market_maker s' = None)"
proof -
  obtain m on k where sm: "sm = (m, on)" and n: "n = Suc k"
    using assms(2) by (cases sm; cases n) auto
  let ?f = "run_sub k W H env"
  have reply: ?thesis
    if "on = ReplyAlways i \<or> on = ReplyOnSuccess i" "on \<noteq> ReplyNever" "kept fwd s s1" "\<forall>k\<in>set l1. \<not> writes_ack k" "reply_msg ?f W H env i l1 res s1 = Inr (l, s')"
      "i = CALL_REPLY_ID \<or> i = MM_SOLVER_FILL_REPLY_ID \<or> i = MM_RELAYER_FILL_REPLY_ID \<or> (i = FORWARD_REPLY_ID \<and> fwd)" for i l1 res s1
    using inner_reply [OF that(5) assms(4) that(6)] that(1-4) sm by (auto intro: kept_trans)
  have never: "call_msg ?f W H env m s = Inr (l, res, s') \<Longrightarrow> other_msg m \<Longrightarrow> on = ReplyNever \<Longrightarrow> ?thesis" for res
    using run_other [of ?f W H env m s l res s'] assms(3) sm same_scratch_kept by auto
  show ?thesis
    using assms(1) [unfolded sm]
  proof cases
    case inner_plain
    from assms(2) [unfolded sm n] show ?thesis
      by (cases rule: run_sub_Inr) (use inner_plain never in auto)
  next
    case inner_call
    from assms(2) [unfolded sm n] show ?thesis
    proof (cases rule: run_sub_Inr)
      case (answered i l1 res s1)
      then show ?thesis
        using run_other [OF answered(2) inner_call(2) assms(3)] inner_call(1)
        by (intro reply [OF answered(1) _ _ _ answered(3)]) (auto intro: same_scratch_kept)
    qed (use inner_call in auto)
  next
    case inner_solver
    from assms(2) [unfolded sm n] show ?thesis
    proof (cases rule: run_sub_Inr)
      case (answered i l1 res s1)
      then show ?thesis
        using run_other [OF answered(2) inner_solver(2) assms(3)] inner_solver(1)
        by (intro reply [OF answered(1) _ _ _ answered(3)]) (auto intro: same_scratch_kept)
    next
      case (failed i t)
      then show ?thesis
        using inner_solver(1) by (intro reply [OF _ _ _ _ failed(2)]) (auto simp: kept_def)
    qed (use inner_solver in auto)
  next
    case inner_forward
    from assms(2) [unfolded sm n] show ?thesis
    proof (cases rule: run_sub_Inr)
      case (answered i l1 res s1)
      then show ?thesis
        using run_other [OF answered(2) inner_forward(2) assms(3)] inner_forward(1,3)
        by (intro reply [OF answered(1) _ _ _ answered(3)]) (auto intro: same_scratch_kept)
    qed (use inner_forward in auto)
  next
    case (inner_ack a c)
    then show ?thesis
      using run_write_ack [of n W H env c a s l s'] assms(2) sm write_kept by simp
  next
    case (inner_fill ms c)
    from assms(2) [unfolded sm n] show ?thesis
    proof (cases rule: run_sub_Inr)
      case (answered i l1 res s1)
      have "self_call m = Some (InternalBatch ms, [])"
        using inner_fill(1) by simp
      then obtain r s2 where "zkgm_execute H env \<lparr>sender = contract_address env, funds = []\<rparr> (InternalBatch ms) s = Inr (r, s2)"
          "run_subs ?f (z_messages r) s2 = Inr (l1, s1)"
        by (rule call_msg_self [OF _ answered(2)])
      then have "run_subs ?f (map plain ms) s = Inr (l1, s1)"
        by (auto simp: only_self_def)
      then have "same_scratch s s1 \<and> (\<forall>k\<in>set l1. \<not> writes_ack k)"
        using inner_fill(3) assms(3) by (rule run_others)
      then show ?thesis
        using inner_fill(2) answered(1) by (intro reply [OF answered(1) _ _ _ answered(3)]) (auto intro: same_scratch_kept)
    next
      case (failed i t)
      then show ?thesis
        using inner_fill(2) by (intro reply [OF _ _ _ _ failed(2)]) (auto simp: kept_def)
    qed (use inner_fill in auto)
  qed
qed

lemma run_inners:
  assumes "run_subs (run_sub n W H env) ms s = Inr (l, s')" "\<And>m. m \<in> set ms \<Longrightarrow> inner fwd m" "quiet_world W" "wide_codec H"
  shows "kept fwd s s' \<and> (\<forall>k\<in>set l. \<not> writes_ack k) \<and>
    ((\<exists>m\<in>set ms. snd m = ReplyAlways MM_RELAYER_FILL_REPLY_ID) \<longrightarrow> market_maker s' = None)"
  using assms(1,2)
proof (induction ms arbitrary: s l)
  case Nil
  then show ?case by (simp add: kept_def)
next
  case (Cons m ms)
  then obtain l1 s1 l2 where r: "run_sub n W H env m s = Inr (l1, s1)" "run_subs (run_sub n W H env) ms s1 = Inr (l2, s')" "l = l1 @ l2"
    by (auto simp: bindE_eq_Inr)
  have "inner fwd m"
    using Cons.prems(2) by simp
  note m = run_inner [OF this r(1) assms(3,4)]
  have rest: "kept fwd s1 s'" "\<forall>k\<in>set l2. \<not> writes_ack k" "(\<exists>m\<in>set ms. snd m = ReplyAlways MM_RELAYER_FILL_REPLY_ID) \<longrightarrow> market_maker s' = None"
    using Cons.IH [OF r(2)] Cons.prems(2) by simp_all
  have "market_maker s1 = None \<longrightarrow> market_maker s' = None"
    using rest(1) by (simp add: kept_def)
  then show ?case
    using m rest r(3) kept_trans [of fwd s s1 s'] by simp blast
qed

section \<open>Receiving a packet\<close>

definition idle :: "zkgm_state \<Rightarrow> bool" where
  "idle s \<longleftrightarrow> executing_packet s = None \<and> executing_packet_is_batch s = None \<and> execution_ack s = None \<and>
     batch_execution_acks s = None \<and> market_maker s = None \<and> created_proxy_account s = None"

definition forwards :: "'z zkgm_host_scheme \<Rightarrow> packet \<Rightarrow> bool" where
  "forwards H packet \<longleftrightarrow> (\<exists>z. dec_packet H (packet_data packet) = Some z \<and> i_opcode (zp_instruction z) = OP_FORWARD)"

text \<open>The state in which the reply finds the stores: one acknowledgement is there, and it is empty only for a forward.\<close>

definition answered_state :: "bool \<Rightarrow> packet \<Rightarrow> zkgm_state \<Rightarrow> bool" where
  "answered_state fwd packet s \<longleftrightarrow> executing_packet s = Some packet \<and> market_maker s = None \<and> created_proxy_account s = None \<and>
     (if executing_packet_is_batch s = None then batch_execution_acks s = None \<and> (fwd \<or> execution_ack s \<noteq> Some []) else execution_ack s = None)"

lemma executed_state:
  assumes "execute_packet H env info caller packet relayer msg intent s = Inr (r, s1)"
    and "run_subs (run_sub n W H env) (z_messages r) s1 = Inr (l, s')"
    and "idle (s\<lparr>executing_packet := None\<rparr>)" "executing_packet s = Some packet" "quiet_world W" "wide_codec H"
  shows "answered_state (forwards H packet) packet s' \<and> (\<forall>k\<in>set l. \<not> writes_ack k)"
proof -
  obtain z fs fs' s2 where z: "dec_packet H (packet_data packet) = Some z"
    and e: "execute_internal 2 H env caller packet relayer msg (zp_salt z) (zp_path z) (zp_instruction z) intent fs s = Inr (r, fs', s2)"
    and s1: "s1 = s2\<lparr>created_proxy_account := None\<rparr>"
    using assms(1) by (auto simp: execute_packet_def bindE_eq_Inr decode_Inr)
  have fwd: "forwards H packet \<longleftrightarrow> i_opcode (zp_instruction z) = OP_FORWARD"
    using z by (simp add: forwards_def)
  from e assms(6) show ?thesis
  proof (cases rule: execute_internal_tidy)
    case single
    note run = run_inners [OF assms(2) _ assms(5,6), of "forwards H packet"]
    show ?thesis
      using run single assms(3,4) unfolding fwd s1
      by (auto simp: tidy_def frame_def kept_def idle_def answered_state_def)
  next
    case (batch k)
    note run = run_inners [OF assms(2) _ assms(5,6), of False]
    show ?thesis
      using run batch assms(3,4) unfolding fwd s1
      by (auto simp: tidy_def frame_def kept_def idle_def answered_state_def)
  qed
qed

text \<open>The reply takes the acknowledgement out of the stores and leaves them empty.\<close>

lemma final_reply:
  assumes "execute_packet_reply H res s = Inr (r, s')" "(\<exists>d e. res = SubOk d e) \<and> answered_state fwd packet s \<or>
      (\<exists>t. res = SubErr t) \<and> idle (s\<lparr>executing_packet := None\<rparr>) \<and> executing_packet s = Some packet"
    "wide_codec H"
  shows "idle s' \<and> ((\<exists>h a. z_messages r = [plain (ToHost h (WriteAcknowledgement packet a))]) \<or> (z_messages r = [] \<and> fwd))"
proof (cases res)
  case (SubErr t)
  then show ?thesis
    using assms(1,2)
    by (auto simp: execute_packet_reply_def bindE_eq_Inr zread_Inr Let_def idle_def answered_state_def split: if_split_asm)
next
  case (SubOk d e)
  then have a: "answered_state fwd packet s"
    using assms(2) by simp
  then obtain config ack where c: "zk_config s = Some config" "take_execution_ack H (s\<lparr>executing_packet := None\<rparr>) = Inr (ack, s')"
      "z_messages r = (if ack \<noteq> [] then [plain (ToHost (zc_ibc_host config) (WriteAcknowledgement packet
         (enc_ack H \<lparr>ack_tag = TAG_ACK_SUCCESS, ack_inner = ack\<rparr>)))] else [])"
    using assms(1) SubOk by (auto simp: execute_packet_reply_def bindE_eq_Inr zread_Inr Let_def answered_state_def)
  from c(2) show ?thesis
    by (cases rule: take_execution_ack_Inr)
       (use a c(3) assms(3) in \<open>auto simp: idle_def answered_state_def wide_codec_def\<close>)
qed

lemma received_run:
  assumes "run_sub n W H env (SelfExecutePacket c caller packet relayer msg intent fs, ReplyAlways EXECUTE_PACKET_REPLY_ID) s = Inr (l, s')"
    "idle (s\<lparr>executing_packet := None\<rparr>)" "executing_packet s = Some packet" "quiet_world W" "wide_codec H"
  shows "idle s' \<and> ((\<exists>h a. filter writes_ack l = [ToHost h (WriteAcknowledgement packet a)]) \<or> (filter writes_ack l = [] \<and> forwards H packet))"
proof -
  obtain k where n: "n = Suc k"
    using assms(1) by (cases n) auto
  let ?f = "run_sub k W H env"
  have reply: ?thesis if r: "reply_msg ?f W H env EXECUTE_PACKET_REPLY_ID l1 res s1 = Inr (l, s')" and quiet: "\<forall>k\<in>set l1. \<not> writes_ack k"
    and st: "(\<exists>d e. res = SubOk d e) \<and> answered_state (forwards H packet) packet s1 \<or>
      (\<exists>t. res = SubErr t) \<and> idle (s1\<lparr>executing_packet := None\<rparr>) \<and> executing_packet s1 = Some packet" for l1 res s1
  proof -
    obtain r s2 l2 where e: "zkgm_reply H env EXECUTE_PACKET_REPLY_ID res s1 = Inr (r, s2)" "run_subs ?f (z_messages r) s2 = Inr (l2, s')" "l = l1 @ l2"
      by (rule reply_msg_Inr [OF r])
    have "execute_packet_reply H res s1 = Inr (r, s2)"
      using e(1) by (simp add: zkgm_reply_def Z_CONSUME_REPLY_ID_def reply_id_defs)
    note f = final_reply [OF this st assms(5)]
    have none: "filter writes_ack l1 = []"
      using quiet by (simp add: filter_empty_conv)
    show ?thesis
    proof (cases "z_messages r = []")
      case True
      then show ?thesis using f e(2,3) none by auto
    next
      case False
      then obtain h a where m: "z_messages r = [plain (ToHost h (WriteAcknowledgement packet a))]"
        using f by auto
      then obtain j where j: "k = Suc j" "run_sub (Suc j) W H env (plain (ToHost h (WriteAcknowledgement packet a))) s2 = Inr (l2, s')"
        using e(2) by (cases k) (auto simp: run_one)
      from j(2) obtain res' where "call_msg (run_sub j W H env) W H env (ToHost h (WriteAcknowledgement packet a)) s2 = Inr (l2, res', s')"
        by (cases rule: run_sub_Inr) auto
      moreover have "self_call (ToHost h (WriteAcknowledgement packet a)) = None"
        by simp
      ultimately obtain l3 d e where "w_call W (ToHost h (WriteAcknowledgement packet a)) s2 = (SubOk d e, l3, s')" "l2 = ToHost h (WriteAcknowledgement packet a) # l3"
        by (elim call_msg_other)
      then show ?thesis
        using f none e(3) assms(4) by (auto simp: quiet_world_def same_scratch_def idle_def filter_empty_conv)
    qed
  qed
  from assms(1) [unfolded n] show ?thesis
  proof (cases rule: run_sub_Inr)
    case (answered i l1 res s1)
    have "self_call (SelfExecutePacket c caller packet relayer msg intent fs) = Some (InternalExecutePacket caller packet relayer msg intent, fs)"
      by simp
    then obtain r s2 where "zkgm_execute H env \<lparr>sender = contract_address env, funds = fs\<rparr> (InternalExecutePacket caller packet relayer msg intent) s = Inr (r, s2)"
        and run: "run_subs ?f (z_messages r) s2 = Inr (l1, s1)" and ok: "res = SubOk None []"
      by (rule call_msg_self [OF _ answered(2)])
    then have "execute_packet H env \<lparr>sender = contract_address env, funds = fs\<rparr> caller packet relayer msg intent s = Inr (r, s2)"
      by (auto simp: bindE_eq_Inr)
    from executed_state [OF this run assms(2-5)] show ?thesis
      using answered(1,3) ok by (intro reply [of l1 res s1]) auto
  next
    case (failed i t)
    then show ?thesis
      using assms(2,3) by (intro reply [of "[]" "SubErr t" s]) auto
  qed simp
qed

section \<open>Every other call\<close>

definition simple :: "zkgm_sub_msg \<Rightarrow> bool" where
  "simple sm \<longleftrightarrow> (self_call (fst sm) = None \<and> snd sm = ReplyNever) \<or> (\<exists>c m. sm = (SelfRestricted c m, ReplyOnSuccess Z_CONSUME_REPLY_ID))"

definition calm :: "zkgm_state \<Rightarrow> zkgm_sub_msg list \<Rightarrow> zkgm_state \<Rightarrow> bool" where
  "calm s ms s' \<longleftrightarrow> same_scratch s s' \<and> (\<forall>m\<in>set ms. simple m)"

interpretation calm: message_law calm "\<lambda>_ _. True"
  by unfold_locales
     (auto simp: calm_def same_scratch_def simple_def increase_channel_balance_v2_def decrease_channel_balance_v2_def Let_def bindE_eq_Inr)

lemma migrate_balances_scratch: "migrate_balances ms s = Inr s' \<Longrightarrow> same_scratch s s'"
proof (induction ms arbitrary: s)
  case Nil
  then show ?case by (simp add: same_scratch_def)
next
  case (Cons m ms)
  obtain path ch base quote where m: "m = (path, ch, base, quote)"
    by (cases m) auto
  then obtain b s1 where b: "increase_channel_balance_v2 ch path base quote b s = Inr s1"
      "migrate_balances ms (s1\<lparr>deprecated_channel_balance_v1 := (deprecated_channel_balance_v1 s1)((ch, path, base) := None)\<rparr>) = Inr s'"
    using Cons.prems by (auto simp: Let_def bindE_eq_Inr split: option.split_asm if_split_asm)
  then show ?case
    using Cons.IH [OF b(2)] by (auto simp: increase_channel_balance_v2_def Let_def bindE_eq_Inr same_scratch_def)
qed

lemma restricted_calm:
  assumes "execute_zrestricted env info msg s = Inr (r, s')"
  shows "calm s (z_messages r) s'"
proof (cases msg)
  case (MigrateV1ToV2 balances wrapped)
  then show ?thesis
    using assms migrate_balances_scratch by (auto simp: migrate_v1_to_v2_def bindE_eq_Inr calm_def)
next
  case (ZUpgradable u)
  then show ?thesis
    using assms by (cases u) (auto simp: calm_def same_scratch_def simple_def)
qed (use assms in \<open>auto simp: bindE_eq_Inr calm_def same_scratch_def simple_def set_bucket_config_def update_zconfig_def pause_def unpause_def\<close>)

lemma zrestricted_calm:
  assumes "zkgm_execute H env info (ZRestricted msg) s = Inr (r, s')"
  shows "calm s (z_messages r) s'"
proof -
  obtain sched s1 where e: "z_ensure_can_call H env info msg s = Inr (sched, s1)"
      "(case sched of None \<Rightarrow> execute_zrestricted env info msg s1 | Some subs \<Rightarrow> Inr (z_respond [] subs, s1)) = Inr (r, s')"
    using assms by (auto simp: bindE_eq_Inr)
  from e(1) show ?thesis
    by (cases rule: z_ensure_can_call_Inr) (use e(2) restricted_calm in \<open>auto simp: calm_def same_scratch_def simple_def\<close>)
qed

lemma run_all_simple:
  assumes "run_subs f ms s = Inr (l, s')" "\<And>m. m \<in> set ms \<Longrightarrow> simple m"
    and "\<And>m s l s'. f m s = Inr (l, s') \<Longrightarrow> simple m \<Longrightarrow> same_scratch s s'"
  shows "same_scratch s s'"
  using assms(1,2)
proof (induction ms arbitrary: s l)
  case (Cons m ms)
  then obtain l1 s1 l2 where r: "f m s = Inr (l1, s1)" "run_subs f ms s1 = Inr (l2, s')"
    by (auto simp: bindE_eq_Inr)
  have "same_scratch s s1"
    using assms(3) [OF r(1)] Cons.prems(2) by simp
  moreover have "same_scratch s1 s'"
    using Cons.IH [OF r(2)] Cons.prems(2) by simp
  ultimately show ?case
    by (simp add: same_scratch_def)
qed (simp add: same_scratch_def)

lemma run_simple:
  assumes "run_sub n W H env sm s = Inr (l, s')" "simple sm" "quiet_world W"
  shows "same_scratch s s'"
  using assms(1,2)
proof (induction n arbitrary: sm s l s')
  case (Suc n)
  obtain m on where sm: "sm = (m, on)"
    by (cases sm) auto
  from Suc.prems(1) [unfolded sm] show ?case
  proof (cases rule: run_sub_Inr)
    case (never res)
    then have "self_call m = None"
      using Suc.prems(2) sm by (auto simp: simple_def)
    then obtain d e l' where "w_call W m s = (SubOk d e, l', s')"
      by (rule call_msg_other [OF _ never(2)])
    then show ?thesis
      using assms(3) unfolding quiet_world_def by blast
  next
    case (answered i l1 res s1)
    then obtain c r where m: "m = SelfRestricted c r" and i: "i = Z_CONSUME_REPLY_ID"
      using Suc.prems(2) sm by (auto simp: simple_def)
    have "self_call m = Some (ZRestricted r, [])"
      using m by simp
    then obtain rs s2 where e: "zkgm_execute H env \<lparr>sender = contract_address env, funds = []\<rparr> (ZRestricted r) s = Inr (rs, s2)"
        "run_subs (run_sub n W H env) (z_messages rs) s2 = Inr (l1, s1)"
      by (rule call_msg_self [OF _ answered(2)])
    then have "same_scratch s s1"
      using zrestricted_calm [OF e(1)] run_all_simple [OF e(2) _ Suc.IH] by (auto simp: calm_def same_scratch_def)
    moreover obtain r2 s3 k where "zkgm_reply H env i res s1 = Inr (r2, s3)" "run_subs (run_sub n W H env) (z_messages r2) s3 = Inr (k, s')"
      by (rule reply_msg_Inr [OF answered(3)])
    then have "s' = s1\<lparr>zk_consuming_schedule := Some False\<rparr>"
      using i by (cases res) (auto simp: zkgm_reply_def split: if_split_asm)
    ultimately show ?thesis
      by (simp add: same_scratch_def)
  next
    case (failed i t)
    then show ?thesis
      using Suc.prems(2) sm by (auto simp: simple_def)
  qed
qed simp

lemma run_simples:
  assumes "run_subs (run_sub n W H env) ms s = Inr (l, s')" "\<forall>m\<in>set ms. simple m" "quiet_world W"
  shows "same_scratch s s'"
  by (rule run_all_simple [OF assms(1)]) (use assms(2) run_simple [OF _ _ assms(3)] in auto)

section \<open>Calls from outside\<close>

definition outside :: "block_env \<Rightarrow> message_info \<Rightarrow> bool" where
  "outside env info \<longleftrightarrow> sender info \<noteq> contract_address env"

fun receives :: "packet \<Rightarrow> zkgm_execute_msg \<Rightarrow> bool" where
  "receives packet (IbcUnion (OnRecvPacket _ p _ _)) \<longleftrightarrow> p = packet"
| "receives packet (IbcUnion (OnIntentRecvPacket _ p _ _)) \<longleftrightarrow> p = packet"
| "receives packet _ \<longleftrightarrow> False"

lemma execute_calm:
  assumes "zkgm_execute H env info em s = Inr (r, s')" "outside env info" "\<And>p. \<not> receives p em"
  shows "calm s (z_messages r) s'"
proof (cases em)
  case (IbcUnion msg)
  then have "execute_ibc H env info msg s = Inr (r, s')"
    using assms(1) by (auto simp: bindE_eq_Inr)
  then show ?thesis
    using IbcUnion assms(3) by (cases msg) (auto simp: bindE_eq_Inr calm.silent intro: calm.packet_callbacks_law)
next
  case (Send ch timeout salt i)
  then show ?thesis
    using assms(1,2) by (auto simp: bindE_eq_Inr outside_def intro: calm.send_law)
next
  case (ZSetAuthority a)
  then show ?thesis
    using assms(1) by (auto simp: bindE_eq_Inr z_set_authority_def calm_def same_scratch_def split: if_split_asm)
next
  case (ZRestricted msg)
  then show ?thesis using assms(1) zrestricted_calm by blast
qed (use assms(1,2) in \<open>simp_all add: only_self_def outside_def\<close>)

lemma receive_dispatch:
  assumes "zkgm_run n W H env info em s = Inr (l, s')" "receives packet em"
  obtains c caller relayer msg intent fs where "executing_packet s = None"
    "run_sub n W H env (SelfExecutePacket c caller packet relayer msg intent fs, ReplyAlways EXECUTE_PACKET_REPLY_ID)
       (s\<lparr>executing_packet := Some packet\<rparr>) = Inr (l, s')"
proof -
  obtain r s1 where e: "zkgm_execute H env info em s = Inr (r, s1)" "run_subs (run_sub n W H env) (z_messages r) s1 = Inr (l, s')"
    using assms(1) by (auto simp: zkgm_run_def run_response_Inr as_run_Inr)
  obtain caller relayer msg intent where d: "dispatch_execute_packet H env info caller packet relayer msg intent s = Inr (r, s1)"
    using e(1) assms(2) by (cases "(packet, em)" rule: receives.cases) (auto simp: bindE_eq_Inr)
  then show thesis
    using e(2) that by (auto simp: dispatch_execute_packet_def bindE_eq_Inr ensureE_eq_Inr simp del: run_subs.simps simp add: run_one)
qed

lemma run_received:
  assumes "zkgm_run n W H env info em s = Inr (l, s')" "receives packet em" "idle s" "quiet_world W" "wide_codec H"
  shows "idle s' \<and> ((\<exists>h a. filter writes_ack l = [ToHost h (WriteAcknowledgement packet a)]) \<or> (filter writes_ack l = [] \<and> forwards H packet))"
proof (rule receive_dispatch [OF assms(1,2)])
  fix c caller relayer msg intent fs
  assume "run_sub n W H env (SelfExecutePacket c caller packet relayer msg intent fs, ReplyAlways EXECUTE_PACKET_REPLY_ID)
       (s\<lparr>executing_packet := Some packet\<rparr>) = Inr (l, s')"
  then show ?thesis
    by (rule received_run) (use assms(3-5) in \<open>simp_all add: idle_def\<close>)
qed

text \<open>C9: a received packet is acknowledged once. When the transaction that delivers a packet succeeds, the contract
  has asked the host to write exactly one acknowledgement, and it is for this packet. The only packets
  that are left without one are forwards, whose acknowledgement comes from the next hop. This holds whatever the
  other contracts answer, failures and market makers included.
\<close>

theorem packet_acknowledged_once:
  assumes "zkgm_run n W H env info em s = Inr (l, s')" "receives packet em" "idle s" "quiet_world W" "wide_codec H"
  shows "(\<exists>h a. filter writes_ack l = [ToHost h (WriteAcknowledgement packet a)]) \<or> (filter writes_ack l = [] \<and> forwards H packet)"
  using run_received [OF assms] by blast

text \<open>C38: the stores in which the parts of an execution leave their results for each other (the packet being
  executed, the acknowledgements so far, the market maker, the proxy account) are empty between transactions: a call from outside
  that finds them empty leaves them empty, so no packet sees what another one left.
\<close>

theorem idle_between_calls:
  assumes "zkgm_run n W H env info em s = Inr (l, s')" "outside env info" "idle s" "quiet_world W" "wide_codec H"
  shows "idle s'"
proof (cases "\<exists>p. receives p em")
  case True
  then show ?thesis
    using run_received [OF assms(1) _ assms(3-5)] by blast
next
  case False
  obtain r s1 where e: "zkgm_execute H env info em s = Inr (r, s1)" "run_subs (run_sub n W H env) (z_messages r) s1 = Inr (l, s')"
    using assms(1) by (auto simp: zkgm_run_def run_response_Inr as_run_Inr)
  have c: "calm s (z_messages r) s1"
    using execute_calm [OF e(1) assms(2)] False by blast
  have "same_scratch s1 s'"
    using run_simples [OF e(2) _ assms(4)] c unfolding calm_def by blast
  then show ?thesis
    using assms(3) c by (simp add: calm_def same_scratch_def idle_def)
qed

end
