(* ===== verification/Zkgm_Fuel.thy ===== *)
theory Zkgm_Fuel
  imports Zkgm_Ack
begin

text \<open>
  The numbers that bound the recursions of the zkgm application are large enough: instructions nest three deep when
  they are sent, two deep when they are executed or settled, and a transaction calls the contract three deep.
  Each recursion gives the same result with any larger number, and never runs out.
\<close>

section \<open>Instructions\<close>

definition finishes :: "zkgm_error + 'a \<Rightarrow> bool" where
  "finishes m \<longleftrightarrow> m \<noteq> Inl ZOutOfFuel"

named_theorems settled \<open>operations that do not run out of fuel\<close>

lemma bind_settled: "finishes m \<Longrightarrow> (\<And>a. m = Inr a \<Longrightarrow> finishes (f a)) \<Longrightarrow> finishes (bindE m f)"
  by (cases m) (simp_all add: finishes_def)

lemma basic_settled [settled]:
  "finishes (zread x)" "finishes (decode x)" "finishes (zexpect t x)" "finishes (to_u128 a)"
  "finishes (map_err ZStd m)" "finishes (map_err TokenBucketErr b)" "finishes (coins_sub f d c)" "finishes (Inr y)"
  by (auto simp: finishes_def zread_def decode_def zexpect_def to_u128_def map_err_eq_Inl ok_or_eq_Inl coins_sub_def)

lemma error_settled [settled]: "e \<noteq> ZOutOfFuel \<Longrightarrow> finishes (Inl e)" "e \<noteq> ZOutOfFuel \<Longrightarrow> finishes (ensureE b e)" "e \<noteq> ZOutOfFuel \<Longrightarrow> finishes (ok_or e x)"
  by (auto simp: finishes_def ensureE_eq_Inl ok_or_eq_Inl)

lemma validate_settled [settled]: "e \<noteq> ZOutOfFuel \<Longrightarrow> e' \<noteq> ZOutOfFuel \<Longrightarrow> finishes (validate_bytes H e e' a)"
  by (auto simp: finishes_def validate_bytes_def bindE_eq_Inl ok_or_eq_Inl map_err_eq_Inl)

lemma path_settled [settled]: "finishes (dequeue_channel_from_path p)" "finishes (update_channel_path p c)"
  by (auto simp: dequeue_channel_from_path_def update_channel_path_def Let_def intro!: bind_settled settled)

lemma reverse_settled [settled]: "finishes (reverse_channel_path p)"
proof -
  have "finishes (reverse_loop p q)" for q
  proof (induction p q rule: reverse_loop.induct)
    case (1 path reversed)
    show ?case
      by (subst reverse_loop.simps, rule bind_settled) (auto simp: 1 split: option.splits intro: settled)
  qed
  then show ?thesis
    by (simp add: reverse_channel_path_def)
qed

lemma take_coin_settled [settled]: "finishes (take_coin f d a)"
  by (auto simp: take_coin_def intro!: bind_settled settled)

lemma balance_settled [settled]:
  "finishes (increase_channel_balance_v2 ch path base quote a s)" "finishes (decrease_channel_balance_v2 ch path base quote a s)"
  by (auto simp: increase_channel_balance_v2_def decrease_channel_balance_v2_def Let_def intro!: bind_settled settled split: option.split)

lemma rate_limit_settled [settled]: "finishes (rate_limit d a now s)"
  unfolding rate_limit_def by (auto intro!: bind_settled settled split: option.split)

lemma predict_settled [settled]:
  "finishes (predict_wrapped_token H m p c t)" "finishes (predict_wrapped_token_from_metadata_image_v2 H m p c t h)"
  "finishes (predict_wrapped_token_v2 H m p c t d)" "finishes (get_burn_address H)"
  by (simp_all add: predict_wrapped_token_def predict_wrapped_token_from_metadata_image_v2_def predict_wrapped_token_v2_def get_burn_address_def settled)

lemma verify_call_settled [settled]: "finishes (verify_call c a)"
  by (auto simp: verify_call_def intro!: bind_settled settled)

lemma verify_v2_settled [settled]: "finishes (verify_token_order_v2 H info ch path order fs s)"
  by (auto simp: verify_token_order_v2_def Let_def case_prod_beta intro!: bind_settled settled)

lemma verify_v1_settled [settled]: "finishes (verify_token_order_v1 H info ch path order fs s)"
  by (auto simp: verify_token_order_v1_def Let_def case_prod_beta intro!: bind_settled settled)

lemma only_version_0_settled [settled]: "finishes (only_version_0 i)"
  by (simp add: only_version_0_def settled)

text \<open>Members of a batch do not nest; a batch has members, and a forward has either.\<close>

lemma verify_leaf:
  assumes "is_allowed_batch_instruction (i_opcode i)"
  shows "verify_internal (Suc n) H info ch path i fs s = verify_internal (Suc 0) H info ch path i fs s \<and> finishes (verify_internal (Suc 0) H info ch path i fs s)"
  using assms by (auto simp: is_allowed_batch_instruction_def opcode_defs intro!: bind_settled settled)

lemma verify_batch_cong:
  assumes "\<And>i fs s. is_allowed_batch_instruction (i_opcode i) \<Longrightarrow> f i fs s = g i fs s \<and> finishes (g i fs s)"
  shows "verify_batch f is fs s = verify_batch g is fs s \<and> finishes (verify_batch g is fs s)"
proof (induction "is" arbitrary: fs s)
  case (Cons i "is")
  show ?case
  proof (cases "is_allowed_batch_instruction (i_opcode i)")
    case True
    show ?thesis
      using assms [OF True, of fs s] Cons True by (auto simp: case_prod_beta intro!: bind_settled settled)
  qed (simp add: settled)
qed (simp add: settled)

lemma verify_flat_step:
  assumes "i_opcode i \<noteq> OP_FORWARD"
    and b: "\<And>is fs s. verify_batch (verify_internal m H info ch path) is fs s = verify_batch (verify_internal m' H info ch path) is fs s \<and>
      finishes (verify_batch (verify_internal m' H info ch path) is fs s)"
  shows "verify_internal (Suc m) H info ch path i fs s = verify_internal (Suc m') H info ch path i fs s \<and> finishes (verify_internal (Suc m') H info ch path i fs s)"
  using assms(1) b by (auto intro!: bind_settled settled)

lemma verify_forward_step:
  assumes "i_opcode i = OP_FORWARD"
    and b: "\<And>path i fs s. i_opcode i \<noteq> OP_FORWARD \<Longrightarrow> verify_internal m H info ch path i fs s = verify_internal m' H info ch path i fs s \<and>
      finishes (verify_internal m' H info ch path i fs s)"
  shows "verify_internal (Suc m) H info ch path i fs s = verify_internal (Suc m') H info ch path i fs s \<and> finishes (verify_internal (Suc m') H info ch path i fs s)"
proof -
  have "bindE (ensureE (is_allowed_forward_instruction (i_opcode (fw_instruction fw))) InvalidForwardInstruction) (\<lambda>_.
        verify_internal m H info ch (fw_path fw) (fw_instruction fw) fs s) =
      bindE (ensureE (is_allowed_forward_instruction (i_opcode (fw_instruction fw))) InvalidForwardInstruction) (\<lambda>_.
        verify_internal m' H info ch (fw_path fw) (fw_instruction fw) fs s) \<and>
      finishes (bindE (ensureE (is_allowed_forward_instruction (i_opcode (fw_instruction fw))) InvalidForwardInstruction) (\<lambda>_.
        verify_internal m' H info ch (fw_path fw) (fw_instruction fw) fs s))" for fw
    using b [of "fw_instruction fw" "fw_path fw" fs s]
    by (cases "is_allowed_forward_instruction (i_opcode (fw_instruction fw))")
       (auto simp: is_allowed_forward_instruction_def opcode_defs finishes_def)
  then show ?thesis
    using assms(1) by (simp add: opcode_defs) (auto intro: bind_settled settled)
qed

lemma verify_enough:
  "verify_internal (3 + n) H info ch path i fs s = verify_internal 3 H info ch path i fs s \<and> finishes (verify_internal 3 H info ch path i fs s)"
proof -
  have flat: "i_opcode i \<noteq> OP_FORWARD \<Longrightarrow> verify_internal (Suc (Suc n)) H info ch path i fs s = verify_internal (Suc (Suc 0)) H info ch path i fs s \<and>
      finishes (verify_internal (Suc (Suc 0)) H info ch path i fs s)" for n path i fs s
    by (rule verify_flat_step, assumption) (rule verify_batch_cong [OF verify_leaf])
  have "verify_internal (Suc (Suc (Suc n))) H info ch path i fs s = verify_internal (Suc (Suc (Suc 0))) H info ch path i fs s \<and>
      finishes (verify_internal (Suc (Suc (Suc 0))) H info ch path i fs s)"
  proof (cases "i_opcode i = OP_FORWARD")
    case True
    then show ?thesis by (rule verify_forward_step) (rule flat)
  next
    case False
    then show ?thesis
      using flat [OF False, of "Suc n"] flat [OF False, of "Suc 0"] by metis
  qed
  then show ?thesis
    by (simp only: numeral_3_eq_3 add_Suc add_0)
qed

text \<open>Executing.\<close>

lemma fill_settled [settled]:
  "finishes (market_maker_fill env caller msg q denom minter receiver fs s)"
  "finishes (relayer_market_maker_fill_v2 H env caller minter order fs s)"
  "finishes (solver_market_maker_fill_v2 H caller relayer msg path packet order intent)"
  by (auto simp: market_maker_fill_def relayer_market_maker_fill_v2_def solver_market_maker_fill_v2_def case_prod_beta intro!: bind_settled settled)

lemma fill_v2_settled [settled]: "finishes (market_maker_fill_v2 H env caller relayer msg minter path packet order intent fs s)"
  by (auto simp: market_maker_fill_v2_def intro!: bind_settled settled)

lemma deploy_settled [settled]:
  "finishes (deploy_v1 minter ch path wrapped order s)" "finishes (deploy_v2 H minter ch path base_token wrapped metadata can_deploy s)"
  by (auto simp: deploy_v1_def deploy_v2_def intro!: bind_settled settled split: option.split)

lemma protocol_fill_settled [settled]:
  "finishes (protocol_fill_mint H env ch path base_token wrapped receiver relayer b q metadata can_deploy s)"
  "finishes (protocol_fill_unescrow_v2 H env ch path base_token quote receiver relayer b q s)"
  by (auto simp: protocol_fill_mint_def protocol_fill_unescrow_v2_def case_prod_beta intro!: bind_settled settled)

lemma wrapped_token_settled [settled]: "finishes (wrapped_token_v2 H minter path ch order quote metadata s)"
  by (auto simp: wrapped_token_v2_def Let_def intro!: bind_settled settled split: option.split)

lemma execute_order_settled [settled]:
  "finishes (execute_token_order_v1 H env caller packet relayer msg path order1 intent fs s)"
  "finishes (execute_token_order_v2 H env caller packet relayer msg path order2 intent fs s)"
  by (auto simp: execute_token_order_v1_def execute_token_order_v2_def Let_def case_prod_beta intro!: bind_settled settled)

lemma proxy_settled [settled]: "finishes (predict_call_proxy_account H env cps s)"
  by (auto simp: predict_call_proxy_account_def get_code_hash_def intro!: bind_settled settled)

lemma execute_call_settled [settled]: "finishes (execute_call H env caller packet relayer msg path call intent s)"
  by (auto simp: execute_call_def Let_def case_prod_beta intro!: bind_settled settled)

lemma execute_forward_settled [settled]: "finishes (execute_forward H env packet salt path fw intent s)"
  by (auto simp: execute_forward_def case_prod_beta intro!: bind_settled settled)

lemma with_purse_settled [settled]: "finishes m \<Longrightarrow> finishes (with_purse fs m)"
  by (auto simp: with_purse_def case_prod_beta intro!: bind_settled settled)

lemma execute_leaf:
  assumes "is_allowed_batch_instruction (i_opcode i)"
  shows "execute_internal (Suc n) H env caller packet relayer msg salt path i intent fs s = execute_internal (Suc 0) H env caller packet relayer msg salt path i intent fs s \<and>
    finishes (execute_internal (Suc 0) H env caller packet relayer msg salt path i intent fs s)"
  using assms by (auto simp: is_allowed_batch_instruction_def opcode_defs intro!: bind_settled settled)

lemma execute_batch_cong:
  assumes "\<And>k i fs s. is_allowed_batch_instruction (i_opcode i) \<Longrightarrow> f k i fs s = g k i fs s \<and> finishes (g k i fs s)"
  shows "execute_batch f k is fs s = execute_batch g k is fs s \<and> finishes (execute_batch g k is fs s)"
proof (induction "is" arbitrary: k fs s)
  case (Cons i "is")
  show ?case
  proof (cases "is_allowed_batch_instruction (i_opcode i)")
    case True
    show ?thesis
      using assms [OF True, of k fs s] Cons True by (auto simp: case_prod_beta intro!: bind_settled settled)
  qed (simp add: settled)
qed (simp add: settled)

lemma execute_enough:
  "execute_internal (2 + n) H env caller packet relayer msg salt path i intent fs s = execute_internal 2 H env caller packet relayer msg salt path i intent fs s \<and>
   finishes (execute_internal 2 H env caller packet relayer msg salt path i intent fs s)"
proof -
  have step: "execute_internal (Suc m) H env caller packet relayer msg salt path i intent fs s = execute_internal (Suc m') H env caller packet relayer msg salt path i intent fs s \<and>
      finishes (execute_internal (Suc m') H env caller packet relayer msg salt path i intent fs s)"
    if "\<And>k is fs s. execute_batch (\<lambda>k i. execute_internal m H env caller packet relayer msg (derive_batch_salt H k salt) path i intent) k is fs s =
        execute_batch (\<lambda>k i. execute_internal m' H env caller packet relayer msg (derive_batch_salt H k salt) path i intent) k is fs s \<and>
      finishes (execute_batch (\<lambda>k i. execute_internal m' H env caller packet relayer msg (derive_batch_salt H k salt) path i intent) k is fs s)" for m m'
    using that by (auto intro!: bind_settled settled)
  have "execute_internal (Suc (Suc n)) H env caller packet relayer msg salt path i intent fs s = execute_internal (Suc (Suc 0)) H env caller packet relayer msg salt path i intent fs s \<and>
      finishes (execute_internal (Suc (Suc 0)) H env caller packet relayer msg salt path i intent fs s)"
    by (rule step) (rule execute_batch_cong [OF execute_leaf])
  then show ?thesis
    by (simp only: numeral_2_eq_2 add_Suc add_0)
qed


section \<open>Transactions\<close>

definition runs :: "run_error + 'a \<Rightarrow> bool" where
  "runs m \<longleftrightarrow> m \<noteq> Inl RunOutOfFuel"

lemma bind_runs: "runs m \<Longrightarrow> (\<And>a. m = Inr a \<Longrightarrow> runs (f a)) \<Longrightarrow> runs (bindE m f)"
  by (cases m) (simp_all add: runs_def)

lemma basic_runs: "runs (as_run W m)" "runs (Inr a)"
  by (cases m; simp add: runs_def) (simp add: runs_def)

lemma run_subs_runs:
  assumes "\<And>m s. m \<in> set ms \<Longrightarrow> runs (f m s)"
  shows "runs (run_subs f ms s)"
  using assms by (induction ms arbitrary: s) (auto simp: case_prod_beta basic_runs intro!: bind_runs)

lemma run_response_runs:
  assumes "\<And>r s' m s. w = Inr (r, s') \<Longrightarrow> m \<in> set (z_messages r) \<Longrightarrow> runs (f m s)"
  shows "runs (run_response f (as_run W w))"
  unfolding run_response_def
  by (rule bind_runs) (use assms in \<open>auto simp: as_run_Inr basic_runs intro!: run_subs_runs\<close>)

lemma plain_runs:
  assumes "self_call m = None"
  shows "runs (run_sub (Suc n) W H env (plain m) s)"
  using assms by (auto simp: call_msg_def runs_def split: prod.splits sub_result.splits)

lemma write_runs: "runs (run_sub (Suc n) W H env (plain (SelfWriteAck c a)) s)"
  by (simp add: call_msg_def run_response_def only_self_def runs_def)

lemma run_sub_runs:
  assumes "runs (call_msg (run_sub n W H env) W H env m s)"
    and "\<And>i l res s'. on = ReplyAlways i \<or> on = ReplyOnSuccess i \<Longrightarrow> runs (reply_msg (run_sub n W H env) W H env i l res s')"
  shows "runs (run_sub (Suc n) W H env (m, on) s)"
proof (cases "call_msg (run_sub n W H env) W H env m s")
  case (Inl e)
  then obtain t where "e = RunErr t"
    using assms(1) by (cases e) (simp_all add: runs_def)
  then show ?thesis
    using Inl assms(2) by (cases on) (simp_all add: runs_def)
next
  case (Inr x)
  then show ?thesis
    using assms(2) by (cases x; cases on) (simp_all add: basic_runs)
qed

lemma inner_reply_messages:
  assumes "zkgm_reply H env i res s = Inr (r, s')"
    "i = CALL_REPLY_ID \<or> i = MM_SOLVER_FILL_REPLY_ID \<or> i = MM_RELAYER_FILL_REPLY_ID \<or> i = FORWARD_REPLY_ID"
  shows "\<forall>m\<in>set (z_messages r). \<exists>a. m = write_ack env a"
  using assms
  by (cases res)
     (auto simp: zkgm_reply_def Z_CONSUME_REPLY_ID_def reply_id_defs call_reply_def solver_reply_def maker_reply_def forward_reply_def
       Let_def bindE_eq_Inr split: option.split_asm)

lemma inner_reply_runs:
  assumes "i = CALL_REPLY_ID \<or> i = MM_SOLVER_FILL_REPLY_ID \<or> i = MM_RELAYER_FILL_REPLY_ID \<or> i = FORWARD_REPLY_ID"
  shows "runs (reply_msg (run_sub (Suc n) W H env) W H env i l res s)"
  unfolding reply_msg_def
proof (rule bind_runs)
  show "runs (run_response (run_sub (Suc n) W H env) (as_run W (zkgm_reply H env i res s)))"
  proof (rule run_response_runs)
    fix r s' m t
    assume "zkgm_reply H env i res s = Inr (r, s')" "m \<in> set (z_messages r)"
    then obtain a where "m = write_ack env a"
      using inner_reply_messages assms by blast
    then show "runs (run_sub (Suc n) W H env m t)"
      using write_runs by (simp only: write_ack_def)
  qed
qed (simp add: case_prod_beta basic_runs)

lemma other_runs: "self_call m = None \<Longrightarrow> runs (call_msg f W H env m s)"
  by (auto simp: call_msg_def runs_def split: prod.splits sub_result.splits)

lemma inner_runs:
  assumes "inner fwd sm"
  shows "runs (run_sub (Suc (Suc n)) W H env sm s)"
  using assms
proof cases
  case (inner_fill ms c)
  have "runs (call_msg (run_sub (Suc n) W H env) W H env (SelfBatch c ms) s)"
    unfolding call_msg_def self_call.simps option.case prod.case
    by (rule bind_runs, rule run_response_runs)
       (use inner_fill(2) in \<open>auto simp: only_self_def case_prod_beta basic_runs other_msg_def intro!: plain_runs simp del: run_sub.simps\<close>)
  then show ?thesis
    unfolding inner_fill(1) by (rule run_sub_runs) (auto intro!: inner_reply_runs)
next
  case (inner_ack a c)
  then show ?thesis by (simp only: write_runs)
qed (auto simp: other_msg_def simp del: run_sub.simps intro!: run_sub_runs other_runs inner_reply_runs)

lemma received_runs: "runs (run_sub (Suc (Suc (Suc n))) W H env (SelfExecutePacket c caller packet relayer msg intent fs, ReplyAlways EXECUTE_PACKET_REPLY_ID) s)"
proof (rule run_sub_runs)
  show "runs (call_msg (run_sub (Suc (Suc n)) W H env) W H env (SelfExecutePacket c caller packet relayer msg intent fs) s)"
    unfolding call_msg_def self_call.simps option.case prod.case
  proof (rule bind_runs, rule run_response_runs)
    fix r s' m t
    assume "zkgm_execute H env \<lparr>sender = contract_address env, funds = fs\<rparr> (InternalExecutePacket caller packet relayer msg intent) s = Inr (r, s')"
      and m: "m \<in> set (z_messages r)"
    then obtain salt path i fs1 fs' s1 where "execute_internal 2 H env caller packet relayer msg salt path i intent fs1 s = Inr (r, fs', s1)"
      by (auto simp: bindE_eq_Inr execute_packet_def)
    then have "inner True m"
      using m execute_internal_inner by blast
    then show "runs (run_sub (Suc (Suc n)) W H env m t)"
      by (rule inner_runs)
  qed (simp add: case_prod_beta basic_runs)
next
  fix i l res s'
  assume "ReplyAlways EXECUTE_PACKET_REPLY_ID = ReplyAlways i \<or> ReplyAlways EXECUTE_PACKET_REPLY_ID = ReplyOnSuccess i"
  then have i: "i = EXECUTE_PACKET_REPLY_ID" by simp
  have host: "zkgm_reply H env i res s' = Inr (r, t) \<Longrightarrow> m \<in> set (z_messages r) \<Longrightarrow> \<exists>h hm. m = plain (ToHost h hm)" for r t m
    unfolding i
    by (cases res)
       (auto simp: zkgm_reply_def Z_CONSUME_REPLY_ID_def reply_id_defs execute_packet_reply_def Let_def bindE_eq_Inr split: if_split_asm)
  show "runs (reply_msg (run_sub (Suc (Suc n)) W H env) W H env i l res s')"
    unfolding reply_msg_def
  proof (rule bind_runs, rule run_response_runs)
    fix r t m u
    assume "zkgm_reply H env i res s' = Inr (r, t)" "m \<in> set (z_messages r)"
    then obtain h hm where "m = plain (ToHost h hm)"
      using host by blast
    then show "runs (run_sub (Suc (Suc n)) W H env m u)"
      by (simp only: plain_runs self_call.simps)
  qed (simp add: case_prod_beta basic_runs)
qed

text \<open>A run that does not run out is the same one level deeper.\<close>

definition extends :: "(zkgm_sub_msg \<Rightarrow> zkgm_state \<Rightarrow> run_result) \<Rightarrow> (zkgm_sub_msg \<Rightarrow> zkgm_state \<Rightarrow> run_result) \<Rightarrow> bool" where
  "extends f g \<longleftrightarrow> (\<forall>m s. runs (f m s) \<longrightarrow> g m s = f m s)"

lemma run_subs_extends:
  assumes "extends f g" "runs (run_subs f ms s)"
  shows "run_subs g ms s = run_subs f ms s"
  using assms(2)
proof (induction ms arbitrary: s)
  case (Cons m ms)
  have m: "runs (f m s)"
    using Cons.prems by (cases "f m s") (auto simp: runs_def)
  then have g: "g m s = f m s"
    using assms(1) unfolding extends_def by blast
  show ?case
  proof (cases "f m s")
    case (Inr x)
    then have "runs (run_subs f ms (snd x))"
      using Cons.prems by (cases x; cases "run_subs f ms (snd x)") (auto simp: runs_def)
    then show ?thesis
      using Cons.IH g Inr by (cases x) simp
  qed (use g in simp)
qed simp

lemma run_response_extends:
  assumes "extends f g" "runs (run_response f w)"
  shows "run_response g w = run_response f w"
  using assms run_subs_extends by (cases w) (auto simp: run_response_def)

lemma reply_msg_extends:
  assumes "extends f g" "runs (reply_msg f W H env i l res s)"
  shows "reply_msg g W H env i l res s = reply_msg f W H env i l res s"
proof -
  have "runs (run_response f (as_run W (zkgm_reply H env i res s)))"
    using assms(2) by (cases "run_response f (as_run W (zkgm_reply H env i res s))") (auto simp: reply_msg_def runs_def)
  then show ?thesis
    using run_response_extends [OF assms(1)] by (simp add: reply_msg_def)
qed

lemma call_msg_extends:
  assumes "extends f g" "runs (call_msg f W H env m s)"
  shows "call_msg g W H env m s = call_msg f W H env m s"
proof (cases "self_call m")
  case (Some x)
  obtain em fs where x: "x = (em, fs)"
    by (cases x) auto
  let ?w = "as_run W (zkgm_execute H env \<lparr>sender = contract_address env, funds = fs\<rparr> em s)"
  have "runs (run_response f ?w)"
    using assms(2) Some x by (cases "run_response f ?w") (auto simp: call_msg_def runs_def)
  then show ?thesis
    using run_response_extends [OF assms(1)] Some x by (simp add: call_msg_def)
qed (simp add: call_msg_def)

lemma run_sub_extends: "extends (run_sub n W H env) (run_sub (Suc n) W H env)"
proof (induction n)
  case 0
  then show ?case by (simp add: extends_def runs_def)
next
  case (Suc n)
  let ?f = "run_sub n W H env" and ?g = "run_sub (Suc n) W H env"
  have "run_sub (Suc (Suc n)) W H env (m, on) s = run_sub (Suc n) W H env (m, on) s" if r: "runs (run_sub (Suc n) W H env (m, on) s)" for m on s
  proof -
    have c: "runs (call_msg ?f W H env m s)"
      using r by (auto simp: runs_def)
    note call = call_msg_extends [OF Suc c]
    show ?thesis
    proof (cases "call_msg ?f W H env m s")
      case (Inl e)
      then show ?thesis
        unfolding run_sub.simps(2) [of "Suc n"] run_sub.simps(2) [of n] fst_conv snd_conv call
        using c r reply_msg_extends [OF Suc] by (cases e; cases on) (auto simp: runs_def)
    next
      case (Inr x)
      then show ?thesis
        unfolding run_sub.simps(2) [of "Suc n"] run_sub.simps(2) [of n] fst_conv snd_conv call
        using r reply_msg_extends [OF Suc] by (cases x; cases on) auto
    qed
  qed
  then show ?case
    by (auto simp: extends_def simp del: run_sub.simps)
qed

lemma run_sub_deeper: "runs (run_sub n W H env sm s) \<Longrightarrow> run_sub (n + k) W H env sm s = run_sub n W H env sm s"
proof (induction k)
  case (Suc k)
  then show ?case
    using run_sub_extends [of "n + k" W H env] unfolding extends_def by (metis add_Suc_right)
qed simp

text \<open>Sends, acknowledgements and timeouts only have messages for other contracts.\<close>

definition plainly :: "zkgm_sub_msg list \<Rightarrow> bool" where
  "plainly ms \<longleftrightarrow> (\<forall>m\<in>set ms. snd m = ReplyNever \<and> self_call (fst m) = None)"

interpretation plain_law: message_law "\<lambda>_ ms _. plainly ms" "\<lambda>_ _. True"
  by unfold_locales (auto simp: plainly_def)

lemma execute_plainly:
  assumes "zkgm_execute H env info em s = Inr (r, s')" "(\<exists>msg. em = IbcUnion msg) \<or> (\<exists>ch t salt i. em = Send ch t salt i)" "\<And>p. \<not> receives p em"
  shows "plainly (z_messages r)"
proof (cases em)
  case (IbcUnion msg)
  then have "execute_ibc H env info msg s = Inr (r, s')"
    using assms(1) by (auto simp: bindE_eq_Inr)
  then show ?thesis
    using IbcUnion assms(3) by (cases msg) (auto simp: bindE_eq_Inr plainly_def [of "[]"] intro: plain_law.packet_callbacks_law)
next
  case (Send ch t salt i)
  then show ?thesis
    using assms(1) by (auto simp: bindE_eq_Inr intro: plain_law.send_law)
qed (use assms(2) in auto)

lemma plainly_runs:
  assumes "plainly ms" "m \<in> set ms"
  shows "runs (run_sub (Suc n) W H env m t)"
proof -
  obtain x where "m = plain x" "self_call x = None"
    using assms by (cases m) (auto simp: plainly_def)
  then show ?thesis
    using plain_runs by blast
qed

text \<open>C29: a transaction calls the contract three levels deep at most: the callback or the send, the execution of the
  packet, and a fill or the note of an acknowledgement. For every callback of the host and every send the run
  at depth three does not run out, whatever the other contracts do, and at any larger depth it is the same.
\<close>

theorem run_depth_enough:
  assumes "(\<exists>msg. em = IbcUnion msg) \<or> (\<exists>ch t salt i. em = Send ch t salt i)"
  shows "zkgm_run 3 W H env info em s \<noteq> Inl RunOutOfFuel \<and> zkgm_run (3 + k) W H env info em s = zkgm_run 3 W H env info em s"
proof -
  let ?f = "run_sub 3 W H env"
  have f: "runs (?f m t)" if e: "zkgm_execute H env info em s = Inr (r, s')" and m: "m \<in> set (z_messages r)" for r s' m t
  proof (cases "\<exists>p. receives p em")
    case True
    then obtain p where "receives p em" by blast
    then obtain caller relayer msg intent where "dispatch_execute_packet H env info caller p relayer msg intent s = Inr (r, s')"
      using e by (cases "(p, em)" rule: receives.cases) (auto simp: bindE_eq_Inr)
    then obtain c caller relayer fs where "m = (SelfExecutePacket c caller p relayer msg intent fs, ReplyAlways EXECUTE_PACKET_REPLY_ID)"
      using m by (auto simp: dispatch_execute_packet_def bindE_eq_Inr)
    then show ?thesis
      unfolding numeral_3_eq_3 by (simp only: received_runs)
  next
    case False
    then show ?thesis
      unfolding numeral_3_eq_3 using plainly_runs [OF execute_plainly [OF e assms] m] by blast
  qed
  then have r: "runs (run_response ?f (as_run W (zkgm_execute H env info em s)))"
    by (intro run_response_runs)
  have "extends ?f (run_sub (3 + k) W H env)"
    unfolding extends_def using run_sub_deeper by blast
  then show ?thesis
    using run_response_extends [OF _ r] r by (simp only: zkgm_run_def runs_def simp_thms)
qed

end
