(* ===== verification/Zkgm_Safety.thy ===== *)
theory Zkgm_Safety
  imports Zkgm_Books Zkgm_Fuel
begin

text \<open>
  What the zkgm application guarantees: over every sequence of transactions the channel balances are covered by what the minter
  holds in escrow; only a callback of the host pays tokens out; who may call what; a protocol
  fill pays exactly the base amount; and an order that times out or fails goes back to where it came from.
\<close>

section \<open>Sequences of transactions\<close>

text \<open>
  Each transaction is a call from outside, with its own block, host and environment, and with other contracts of
  which \<open>Q\<close> is known; the log is what they sent.
\<close>

inductive zkgm_trace :: "(world \<Rightarrow> bool) \<Rightarrow> zkgm_state \<Rightarrow> zkgm_msg list \<Rightarrow> zkgm_state \<Rightarrow> bool" for Q s0 where
  trace_start: "zkgm_trace Q s0 [] s0"
| trace_call: "zkgm_trace Q s0 l s \<Longrightarrow> outside env info \<Longrightarrow> token_minter s \<noteq> Some (sender info) \<Longrightarrow> Q W \<Longrightarrow>
    zkgm_run n W (H :: zkgm_host) env info em s = Inr (k, s') \<Longrightarrow> zkgm_trace Q s0 (l @ k) s'"
| trace_migrate: "zkgm_trace Q s0 l s \<Longrightarrow> zkgm_migrate (H :: zkgm_host) env m s = Inr (r, s') \<Longrightarrow> zkgm_trace Q s0 l s'"

lemma outside_fair:
  assumes "outside env info" "token_minter s \<noteq> Some (sender info)"
  shows "fair_call env info em s"
  using assms by (cases em) (simp_all add: outside_def)

lemma migrate_same_books:
  assumes "zkgm_migrate H env m s = Inr (r, s')"
  shows "same_books s s'"
proof (cases "zk_version s")
  case None
  then show ?thesis
    using assms
    by (cases m) (auto simp: zkgm_migrate_def upgrade_run_def zkgm_init_run_def zkgm_init_def put_zkgm_version_def bindE_eq_Inr same_books_def)
next
  case (Some v)
  then show ?thesis
    using assms
    by (cases m) (auto simp: zkgm_migrate_def upgrade_run_def zkgm_migrate_run_def put_zkgm_version_def bindE_eq_Inr same_books_def split: if_split_asm)
qed

lemma trace_books:
  assumes "zkgm_trace Q s0 l s" "finite_books s0" "\<And>W. Q W \<Longrightarrow> world_books W"
  shows "finite_books s \<and> owed d s = owed d s0 + net d l"
  using assms(1)
proof induction
  case trace_start
  then show ?case using assms(2) by simp
next
  case (trace_call l s env info W n H em k s')
  have "moved d s 0 k s'"
    using trace_call assms(3) by (blast intro: zkgm_run_moved outside_fair)
  then show ?case
    using trace_call.IH by (simp add: moved_def)
next
  case (trace_migrate l s H env m r s')
  then show ?case
    using same_books_owed [OF migrate_same_books] by metis
qed

text \<open>From empty books the balances of a denomination add up to what the minter moved, and none is larger.\<close>

lemma trace_covers:
  assumes "zkgm_trace Q s0 l s" "channel_balance_v2 s0 = Map.empty" "deprecated_channel_balance_v1 s0 = Map.empty"
    "\<And>W. Q W \<Longrightarrow> world_books W"
  shows "owed d s = net d l \<and> (\<forall>ch path quote v. channel_balance_v2 s (ch, path, d, quote) = Some v \<longrightarrow> int v \<le> net d l)"
proof -
  have s0: "finite_books s0" "owed d s0 = 0"
    using assms(2,3) by (simp_all add: finite_books_def owed_def msum_def)
  then have b: "finite_books s" "owed d s = net d l"
    using trace_books [OF assms(1) _ assms(4)] by simp_all
  have "int v \<le> owed d s" if "channel_balance_v2 s (ch, path, d, quote) = Some v" for ch path quote v
    using msum_ge [of "channel_balance_v2 s" "(ch, path, d, quote)" v "\<lambda>(_, _, base, _). base = d"] that b(1)
      msum_nonneg [of "\<lambda>(_, _, base). base = d" "deprecated_channel_balance_v1 s"]
    by (simp add: finite_books_def owed_def)
  then show ?thesis
    using b(2) by simp
qed


section \<open>Who pays out\<close>

fun pays_out :: "zkgm_msg \<Rightarrow> bool" where
  "pays_out (ToMinter _ (Unescrow _ _ _) _) \<longleftrightarrow> True"
| "pays_out (ToMinter _ (MintTokens _ _ _) _) \<longleftrightarrow> True"
| "pays_out _ \<longleftrightarrow> False"

definition unpaid :: "zkgm_sub_msg list \<Rightarrow> bool" where
  "unpaid ms \<longleftrightarrow> (\<forall>m\<in>set ms. simple m \<and> \<not> pays_out (fst m))"

definition unpaid_world :: "world \<Rightarrow> bool" where
  "unpaid_world W \<longleftrightarrow> (\<forall>m s data evs l s'. w_call W m s = (SubOk data evs, l, s') \<longrightarrow> (\<forall>k\<in>set l. \<not> pays_out k))"

interpretation unpaid_law: sending_law "\<lambda>_ ms _. unpaid ms" "\<lambda>_ _. True"
  by unfold_locales (auto simp: unpaid_def simple_def)

lemma restricted_unpaid:
  assumes "zkgm_execute H env info (ZRestricted msg) s = Inr (r, s')"
  shows "unpaid (z_messages r)"
proof -
  obtain sched s1 where e: "z_ensure_can_call H env info msg s = Inr (sched, s1)"
      "(case sched of None \<Rightarrow> execute_zrestricted env info msg s1 | Some subs \<Rightarrow> Inr (z_respond [] subs, s1)) = Inr (r, s')"
    using assms by (auto simp: bindE_eq_Inr)
  have u: "execute_zrestricted env info msg s1 = Inr (r, s') \<Longrightarrow> unpaid (z_messages r)"
    by (cases "(env, info, msg, s1)" rule: execute_zrestricted.cases)
       (auto simp: bindE_eq_Inr unpaid_def simple_def set_bucket_config_def migrate_v1_to_v2_def update_zconfig_def pause_def unpause_def)
  from e(1) show ?thesis
    by (cases rule: z_ensure_can_call_Inr) (use e(2) u in \<open>auto simp: unpaid_def simple_def\<close>)
qed

lemma run_subs_log:
  assumes "run_subs f ms s = Inr (l, s')" "\<forall>m\<in>set ms. \<forall>s l s'. f m s = Inr (l, s') \<longrightarrow> (\<forall>k\<in>set l. Q k)"
  shows "\<forall>k\<in>set l. Q k"
  using assms
proof (induction ms arbitrary: s l)
  case (Cons m ms)
  then obtain l1 s1 l2 where r: "f m s = Inr (l1, s1)" "run_subs f ms s1 = Inr (l2, s')" "l = l1 @ l2"
    by (auto simp: bindE_eq_Inr)
  have "\<forall>k\<in>set l1. Q k" "\<forall>k\<in>set l2. Q k"
    using Cons.prems(2) r(1) Cons.IH [OF r(2)] by auto
  then show ?case
    using r(3) by auto
qed simp

lemma run_unpaid:
  assumes "run_sub n W H env sm s = Inr (l, s')" "simple sm" "\<not> pays_out (fst sm)" "unpaid_world W"
  shows "\<forall>k\<in>set l. \<not> pays_out k"
  using assms(1-3)
proof (induction n arbitrary: sm s l s')
  case (Suc n)
  obtain m on where sm: "sm = (m, on)"
    by (cases sm) auto
  have subs: "run_subs (run_sub n W H env) ms s = Inr (l, s') \<Longrightarrow> unpaid ms \<Longrightarrow> \<forall>k\<in>set l. \<not> pays_out k" for ms s l s'
    by (erule run_subs_log) (use Suc.IH in \<open>auto simp: unpaid_def\<close>)
  from Suc.prems(1) [unfolded sm] show ?case
  proof (cases rule: run_sub_Inr)
    case (never res)
    then have "self_call m = None"
      using Suc.prems(2) sm by (auto simp: simple_def)
    then obtain d e l' where w: "w_call W m s = (SubOk d e, l', s')" "l = m # l'"
      by (rule call_msg_other [OF _ never(2)])
    have "\<forall>k\<in>set l'. \<not> pays_out k"
      using assms(4) [unfolded unpaid_world_def, rule_format, OF w(1)] by blast
    then show ?thesis
      using w(2) Suc.prems(3) sm by simp
  next
    case (answered i l1 res s1)
    then obtain c r where m: "m = SelfRestricted c r" and i: "i = Z_CONSUME_REPLY_ID"
      using Suc.prems(2) sm by (auto simp: simple_def)
    have "self_call m = Some (ZRestricted r, [])"
      using m by simp
    then obtain rs s2 where e: "zkgm_execute H env \<lparr>sender = contract_address env, funds = []\<rparr> (ZRestricted r) s = Inr (rs, s2)"
        "run_subs (run_sub n W H env) (z_messages rs) s2 = Inr (l1, s1)"
      by (rule call_msg_self [OF _ answered(2)])
    have "\<forall>k\<in>set l1. \<not> pays_out k"
      by (rule subs [OF e(2) restricted_unpaid [OF e(1)]])
    moreover obtain r2 s3 k where "zkgm_reply H env i res s1 = Inr (r2, s3)" "run_subs (run_sub n W H env) (z_messages r2) s3 = Inr (k, s')" "l = l1 @ k"
      by (rule reply_msg_Inr [OF answered(3)])
    then have "l = l1"
      using i by (cases res) (auto simp: zkgm_reply_def split: if_split_asm)
    ultimately show ?thesis
      by simp
  next
    case (failed i t)
    then show ?thesis
      using Suc.prems(2) sm by (auto simp: simple_def)
  qed
qed simp

lemma run_subs_unpaid:
  assumes "run_subs (run_sub n W H env) ms s = Inr (l, s')" "unpaid ms" "unpaid_world W"
  shows "\<forall>k\<in>set l. \<not> pays_out k"
  using assms(1)
  by (rule run_subs_log) (use assms(2,3) run_unpaid in \<open>unfold unpaid_def, blast\<close>)


section \<open>Who may call what\<close>

text \<open>C25: a call that the contract accepts comes from someone who may make it: the callbacks of IBC from the configured host and, like sends, only
  while the contract is not paused; the internal messages from the contract itself; the change of the authority from the
  authority; a restricted message from whoever the authority allows it, at once or after a delay, and with a delay it does nothing
  but consume the schedule and call back.
\<close>

theorem zkgm_callers:
  assumes "zkgm_execute H env info em s = Inr (r, s')"
  shows "case em of
      IbcUnion m \<Rightarrow> map_option zc_ibc_host (zk_config s) = Some (sender info) \<and> \<not> zk_paused s
    | Send ch timeout salt i \<Rightarrow> \<not> zk_paused s
    | ZSetAuthority a \<Rightarrow> zk_authority s = Some (sender info) \<and> z_contract_exists H a \<and> zk_authority s' = Some a
    | ZRestricted m \<Rightarrow> \<exists>auth. zk_authority s = Some auth \<and>
        (zq_can_call H auth (z_selector m) (contract_address env) (sender info) = Inr Immediate \<or>
         (\<exists>d. zq_can_call H auth (z_selector m) (contract_address env) (sender info) = Inr (WithDelay d)) \<and>
         s' = s\<lparr>zk_consuming_schedule := Some True\<rparr> \<and>
         map fst (z_messages r) = [ConsumeScheduled auth (sender info) m, SelfRestricted (contract_address env) m])
    | _ \<Rightarrow> sender info = contract_address env"
proof (cases em)
  case (ZRestricted m)
  then obtain sched s1 where e: "z_ensure_can_call H env info m s = Inr (sched, s1)"
      "(case sched of None \<Rightarrow> execute_zrestricted env info m s1 | Some subs \<Rightarrow> Inr (z_respond [] subs, s1)) = Inr (r, s')"
    using assms by (auto simp: bindE_eq_Inr)
  from e(1) show ?thesis
    by (cases rule: z_ensure_can_call_Inr) (use e(2) ZRestricted in auto)
next
  case (ZSetAuthority a)
  then show ?thesis
    using assms by (auto simp: z_set_authority_def zam_read_def bindE_eq_Inr ok_or_eq_Inr ensureE_eq_Inr split: if_split_asm)
qed (use assms in \<open>auto simp: bindE_eq_Inr zread_Inr ensureE_eq_Inr only_self_def require_not_paused_def is_paused_def\<close>)

section \<open>Filling an order\<close>

lemma protocol_fill_mint_Inr:
  assumes "protocol_fill_mint H env ch path base wrapped receiver relayer b q metadata can s = Inr (r, s')" "b < 2 ^ 128"
  obtains minter create where "token_minter s = Some minter" "q \<le> b" "deploy_v2 H minter ch path base wrapped metadata can s = Inr (create, s')"
    "z_messages r = create @ pay (mint_of wrapped) minter q receiver (b - q) relayer @ [write_ack env (protocol_ack H)]"
  using assms by (auto simp: protocol_fill_mint_def bindE_eq_Inr zread_Inr ok_or_eq_Inr sub256_def to_u128_Inr split: if_split_asm)

lemma protocol_fill_unescrow_Inr:
  assumes "protocol_fill_unescrow_v2 H env ch path base quote receiver relayer b q s = Inr (r, s')" "b < 2 ^ 128"
  obtains minter reversed where "token_minter s = Some minter" "q \<le> b" "reverse_channel_path path = Inr reversed"
    "decrease_channel_balance_v2 ch reversed quote base b s = Inr s'"
    "z_messages r = pay (unescrow_of quote) minter q receiver (b - q) relayer @ [write_ack env (protocol_ack H)]"
  using assms by (auto simp: protocol_fill_unescrow_v2_def bindE_eq_Inr zread_Inr ok_or_eq_Inr sub256_def to_u128_Inr split: if_split_asm)


section \<open>Orders that fail\<close>

text \<open>What a sent order took, and what its failure gives back.\<close>

definition taken :: "order_v2 \<Rightarrow> addr \<Rightarrow> addr \<Rightarrow> string \<Rightarrow> minter_msg" where
  "taken order minter from base =
     (if o2_kind order = TOKEN_ORDER_KIND_UNESCROW then BurnTokens base (o2_base_amount order) minter from
      else Escrow from base minter (o2_base_amount order))"

definition given_back :: "order_v2 \<Rightarrow> addr \<Rightarrow> string \<Rightarrow> minter_msg" where
  "given_back order owner base =
     (if o2_kind order = TOKEN_ORDER_KIND_UNESCROW then MintTokens base (o2_base_amount order) owner
      else Unescrow base owner (o2_base_amount order))"

lemma verify_order_v2_taken:
  assumes "verify_token_order_v2 H info ch path order fs s = Inr (msgs, fs', s')"
  obtains base minter coins where "from_utf8 (o2_base_token order) = Some base" "token_minter s = Some minter" "o2_base_amount order < 2 ^ 128"
    "msgs = [plain (ToMinter minter (taken order minter (sender info) base) coins)]"
    "if o2_kind order = TOKEN_ORDER_KIND_UNESCROW then s' = s
     else increase_channel_balance_v2 ch path base (o2_quote_token order) (o2_base_amount order) s = Inr s'"
proof -
  obtain base minter where bm: "from_utf8 (o2_base_token order) = Some base" "token_minter s = Some minter"
    using assms by (auto simp: verify_token_order_v2_def bindE_eq_Inr ok_or_eq_Inr zread_Inr)
  show thesis
    using assms bm that
    by (cases "o2_kind order = TOKEN_ORDER_KIND_UNESCROW")
       (auto simp: verify_token_order_v2_def taken_def Let_def case_prod_beta bindE_eq_Inr to_u128_Inr)
qed

lemma refund_after_increase:
  assumes "validate_bytes H InvalidSender UnableToValidateSender (o2_sender order) = Inr owner"
    "from_utf8 (o2_base_token order) = Some base" "token_minter t = Some minter" "o2_base_amount order < 2 ^ 128"
    "if o2_kind order = TOKEN_ORDER_KIND_UNESCROW then s' = s
     else increase_channel_balance_v2 ch path base (o2_quote_token order) (o2_base_amount order) s = Inr s'"
    "channel_balance_v2 t = channel_balance_v2 s'"
  obtains t' where "refund_v2 H path ch order t = Inr (z_respond [] [plain (ToMinter minter (given_back order owner base) [])], t')"
    "\<forall>k. stored (channel_balance_v2 t' k) = stored (channel_balance_v2 s k)"
proof (cases "o2_kind order = TOKEN_ORDER_KIND_UNESCROW")
  case True
  then show thesis
    using assms that [of t] by (simp add: refund_v2_def given_back_def to_u128_def)
next
  case False
  let ?k = "(ch, path, base, o2_quote_token order)"
  have v: "channel_balance_v2 s' = (channel_balance_v2 s)(?k \<mapsto> stored (channel_balance_v2 s ?k) + o2_base_amount order)"
    using assms(5) False
    by (auto simp: increase_channel_balance_v2_def Let_def bindE_eq_Inr ok_or_eq_Inr add256_def stored_def split: option.split_asm if_split_asm)
  show thesis
    using assms False v that [of "t\<lparr>channel_balance_v2 := (channel_balance_v2 t)(?k \<mapsto> stored (channel_balance_v2 s ?k))\<rparr>"]
    by (simp add: refund_v2_def given_back_def to_u128_def decrease_channel_balance_v2_def sub256_def stored_def)
qed

text \<open>C18: an order that fails goes back to where it came from. When a V2 order is sent, its tokens are burnt or taken into escrow; when its
  packet times out or is acknowledged as failed, with the balances as the send left them, the contract accepts the callback, mints or releases exactly the same
  amount of the same token to the owner that the order names, and every channel balance is back at its value before the send.
\<close>

theorem failed_order_returns:
  assumes "send H info ch timeout salt i s = Inr (r, s1)"
    "i_opcode i = OP_TOKEN_ORDER" "i_version i = INSTR_VERSION_2" "dec_order_v2 H (i_operand i) = Some order"
    "validate_bytes H InvalidSender UnableToValidateSender (o2_sender order) = Inr owner"
    "\<forall>z. dec_packet H (enc_packet H z) = Some z"
    "plain (ToHost host (PacketSend ch timeout (packet_data packet))) \<in> set (z_messages r)" "source_channel_id packet = ch"
    "token_minter t = token_minter s1" "channel_balance_v2 t = channel_balance_v2 s1" "in_flight_packet t (flight_key H packet) = None"
    "dec_ack H ack = Some failure" "ack_tag failure \<noteq> TAG_ACK_SUCCESS"
  shows "\<exists>minter base coins back t'.
      z_messages r = [plain (ToMinter minter (taken order minter (sender info) base) coins),
        plain (ToHost host (PacketSend ch timeout (packet_data packet)))] \<and>
      z_timeout_packet H caller packet relayer t = Inr (back, t') \<and>
      z_acknowledge_packet H caller packet relayer ack t = Inr (back, t') \<and>
      z_messages back = [plain (ToMinter minter (given_back order owner base) [])] \<and>
      (\<forall>k. stored (channel_balance_v2 t' k) = stored (channel_balance_v2 s k))"
proof -
  obtain fs msgs fs' h where v: "verify_internal 3 H info ch 0 i fs s = Inr (msgs, fs', s1)"
      "z_messages r = msgs @ [plain (ToHost h (PacketSend ch timeout
         (enc_packet H \<lparr>zp_salt = keccak256 H (enc_bytes_h256 H (str_bytes (sender info)) salt), zp_path = 0, zp_instruction = i\<rparr>)))]"
    using assms(1) by (auto simp: send_def bindE_eq_Inr Let_def)
  have "verify_token_order_v2 H info ch 0 order fs s = Inr (msgs, fs', s1)"
    using v(1) assms(2-4) by (simp add: numeral_3_eq_3 INSTR_VERSION_1_def INSTR_VERSION_2_def)
  then obtain base minter coins where t: "from_utf8 (o2_base_token order) = Some base" "token_minter s = Some minter" "o2_base_amount order < 2 ^ 128"
      "msgs = [plain (ToMinter minter (taken order minter (sender info) base) coins)]"
      "if o2_kind order = TOKEN_ORDER_KIND_UNESCROW then s1 = s
       else increase_channel_balance_v2 ch 0 base (o2_quote_token order) (o2_base_amount order) s = Inr s1"
    by (rule verify_order_v2_taken)
  have m: "token_minter t = Some minter"
    using t(2,5) assms(9) increase_minter by (metis (full_types))
  obtain t' where refunded: "refund_v2 H 0 ch order t = Inr (z_respond [] [plain (ToMinter minter (given_back order owner base) [])], t')"
      "\<forall>k. stored (channel_balance_v2 t' k) = stored (channel_balance_v2 s k)"
    by (rule refund_after_increase [OF assms(5) t(1) m t(3) t(5) assms(10)])
  have sent: "h = host" "dec_packet H (packet_data packet) =
      Some \<lparr>zp_salt = keccak256 H (enc_bytes_h256 H (str_bytes (sender info)) salt), zp_path = 0, zp_instruction = i\<rparr>"
      "z_messages r = [plain (ToMinter minter (taken order minter (sender info) base) coins),
        plain (ToHost host (PacketSend ch timeout (packet_data packet)))]"
    using assms(6,7) v(2) t(4) by auto
  have "z_timeout_packet H caller packet relayer t = refund_v2 H 0 ch order t"
    using sent(2) assms(2-4,8,11) by (simp add: z_timeout_packet_def nesting_def numeral_3_eq_3 INSTR_VERSION_1_def INSTR_VERSION_2_def)
  moreover have "z_acknowledge_packet H caller packet relayer ack t = refund_v2 H 0 ch order t"
    using sent(2) assms(2-4,8,11-13)
    by (simp add: z_acknowledge_packet_def nesting_def numeral_3_eq_3 INSTR_VERSION_1_def INSTR_VERSION_2_def decode_if_def acknowledge_token_order_v2_def)
  ultimately show ?thesis
    using refunded sent(3) by auto
qed

end
