(* ===== verification/Zkgm_Flaws.thy ===== *)
theory Zkgm_Flaws
  imports Zkgm_Safety Core_Packet
begin

text \<open>
  Where the zkgm application does not do what its comments or its counterpart in Solidity do: the outcome of a
  forward is lost at both of its ends, two orders of one packet cannot both be filled by a market maker, and an empty batch can be sent
  but not received.
\<close>

section \<open>Forwards that a user sends\<close>

text \<open>C20: a forward that a user sends can never be settled on the chain it was sent from. Sending it takes the tokens of the
  instruction inside into escrow or burns them, but neither the acknowledgement nor the timeout of its packet has a case for a forward:
  whatever state the contract is in by then, and whatever the acknowledgement says, the callback fails, so that the host keeps the packet
  open and the tokens are not given back.
\<close>

theorem sent_forward_is_stuck:
  assumes "send H info ch timeout salt i s = Inr (r, s1)" "i_opcode i = OP_FORWARD"
    "\<forall>z. dec_packet H (enc_packet H z) = Some z"
    "last (z_messages r) = plain (ToHost host (PacketSend ch timeout (packet_data packet)))"
    "in_flight_packet t (flight_key H packet) = None"
  shows "z_timeout_packet H caller packet relayer t = Inl (UnknownOpcode OP_FORWARD) \<and>
    (\<forall>ack. z_acknowledge_packet H caller packet relayer ack t =
       Inl (if dec_ack H ack = None then Alloy else UnknownOpcode OP_FORWARD))"
proof -
  obtain fs msgs fs' h where v: "verify_internal 3 H info ch 0 i fs s = Inr (msgs, fs', s1)"
      "z_messages r = msgs @ [plain (ToHost h (PacketSend ch timeout
         (enc_packet H \<lparr>zp_salt = keccak256 H (enc_bytes_h256 H (str_bytes (sender info)) salt), zp_path = 0, zp_instruction = i\<rparr>)))]"
    using assms(1) by (auto simp: send_def bindE_eq_Inr Let_def)
  then have "packet_data packet =
      enc_packet H \<lparr>zp_salt = keccak256 H (enc_bytes_h256 H (str_bytes (sender info)) salt), zp_path = 0, zp_instruction = i\<rparr>"
    using assms(4) by simp
  then have sent: "dec_packet H (packet_data packet) =
      Some \<lparr>zp_salt = keccak256 H (enc_bytes_h256 H (str_bytes (sender info)) salt), zp_path = 0, zp_instruction = i\<rparr>"
    using assms(3) by simp
  show ?thesis
    using sent assms(2,5)
    by (auto simp: z_timeout_packet_def z_acknowledge_packet_def nesting_def numeral_3_eq_3 opcode_defs decode_def)
qed

section \<open>Forwards that the contract makes\<close>

text \<open>C28: the outcome of a forwarded packet goes to the wrong packet. The reply to the send stores the packet that was sent where the packet
  that asked for the forward belongs. When the sent packet is acknowledged or times out, the contract therefore asks the host to
  write an acknowledgement for the packet that it sent itself; the host has not received that packet, so it refuses, the callback fails,
  and the packet that asked for the forward is never acknowledged.
\<close>

theorem forwarded_outcome_is_lost:
  assumes "forward_reply H (SubOk (Some data) evs) s = Inr (r, s1)" "json_packet H data = Some sent"
    "dec_packet H (packet_data sent) = Some z" "is_forwarded_packet (zp_salt z)" "zk_config s = Some config"
    "read_commit core (path_key C (batch_receipts_path C [sent])) = None"
  shows "(\<exists>s2. z_acknowledge_packet H caller sent relayer ack s1 =
        Inr (z_respond [] [plain (ToHost (zc_ibc_host config) (WriteAcknowledgement sent ack))], s2)) \<and>
    (\<exists>s2. z_timeout_packet H caller sent relayer s1 =
        Inr (z_respond [] [plain (ToHost (zc_ibc_host config) (WriteAcknowledgement sent
          (enc_ack H \<lparr>ack_tag = TAG_ACK_FAILURE, ack_inner = []\<rparr>)))], s2)) \<and>
    (\<forall>app ack. \<exists>e. write_acknowledgement C app sent ack core = Inl e)"
proof -
  have "s1 = s\<lparr>in_flight_packet := (in_flight_packet s)(flight_key H sent \<mapsto> sent)\<rparr>"
    using assms(1,2) by (simp add: forward_reply_def)
  moreover have "\<exists>e. write_acknowledgement C app sent ack core = Inl e" for app ack
    using assms(6) by (cases "write_acknowledgement C app sent ack core") (auto simp: write_acknowledgement_def Let_def bindE_eq_Inr split: if_split_asm)
  ultimately show ?thesis
    using assms(3-5) by (simp add: z_acknowledge_packet_def z_timeout_packet_def)
qed

section \<open>Orders that only a market maker can fill\<close>

text \<open>An execution that fails becomes the failure of the whole packet.\<close>

lemma failed_execution:
  assumes "run_sub n W H env (SelfExecutePacket c caller packet relayer msg intent fs, ReplyAlways EXECUTE_PACKET_REPLY_ID) s = Inr (l, s')"
    "\<And>m r s1 l s'. execute_packet H env \<lparr>sender = contract_address env, funds = fs\<rparr> caller packet relayer msg intent s = Inr (r, s1) \<Longrightarrow>
       run_subs (run_sub m W H env) (z_messages r) s1 \<noteq> Inr (l, s')"
    "executing_packet s = Some packet" "quiet_world W"
  shows "\<exists>h. filter writes_ack l = [ToHost h (WriteAcknowledgement packet (enc_ack H \<lparr>ack_tag = TAG_ACK_FAILURE, ack_inner = []\<rparr>))]"
proof -
  obtain k where n: "n = Suc k"
    using assms(1) by (cases n) auto
  from assms(1) [unfolded n] show ?thesis
  proof (cases rule: run_sub_Inr)
    case (answered i l1 res s1)
    have "self_call (SelfExecutePacket c caller packet relayer msg intent fs) = Some (InternalExecutePacket caller packet relayer msg intent, fs)"
      by simp
    then obtain r s2 where "zkgm_execute H env \<lparr>sender = contract_address env, funds = fs\<rparr> (InternalExecutePacket caller packet relayer msg intent) s = Inr (r, s2)"
        "run_subs (run_sub k W H env) (z_messages r) s2 = Inr (l1, s1)"
      by (rule call_msg_self [OF _ answered(2)])
    then show ?thesis
      using assms(2) by (auto simp: bindE_eq_Inr)
  next
    case (failed i t)
    then have i: "i = EXECUTE_PACKET_REPLY_ID"
      by simp
    obtain r s1 l1 where e: "zkgm_reply H env i (SubErr t) s = Inr (r, s1)" "run_subs (run_sub k W H env) (z_messages r) s1 = Inr (l1, s')" "l = [] @ l1"
      by (rule reply_msg_Inr [OF failed(2)])
    obtain h where m: "z_messages r = map plain [ToHost h (WriteAcknowledgement packet (enc_ack H \<lparr>ack_tag = TAG_ACK_FAILURE, ack_inner = []\<rparr>))]"
      using e(1) assms(3)
      by (auto simp: i zkgm_reply_def Z_CONSUME_REPLY_ID_def EXECUTE_PACKET_REPLY_ID_def execute_packet_reply_def bindE_eq_Inr zread_Inr Let_def)
    obtain j where j: "k = Suc j"
      using e(2) m by (cases k) auto
    have "run_sub (Suc j) W H env (plain (ToHost h (WriteAcknowledgement packet (enc_ack H \<lparr>ack_tag = TAG_ACK_FAILURE, ack_inner = []\<rparr>)))) s1 = Inr (l, s')"
      using e(2,3) m j run_one by (metis append_Nil list.simps(8,9))
    then obtain d ev l2 where "w_call W (ToHost h (WriteAcknowledgement packet (enc_ack H \<lparr>ack_tag = TAG_ACK_FAILURE, ack_inner = []\<rparr>))) s1 = (SubOk d ev, l2, s')"
        "l = ToHost h (WriteAcknowledgement packet (enc_ack H \<lparr>ack_tag = TAG_ACK_FAILURE, ack_inner = []\<rparr>)) # l2"
      by (cases rule: run_sub_Inr) (auto elim: call_msg_other [rotated])
    moreover from this have "\<forall>k\<in>set l2. \<not> writes_ack k"
      using assms(4) unfolding quiet_world_def by blast
    ultimately show ?thesis
      by (simp add: filter_empty_conv)
  qed simp
qed

definition maker_only :: "order_v2 \<Rightarrow> bool" where
  "maker_only order \<longleftrightarrow> o2_kind order \<noteq> TOKEN_ORDER_KIND_SOLVE \<and> o2_base_amount order < o2_quote_amount order"

lemma maker_only_Inr:
  assumes "execute_token_order_v2 H env caller packet relayer msg path order intent fs s = Inr (r, fs', s')" "maker_only order"
  obtains quote ms where "from_utf8 (o2_quote_token order) = Some quote" "fs quote = 0 \<or> o2_quote_amount order \<le> fs quote"
    "z_messages r = [(SelfBatch (contract_address env) ms, ReplyAlways MM_RELAYER_FILL_REPLY_ID)]" "\<forall>m\<in>set ms. other_msg m"
proof -
  obtain minter where "market_maker_fill_v2 H env caller relayer msg minter path packet order intent fs s = Inr (r, fs', s')"
    using assms by (auto simp: execute_token_order_v2_def maker_only_def Let_def bindE_eq_Inr split: if_split_asm)
  then show thesis
    using assms(2) that
    by (auto simp: market_maker_fill_v2_def maker_only_def relayer_market_maker_fill_v2_def bindE_eq_Inr ok_or_eq_Inr to_u128_Inr take_coin_def
        coins_sub_def fill_messages_def other_msg_def split: if_split_asm)
qed

text \<open>A received packet whose execution cannot succeed.\<close>

lemma failed_receive:
  assumes "zkgm_run n W H env info (IbcUnion (OnRecvPacket caller packet relayer msg)) s = Inr (l, s')" "quiet_world W"
    "\<And>m caller relayer r s0 s1 l s'. execute_packet H env \<lparr>sender = contract_address env, funds = funds info\<rparr> caller packet relayer msg False s0 = Inr (r, s1) \<Longrightarrow>
       run_subs (run_sub m W H env) (z_messages r) s1 \<noteq> Inr (l, s')"
  shows "\<exists>h. filter writes_ack l = [ToHost h (WriteAcknowledgement packet (enc_ack H \<lparr>ack_tag = TAG_ACK_FAILURE, ack_inner = []\<rparr>))]"
proof -
  obtain r s1 where e: "zkgm_execute H env info (IbcUnion (OnRecvPacket caller packet relayer msg)) s = Inr (r, s1)"
      "run_subs (run_sub n W H env) (z_messages r) s1 = Inr (l, s')"
    using assms(1) by (auto simp: zkgm_run_def run_response_Inr as_run_Inr)
  obtain caller' relayer' where "run_sub n W H env (SelfExecutePacket (contract_address env) caller' packet relayer' msg False (funds info),
      ReplyAlways EXECUTE_PACKET_REPLY_ID) (s\<lparr>executing_packet := Some packet\<rparr>) = Inr (l, s')"
    using e by (auto simp: dispatch_execute_packet_def bindE_eq_Inr run_one simp del: run_subs.simps)
  then show ?thesis
    by (rule failed_execution) (use assms(2,3) in auto)
qed

lemma execute_internal_order:
  assumes "i_opcode i = OP_TOKEN_ORDER" "i_version i = INSTR_VERSION_2" "dec_order_v2 H (i_operand i) = Some order"
  shows "execute_internal (Suc n) H env caller packet relayer msg salt path i intent fs s =
    execute_token_order_v2 H env caller packet relayer msg path order intent fs s"
  using assms by (simp add: INSTR_VERSION_1_def INSTR_VERSION_2_def)

text \<open>C40: with dust, anybody cancels an order that is meant for market makers. If the relayer of a packet with one order that the protocol
  cannot fill sends along some of the quote token, but less than the order asks for, then the packet is acknowledged as failed. The
  comment at the failed fill says that another market maker should get the chance, and without any coins that is what happens: the
  transaction is undone.
\<close>

theorem dust_cancels_order:
  assumes "zkgm_run n W H env info (IbcUnion (OnRecvPacket caller packet relayer msg)) s = Inr (l, s')" "quiet_world W"
    "dec_packet H (packet_data packet) = Some z" "i_opcode (zp_instruction z) = OP_TOKEN_ORDER" "i_version (zp_instruction z) = INSTR_VERSION_2"
    "dec_order_v2 H (i_operand (zp_instruction z)) = Some order" "maker_only order"
    "from_utf8 (o2_quote_token order) = Some quote" "coins_try_from (funds info) = Some purse" "0 < purse quote" "purse quote < o2_quote_amount order"
  shows "\<exists>h. filter writes_ack l = [ToHost h (WriteAcknowledgement packet (enc_ack H \<lparr>ack_tag = TAG_ACK_FAILURE, ack_inner = []\<rparr>))]"
proof (rule failed_receive [OF assms(1,2)])
  fix m caller relayer r s0 s1 l s'
  assume "execute_packet H env \<lparr>sender = contract_address env, funds = funds info\<rparr> caller packet relayer msg False s0 = Inr (r, s1)"
  then obtain fs' s2 where "execute_token_order_v2 H env caller packet relayer msg (zp_path z) order False purse s0 = Inr (r, fs', s2)"
    using assms(3,9) by (auto simp: execute_packet_def bindE_eq_Inr numeral_2_eq_2 execute_internal_order [OF assms(4-6)] simp del: execute_internal.simps)
  then have False
    by (rule maker_only_Inr) (use assms(7,8,10,11) in auto)
  then show "run_subs (run_sub m W H env) (z_messages r) s1 \<noteq> Inr (l, s')" ..
qed

lemma fill_takes_maker:
  assumes "run_sub n W H env (SelfBatch c ms, ReplyAlways MM_RELAYER_FILL_REPLY_ID) s = Inr (l, s')" "\<forall>m\<in>set ms. other_msg m"
    "quiet_world W" "wide_codec H"
  shows "market_maker s \<noteq> None \<and> market_maker s' = None"
proof -
  obtain k where n: "n = Suc k"
    using assms(1) by (cases n) auto
  have need: "market_maker t \<noteq> None" if "reply_msg (run_sub k W H env) W H env MM_RELAYER_FILL_REPLY_ID l1 res t = Inr (l, s')" for l1 res t
    using that by (rule reply_msg_Inr)
      (auto simp: zkgm_reply_def Z_CONSUME_REPLY_ID_def reply_id_defs maker_reply_def bindE_eq_Inr zread_Inr)
  have none: "market_maker s' = None" if "reply_msg (run_sub k W H env) W H env MM_RELAYER_FILL_REPLY_ID l1 res t = Inr (l, s')" for l1 res t
    using inner_reply [OF that assms(4), of True] by simp
  from assms(1) [unfolded n] show ?thesis
  proof (cases rule: run_sub_Inr)
    case (answered i l1 res s1)
    have "self_call (SelfBatch c ms) = Some (InternalBatch ms, [])"
      by simp
    then obtain r s2 where "zkgm_execute H env \<lparr>sender = contract_address env, funds = []\<rparr> (InternalBatch ms) s = Inr (r, s2)"
        "run_subs (run_sub k W H env) (z_messages r) s2 = Inr (l1, s1)"
      by (rule call_msg_self [OF _ answered(2)])
    then have "run_subs (run_sub k W H env) (map plain ms) s = Inr (l1, s1)"
      by (auto simp: bindE_eq_Inr)
    then have "same_scratch s s1"
      using run_others [OF _ _ assms(3)] assms(2) by blast
    then have "market_maker s1 = market_maker s"
      by (simp add: same_scratch_def)
    moreover have "reply_msg (run_sub k W H env) W H env MM_RELAYER_FILL_REPLY_ID l1 res s1 = Inr (l, s')"
      using answered(1,3) by simp
    note need [OF this] none [OF this]
    ultimately show ?thesis
      by simp
  next
    case (failed i t)
    then have "reply_msg (run_sub k W H env) W H env MM_RELAYER_FILL_REPLY_ID [] (SubErr t) s = Inr (l, s')"
      by simp
    then show ?thesis using need [of "[]" "SubErr t" s] none [of "[]" "SubErr t" s] by simp
  qed simp
qed

text \<open>C39: two orders of one packet cannot both be filled by a market maker. The contract remembers one market maker, and the reply
  to the first fill forgets it, so the reply to the second fails. A batch of two orders that only a maker can fill is therefore
  always acknowledged as failed when it is received at all, whatever the maker provides, although the code provides \<open>each token individually\<close> because,
  as its comment says, the maker may fill several orders within the packet.
\<close>

theorem two_fills_cancel_batch:
  assumes "zkgm_run n W H env info (IbcUnion (OnRecvPacket caller packet relayer msg)) s = Inr (l, s')" "quiet_world W" "wide_codec H"
    "dec_packet H (packet_data packet) = Some z" "i_opcode (zp_instruction z) = OP_BATCH"
    "dec_batch H (i_operand (zp_instruction z)) = Some [i1, i2]"
    "\<forall>i\<in>{i1, i2}. i_opcode i = OP_TOKEN_ORDER \<and> i_version i = INSTR_VERSION_2 \<and> (\<exists>order. dec_order_v2 H (i_operand i) = Some order \<and> maker_only order)"
  shows "\<exists>h. filter writes_ack l = [ToHost h (WriteAcknowledgement packet (enc_ack H \<lparr>ack_tag = TAG_ACK_FAILURE, ack_inner = []\<rparr>))]"
proof (rule failed_receive [OF assms(1,2)])
  fix m caller relayer r s0 s1 l s'
  assume e: "execute_packet H env \<lparr>sender = contract_address env, funds = funds info\<rparr> caller packet relayer msg False s0 = Inr (r, s1)"
  obtain o1 o2 where o: "dec_order_v2 H (i_operand i1) = Some o1" "maker_only o1" "dec_order_v2 H (i_operand i2) = Some o2" "maker_only o2"
    using assms(7) by auto
  have "i_opcode i1 = OP_TOKEN_ORDER" "i_version i1 = INSTR_VERSION_2" "i_opcode i2 = OP_TOKEN_ORDER" "i_version i2 = INSTR_VERSION_2"
    using assms(7) by auto
  note internal = execute_internal_order [OF this(1,2) o(1)] execute_internal_order [OF this(3,4) o(3)]
  obtain fs t0 fs' s2 where b: "execute_batch (\<lambda>k i. execute_internal 1 H env caller packet relayer msg (derive_batch_salt H k (zp_salt z)) (zp_path z) i False)
      0 [i1, i2] fs t0 = Inr (r, fs', s2)"
    using e assms(4-6) by (auto simp: execute_packet_def bindE_eq_Inr numeral_2_eq_2 opcode_defs simp del: execute_batch.simps)
  obtain r1 fs1 t1 r2 fs2 t2 where x: "execute_token_order_v2 H env caller packet relayer msg (zp_path z) o1 False fs t0 = Inr (r1, fs1, t1)"
      "execute_token_order_v2 H env caller packet relayer msg (zp_path z) o2 False fs1 t1 = Inr (r2, fs2, t2)" "z_messages r = z_messages r1 @ z_messages r2"
    using b by (auto simp: bindE_eq_Inr internal simp del: execute_internal.simps)
  from x(1) o(2) obtain ms1 where m1: "z_messages r1 = [(SelfBatch (contract_address env) ms1, ReplyAlways MM_RELAYER_FILL_REPLY_ID)]" "\<forall>m\<in>set ms1. other_msg m"
    by (rule maker_only_Inr)
  from x(2) o(4) obtain ms2 where m2: "z_messages r2 = [(SelfBatch (contract_address env) ms2, ReplyAlways MM_RELAYER_FILL_REPLY_ID)]" "\<forall>m\<in>set ms2. other_msg m"
    by (rule maker_only_Inr)
  show "run_subs (run_sub m W H env) (z_messages r) s1 \<noteq> Inr (l, s')"
  proof
    assume "run_subs (run_sub m W H env) (z_messages r) s1 = Inr (l, s')"
    then obtain l1 t l2 where "run_sub m W H env (SelfBatch (contract_address env) ms1, ReplyAlways MM_RELAYER_FILL_REPLY_ID) s1 = Inr (l1, t)"
        "run_sub m W H env (SelfBatch (contract_address env) ms2, ReplyAlways MM_RELAYER_FILL_REPLY_ID) t = Inr (l2, s')"
      using x(3) m1(1) m2(1) by (auto simp: bindE_eq_Inr)
    then show False
      using fill_takes_maker [OF _ m1(2) assms(2,3)] fill_takes_maker [OF _ m2(2) assms(2,3)] by blast
  qed
qed

end
