(* ===== verification/Zkgm_Minter.thy ===== *)
theory Zkgm_Minter
  imports Zkgm_Safety
begin

text \<open>
  The minter contract for CW20 tokens (\<open>cosmwasm/cw20-token-minter\<close>), which holds the tokens for the zkgm
  application, and the two contracts together: the minter does what it is told, so that what it holds covers the balances that
  the application keeps. What a token contract or the bank does with the messages of the minter is the parameter \<open>tok\<close>.
\<close>

section \<open>State and messages\<close>

record minter_config =
  mc_admin :: addr
  mc_dummy_code_id :: u64
  mc_cw20_impl_code_id :: u64

record minter_state =
  m_config :: "minter_config option"
  m_cw20_admin :: "addr option"
  m_native :: "string \<Rightarrow> bytes option"

datatype minter_error =
    MStd std_error
  | OnlyAdmin
  | InvalidMinterConfig
  | TokenOrderV1DeploymentIsDeprecated
  | U256Parse

datatype minter_init_msg = InitCw20 u64 u64 addr | InitOsmosisTokenFactory addr

record minter_migrate_msg =
  mm_new_admin :: "addr option"
  mm_new_cw20_code_id :: "u64 option"

datatype wrapped_token_kind = Protocol | ThirdParty

datatype minter_event = WrappedTokenEv u256 channel_id bytes string bytes wrapped_token_kind

datatype (plugins only: code) token_msg =
    Cw20Mint string addr nat
  | Cw20Burn string nat
  | Cw20BurnFrom string addr nat
  | Cw20TransferFrom string addr addr nat
  | Cw20Transfer string addr nat
  | BankSend addr coins
  | InstantiateToken addr u64 string bytes
  | MigrateToken string u64 bytes
  | UpdateTokenAdmin string addr

record minter_response =
  mr_events :: "minter_event list"
  mr_messages :: "token_msg list"

type_synonym minter_result = "minter_error + minter_response \<times> minter_state"

text \<open>The initial message of \<open>cw20-base\<close>, as far as the minter looks at it.\<close>

record cw20_init =
  ci_minter :: "string option"
  ci_initial_balances :: "(string \<times> nat) list"

record minter_host = zkgm_host +
  json_implementation :: "bytes \<Rightarrow> std_error + (string \<times> u64)"
  json_cw20_init :: "bytes \<Rightarrow> cw20_init upgrade_msg option"
  enc_metadata_pair :: "bytes \<Rightarrow> bytes \<Rightarrow> bytes"
  enc_salt :: "u256 \<Rightarrow> channel_id \<Rightarrow> bytes \<Rightarrow> bytes"
  enc_salt_v2 :: "u256 \<Rightarrow> channel_id \<Rightarrow> bytes \<Rightarrow> u256 \<Rightarrow> bytes"
  q_token_info :: "string \<Rightarrow> std_error + (string \<times> string \<times> u8)"
  q_denom_metadata :: "string \<Rightarrow> std_error + (string \<times> string \<times> u32 list)"

definition m_read :: "'a option \<Rightarrow> minter_error + 'a" where
  "m_read x = ok_or (MStd (GenericErr ''not found'')) x"

section \<open>Deployment\<close>

fun minter_instantiate :: "message_info \<Rightarrow> minter_init_msg \<Rightarrow> minter_state \<Rightarrow> minter_result" where
  "minter_instantiate info (InitCw20 cw20_impl_code_id dummy_code_id zkgm_admin) s =
     Inr (\<lparr>mr_events = [], mr_messages = []\<rparr>,
          s\<lparr>m_config := Some \<lparr>mc_admin = sender info, mc_dummy_code_id = dummy_code_id, mc_cw20_impl_code_id = cw20_impl_code_id\<rparr>,
            m_cw20_admin := Some zkgm_admin\<rparr>)"
| "minter_instantiate info (InitOsmosisTokenFactory _) s = Inl InvalidMinterConfig"

definition minter_migrate :: "minter_migrate_msg \<Rightarrow> minter_state \<Rightarrow> minter_result" where
  "minter_migrate msg s =
     (let s = (case mm_new_admin msg of Some a \<Rightarrow> s\<lparr>m_cw20_admin := Some a\<rparr> | None \<Rightarrow> s) in
      case mm_new_cw20_code_id msg of
        Some i \<Rightarrow> bindE (m_read (m_config s)) (\<lambda>c.
          Inr (\<lparr>mr_events = [], mr_messages = []\<rparr>, s\<lparr>m_config := Some (c\<lparr>mc_cw20_impl_code_id := i\<rparr>)\<rparr>))
      | None \<Rightarrow> Inr (\<lparr>mr_events = [], mr_messages = []\<rparr>, s))"

section \<open>Native tokens and salts\<close>

definition is_native_token :: "string \<Rightarrow> minter_state \<Rightarrow> bool" where
  "is_native_token token s = (case m_native s token of None \<Rightarrow> False | Some val \<Rightarrow> length val = 1 \<and> val ! 0 = 1)"

definition save_native_token :: "string \<Rightarrow> minter_state \<Rightarrow> minter_state" where
  "save_native_token token s = s\<lparr>m_native := (m_native s)(token \<mapsto> [1])\<rparr>"

definition compute_metadata_image :: "'z crypto_scheme \<Rightarrow> bytes \<Rightarrow> h256" where
  "compute_metadata_image H metadata = keccak256 H metadata"

definition calculate_salt :: "'z minter_host_scheme \<Rightarrow> u256 \<Rightarrow> channel_id \<Rightarrow> bytes \<Rightarrow> bytes" where
  "calculate_salt H path ch token = h256_bytes (keccak256 H (enc_salt H path ch token))"

definition calculate_salt_v2 :: "'z minter_host_scheme \<Rightarrow> u256 \<Rightarrow> channel_id \<Rightarrow> bytes \<Rightarrow> h256 \<Rightarrow> bytes" where
  "calculate_salt_v2 H path ch token img = h256_bytes (keccak256 H (enc_salt_v2 H path ch token img))"

section \<open>Execution\<close>

definition is_local_minter :: "'z minter_host_scheme \<Rightarrow> block_env \<Rightarrow> bytes \<Rightarrow> bool" where
  "is_local_minter H env initializer =
     (case json_cw20_init H initializer of
       Some (UpgradeInit i) \<Rightarrow>
         (case ci_minter i of Some m \<Rightarrow> m = contract_address env | None \<Rightarrow> False) \<and> ci_initial_balances i = []
     | Some UpgradeMigrate \<Rightarrow> False
     | None \<Rightarrow> False)"

definition create_denom_v2 :: "'z minter_host_scheme \<Rightarrow> block_env \<Rightarrow> minter_config \<Rightarrow> string \<Rightarrow> u256 \<Rightarrow> channel_id \<Rightarrow> bytes \<Rightarrow> bytes \<Rightarrow> bytes
    \<Rightarrow> minter_state \<Rightarrow> minter_error + minter_response" where
  "create_denom_v2 H env config subdenom path ch token implementation initializer s =
     bindE (map_err MStd (json_implementation H implementation)) (\<lambda>(impl_admin, code_id).
     bindE (map_err MStd (z_addr_validate H impl_admin)) (\<lambda>admin.
     bindE (map_err MStd (q_code_hash H code_id)) (\<lambda>code_hash.
     bindE (map_err MStd (q_code_hash H (mc_cw20_impl_code_id config))) (\<lambda>protocol_code_hash.
     bindE (m_read (m_cw20_admin s)) (\<lambda>cw20_admin.
     let secure = code_hash = protocol_code_hash \<and> admin = cw20_admin \<and> is_local_minter H env initializer;
         encoded = enc_metadata_pair H implementation initializer;
         img = compute_metadata_image H encoded in
     Inr \<lparr>mr_events = [WrappedTokenEv path ch token subdenom encoded (if secure then Protocol else ThirdParty)],
          mr_messages = [InstantiateToken (contract_address env) (mc_dummy_code_id config) subdenom (calculate_salt_v2 H path ch token img),
            MigrateToken subdenom code_id initializer, UpdateTokenAdmin subdenom admin]\<rparr>)))))"

fun minter_perform :: "'z minter_host_scheme \<Rightarrow> block_env \<Rightarrow> message_info \<Rightarrow> minter_config \<Rightarrow> minter_msg \<Rightarrow> minter_state \<Rightarrow> minter_result" where
  "minter_perform H env info config (CreateDenomV2 subdenom path ch token implementation initializer) s =
     bindE (create_denom_v2 H env config subdenom path ch token implementation initializer s) (\<lambda>r. Inr (r, s))"
| "minter_perform H env info config (CreateDenom _ _ _ _ _ _ _) s = Inl TokenOrderV1DeploymentIsDeprecated"
| "minter_perform H env info config (MintTokens denom amount to) s =
     Inr (\<lparr>mr_events = [], mr_messages = [Cw20Mint denom to amount]\<rparr>, s)"
| "minter_perform H env info config (BurnTokens denom amount _ who) s =
     Inr (\<lparr>mr_events = [],
       mr_messages = [if who = contract_address env then Cw20Burn denom amount else Cw20BurnFrom denom who amount]\<rparr>, s)"
| "minter_perform H env info config (Escrow owner denom recipient amount) s =
     (if \<exists>coin\<in>set (funds info). fst coin = denom \<and> snd coin = amount
      then Inr (\<lparr>mr_events = [], mr_messages = []\<rparr>, save_native_token denom s)
      else Inr (\<lparr>mr_events = [], mr_messages = [Cw20TransferFrom denom owner recipient amount]\<rparr>, s))"
| "minter_perform H env info config (Unescrow denom recipient amount) s =
     Inr (\<lparr>mr_events = [],
       mr_messages = [if is_native_token denom s then BankSend recipient [(denom, amount)] else Cw20Transfer denom recipient amount]\<rparr>, s)"

definition minter_execute :: "'z minter_host_scheme \<Rightarrow> block_env \<Rightarrow> message_info \<Rightarrow> minter_msg \<Rightarrow> minter_state \<Rightarrow> minter_result" where
  "minter_execute H env info msg s =
     bindE (m_read (m_config s)) (\<lambda>config.
     bindE (ensureE (mc_admin config = sender info) OnlyAdmin) (\<lambda>_.
     minter_perform H env info config msg s))"

section \<open>Queries\<close>

datatype minter_query_msg =
    MQMetadata string
  | MQPredictWrappedToken string channel_id bytes
  | MQPredictWrappedTokenV2 string channel_id bytes h256

datatype minter_answer = MAMetadata string string u8 | MAWrappedToken addr

definition DEFAULT_DECIMALS :: u8 where "DEFAULT_DECIMALS = 6"

text \<open>The address of the token with a salt made from the path.\<close>

definition token_address :: "'z minter_host_scheme \<Rightarrow> block_env \<Rightarrow> string \<Rightarrow> (u256 \<Rightarrow> bytes) \<Rightarrow> minter_state \<Rightarrow> minter_error + minter_answer" where
  "token_address H env path salt s =
     bindE (m_read (m_config s)) (\<lambda>config.
     bindE (map_err MStd (q_code_hash H (mc_dummy_code_id config))) (\<lambda>code_hash.
     bindE (ok_or U256Parse (parse_u256 H path)) (\<lambda>path.
     bindE (map_err MStd (instantiate2 H code_hash (contract_address env) (salt path))) (\<lambda>a. Inr (MAWrappedToken a)))))"

fun minter_query :: "'z minter_host_scheme \<Rightarrow> block_env \<Rightarrow> minter_query_msg \<Rightarrow> minter_state \<Rightarrow> minter_error + minter_answer" where
  "minter_query H env (MQPredictWrappedToken path ch token) s = token_address H env path (\<lambda>path. calculate_salt H path ch token) s"
| "minter_query H env (MQPredictWrappedTokenV2 path ch token img) s = token_address H env path (\<lambda>path. calculate_salt_v2 H path ch token img) s"
| "minter_query H env (MQMetadata denom) s =
     (case q_token_info H denom of
       Inr (name, symbol, decimals) \<Rightarrow> Inr (MAMetadata name symbol decimals)
     | Inl _ \<Rightarrow>
         (case q_denom_metadata H denom of
           Inr (name, symbol, exponents) \<Rightarrow>
             Inr (MAMetadata name symbol (case exponents of e # _ \<Rightarrow> if unat e < 256 then ucast e else DEFAULT_DECIMALS | [] \<Rightarrow> DEFAULT_DECIMALS))
         | Inl _ \<Rightarrow> Inr (MAMetadata denom denom DEFAULT_DECIMALS)))"

text \<open>The token that a V2 order creates has the address that the application predicted for its metadata.\<close>

lemma created_token_is_predicted:
  assumes "minter_execute H env info (CreateDenomV2 subdenom path ch token implementation initializer) s = Inr (r, s')"
    "m_config s = Some config" "q_code_hash H (mc_dummy_code_id config) = Inr code_hash" "parse_u256 H path_str = Some path"
  shows "\<exists>salt code_id admin. mr_messages r = [InstantiateToken (contract_address env) (mc_dummy_code_id config) subdenom salt,
        MigrateToken subdenom code_id initializer, UpdateTokenAdmin subdenom admin] \<and>
      minter_query H env (MQPredictWrappedTokenV2 path_str ch token (keccak256 H (enc_metadata_pair H implementation initializer))) s =
        bindE (map_err MStd (instantiate2 H code_hash (contract_address env) salt)) (\<lambda>a. Inr (MAWrappedToken a))"
  using assms
  by (auto simp: minter_execute_def m_read_def create_denom_v2_def Let_def bindE_eq_Inr ok_or_eq_Inr token_address_def compute_metadata_image_def)

section \<open>Messages to the minter name the minter\<close>

fun names_minter :: "zkgm_msg \<Rightarrow> bool" where
  "names_minter (ToMinter a (Escrow _ _ to _) _) \<longleftrightarrow> to = a"
| "names_minter (ToMinter a (BurnTokens _ _ from _) _) \<longleftrightarrow> from = a"
| "names_minter _ \<longleftrightarrow> True"

fun addressed :: "zkgm_msg \<Rightarrow> bool" where
  "addressed (SelfBatch _ ms) \<longleftrightarrow> (\<forall>m\<in>set ms. self_call m = None \<and> names_minter m)"
| "addressed m \<longleftrightarrow> names_minter m"

abbreviation all_addressed :: "zkgm_sub_msg list \<Rightarrow> bool" where
  "all_addressed ms \<equiv> list_all (\<lambda>m. addressed (fst m)) ms"

interpretation address_law: message_law "\<lambda>_ ms _. all_addressed ms" "\<lambda>_ _. True"
  by unfold_locales auto

lemma fill_addressed:
  "market_maker_fill env caller msg q quote minter receiver fs s = Inr (r, fs', s') \<Longrightarrow> all_addressed (z_messages r)"
  "market_maker_fill_v2 H env caller relayer msg minter path packet order intent fs s = Inr (r, fs', s') \<Longrightarrow> all_addressed (z_messages r)"
  by (auto simp: market_maker_fill_def market_maker_fill_v2_def relayer_market_maker_fill_v2_def solver_market_maker_fill_v2_def fill_messages_def
      bindE_eq_Inr split: if_split_asm)

lemma pay_addressed [simp]: "all_addressed (pay (mint_of d) minter q a f b)" "all_addressed (pay (unescrow_of d) minter q a f b)"
  by (simp_all add: pay_def)

lemma execute_v1_addressed:
  assumes "execute_token_order_v1 H env caller packet relayer msg path order intent fs s = Inr (r, fs', s')"
  shows "all_addressed (z_messages r)"
  using assms
proof (cases rule: execute_token_order_v1_Inr)
  case (mint denom q s1 minter create receiver fee)
  then have "all_addressed create"
    by (auto simp: deploy_v1_def bindE_eq_Inr split: if_split_asm)
  then show ?thesis
    using mint(3) by (simp add: write_ack_def)
next
  case (unescrow denom q b s1 minter receiver rev)
  then show ?thesis by (simp add: write_ack_def)
qed (rule fill_addressed(1))

lemma execute_v2_addressed:
  assumes "execute_token_order_v2 H env caller packet relayer msg path order intent fs s = Inr (r, fs', s')"
  shows "all_addressed (z_messages r)"
  using assms
proof (cases rule: execute_token_order_v2_Inr)
  case (mint denom q b s1 receiver metadata can)
  then show ?thesis
    by (auto simp: protocol_fill_mint_def deploy_v2_def write_ack_def bindE_eq_Inr split: if_split_asm option.split_asm)
next
  case (unescrow denom q b s1 receiver)
  then show ?thesis
    by (auto simp: protocol_fill_unescrow_v2_def write_ack_def bindE_eq_Inr split: if_split_asm)
qed (rule fill_addressed(2))

lemma execute_batch_addressed:
  assumes "execute_batch f k is fs s = Inr (r, fs', s')"
    "\<And>k i fs s r fs' s'. f k i fs s = Inr (r, fs', s') \<Longrightarrow> all_addressed (z_messages r)"
  shows "all_addressed (z_messages r)"
  using assms(1)
proof (induction "is" arbitrary: k fs s r)
  case (Cons i "is")
  then obtain r1 fs1 s1 r2 where e: "f k i fs s = Inr (r1, fs1, s1)" "execute_batch f (Suc k) is fs1 s1 = Inr (r2, fs', s')" "r = z_append r1 r2"
    by (auto simp: bindE_eq_Inr)
  show ?case
    using Cons.IH [OF e(2)] assms(2) [OF e(1)] e(3) by simp
qed auto

lemma execute_internal_addressed:
  assumes "execute_internal n H env caller packet relayer msg salt path i intent fs s = Inr (r, fs', s')"
  shows "all_addressed (z_messages r)"
  using assms
proof (induction n arbitrary: salt i fs s r fs' s')
  case (Suc n)
  consider (v1) order where "execute_token_order_v1 H env caller packet relayer msg path order intent fs s = Inr (r, fs', s')"
    | (v2) order where "execute_token_order_v2 H env caller packet relayer msg path order intent fs s = Inr (r, fs', s')"
    | (batch) "is" s1 where "execute_batch (\<lambda>k i. execute_internal n H env caller packet relayer msg (derive_batch_salt H k salt) path i intent)
        0 is fs s1 = Inr (r, fs', s')"
    | (call) call where "execute_call H env caller packet relayer msg path call intent s = Inr (r, s')"
    | (forward) fw where "execute_forward H env packet salt path fw intent s = Inr (r, s')"
    using Suc.prems by (auto simp: bindE_eq_Inr with_purse_def split: if_split_asm)
  then show ?case
  proof cases
    case batch
    then show ?thesis by (rule execute_batch_addressed) (rule Suc.IH)
  next
    case call
    then show ?thesis by (rule execute_call_Inr) (auto simp: create_proxy_def call_message_def write_ack_def)
  next
    case forward
    then show ?thesis by (auto simp: execute_forward_def write_ack_def bindE_eq_Inr split: if_split_asm)
  qed (erule execute_v1_addressed execute_v2_addressed)+
qed simp

lemma zkgm_execute_addressed:
  assumes "zkgm_execute H env info em s = Inr (r, s')" "\<And>ms. em = InternalBatch ms \<Longrightarrow> \<forall>m\<in>set ms. self_call m = None \<and> names_minter m"
  shows "all_addressed (z_messages r)"
proof (cases em)
  case (IbcUnion msg)
  then have "execute_ibc H env info msg s = Inr (r, s')"
    using assms(1) by (auto simp: bindE_eq_Inr)
  then show ?thesis
    by (cases msg) (auto simp: bindE_eq_Inr dispatch_execute_packet_def intro: address_law.packet_callbacks_law)
next
  case (InternalBatch ms)
  have "addressed m" if "m \<in> set ms" for m
    using assms(2) [OF InternalBatch] that by (cases m) auto
  then show ?thesis
    using assms(1) InternalBatch by (auto simp: bindE_eq_Inr list_all_iff)
next
  case (InternalExecutePacket caller packet relayer msg intent)
  then show ?thesis
    using assms(1) execute_internal_addressed by (fastforce simp: bindE_eq_Inr execute_packet_def)
next
  case (Send ch timeout salt i)
  then show ?thesis
    using assms(1) by (auto simp: bindE_eq_Inr intro: address_law.send_law)
next
  case (ZRestricted m)
  then obtain sched s1 where e: "z_ensure_can_call H env info m s = Inr (sched, s1)"
      "(case sched of None \<Rightarrow> execute_zrestricted env info m s1 | Some subs \<Rightarrow> Inr (z_respond [] subs, s1)) = Inr (r, s')"
    using assms(1) by (auto simp: bindE_eq_Inr)
  have u: "execute_zrestricted env info m s1 = Inr (r, s') \<Longrightarrow> all_addressed (z_messages r)"
    by (cases "(env, info, m, s1)" rule: execute_zrestricted.cases)
       (auto simp: bindE_eq_Inr set_bucket_config_def migrate_v1_to_v2_def update_zconfig_def pause_def unpause_def)
  from e(1) show ?thesis
    by (cases rule: z_ensure_can_call_Inr) (use e(2) u in auto)
qed (use assms(1) in \<open>auto simp: bindE_eq_Inr z_set_authority_def split: if_split_asm\<close>)

lemma zkgm_reply_addressed:
  assumes "zkgm_reply H env i res s = Inr (r, s')"
  shows "all_addressed (z_messages r)"
  using assms
  by (cases res)
     (auto simp: zkgm_reply_def execute_packet_reply_def forward_reply_def call_reply_def maker_reply_def solver_reply_def Let_def
       write_ack_def bindE_eq_Inr split: if_split_asm option.split_asm)

definition addressed_world :: "world \<Rightarrow> bool" where
  "addressed_world W \<longleftrightarrow> (\<forall>m s data evs l s'. w_call W m s = (SubOk data evs, l, s') \<longrightarrow> (\<forall>k\<in>set l. names_minter k))"

lemma run_addressed:
  assumes "run_sub n W H env sm s = Inr (l, s')" "addressed (fst sm)" "addressed_world W"
  shows "\<forall>k\<in>set l. names_minter k"
  using assms(1,2)
proof (induction n arbitrary: sm s l s')
  case (Suc n)
  obtain m on where sm: "sm = (m, on)"
    by (cases sm) auto
  have subs: "\<forall>k\<in>set l. names_minter k" if "run_subs (run_sub n W H env) ms s = Inr (l, s')" "all_addressed ms" for ms s l s'
    using that(1) by (rule run_subs_log) (use Suc.IH that(2) in \<open>unfold list_all_iff, blast\<close>)
  have call: "\<forall>k\<in>set l1. names_minter k" if c: "call_msg (run_sub n W H env) W H env m s = Inr (l1, res, s1)" for l1 res s1
  proof (cases "self_call m")
    case None
    then obtain d e l' where w: "w_call W m s = (SubOk d e, l', s1)" "l1 = m # l'"
      by (rule call_msg_other [OF _ c])
    have "\<forall>k\<in>set l'. names_minter k"
      using assms(3) [unfolded addressed_world_def, rule_format, OF w(1)] by blast
    moreover have "names_minter m"
      using Suc.prems(2) sm by (cases m) auto
    ultimately show ?thesis
      using w(2) by simp
  next
    case (Some x)
    then obtain em fs where x: "self_call m = Some (em, fs)"
      by (cases x) auto
    then obtain r s2 where e: "zkgm_execute H env \<lparr>sender = contract_address env, funds = fs\<rparr> em s = Inr (r, s2)"
        "run_subs (run_sub n W H env) (z_messages r) s2 = Inr (l1, s1)"
      by (rule call_msg_self [OF _ c])
    have "em = InternalBatch ms \<Longrightarrow> \<forall>m\<in>set ms. self_call m = None \<and> names_minter m" for ms
      using x Suc.prems(2) sm by (cases m) auto
    then show ?thesis
      using subs [OF e(2)] zkgm_execute_addressed [OF e(1)] by blast
  qed
  have reply: "\<forall>k\<in>set l. names_minter k"
    if rp: "reply_msg (run_sub n W H env) W H env i l1 res s1 = Inr (l, s')" and l1: "\<forall>k\<in>set l1. names_minter k" for i l1 res s1
  proof -
    obtain r s2 k where e: "zkgm_reply H env i res s1 = Inr (r, s2)" "run_subs (run_sub n W H env) (z_messages r) s2 = Inr (k, s')" "l = l1 @ k"
      by (rule reply_msg_Inr [OF rp])
    show ?thesis
      using subs [OF e(2) zkgm_reply_addressed [OF e(1)]] e(3) l1 by auto
  qed
  from Suc.prems(1) [unfolded sm] show ?case
  proof (cases rule: run_sub_Inr)
    case (never res)
    then show ?thesis using call by simp
  next
    case (answered i l1 res s1)
    then show ?thesis using reply call by blast
  next
    case (failed i t)
    then show ?thesis using reply [OF failed(2)] by simp
  qed
qed simp

lemma zkgm_run_addressed:
  assumes "zkgm_run n W H env info em s = Inr (l, s')" "outside env info" "addressed_world W"
  shows "\<forall>k\<in>set l. names_minter k"
proof -
  obtain r s1 where e: "zkgm_execute H env info em s = Inr (r, s1)" "run_subs (run_sub n W H env) (z_messages r) s1 = Inr (l, s')"
    using assms(1) by (auto simp: zkgm_run_def run_response_Inr as_run_Inr)
  have a: "all_addressed (z_messages r)"
    by (rule zkgm_execute_addressed [OF e(1)]) (use e(1) assms(2) in \<open>auto simp: bindE_eq_Inr only_self_def ensureE_eq_Inr outside_def\<close>)
  show ?thesis
    using e(2) by (rule run_subs_log) (use a run_addressed [OF _ _ assms(3)] in \<open>unfold list_all_iff, blast\<close>)
qed

lemma trace_addressed:
  assumes "zkgm_trace Q s0 l s" "\<And>W. Q W \<Longrightarrow> addressed_world W"
  shows "\<forall>k\<in>set l. names_minter k"
  using assms(1)
proof induction
  case (trace_call l s env info W n H em k s')
  then show ?case
    using zkgm_run_addressed [OF trace_call(5,2) assms(2)] by auto
qed auto

section \<open>Holdings\<close>

text \<open>Who holds how much of which token, bank and CW20 alike.\<close>

type_synonym ledger = "string \<Rightarrow> addr \<Rightarrow> nat"

definition coin_total :: "string \<Rightarrow> coins \<Rightarrow> nat" where
  "coin_total d cs = sum_list (map snd (filter (\<lambda>c. fst c = d) cs))"

text \<open>The coins that go along with a call move before it.\<close>

definition receive_coins :: "addr \<Rightarrow> addr \<Rightarrow> coins \<Rightarrow> ledger \<Rightarrow> ledger" where
  "receive_coins z M cs L = (\<lambda>d a. if a = M then L d a + coin_total d cs else if a = z then L d a - coin_total d cs else L d a)"

text \<open>
  What the interface of CW20 and the bank promise about the holdings of the account \<open>M\<close> that sends the message, and that a
  message to \<open>tok\<close> that is accepted does at least this.
\<close>

fun holding_change :: "addr \<Rightarrow> string \<Rightarrow> token_msg \<Rightarrow> int" where
  "holding_change M d (Cw20Mint d' to a) = (if d' = d \<and> to = M then int a else 0)"
| "holding_change M d (Cw20Burn d' a) = (if d' = d then - int a else 0)"
| "holding_change M d (Cw20BurnFrom d' owner a) = (if d' = d \<and> owner = M then - int a else 0)"
| "holding_change M d (Cw20TransferFrom d' owner to a) = (if d' = d then (if to = M then int a else 0) - (if owner = M then int a else 0) else 0)"
| "holding_change M d (Cw20Transfer d' to a) = (if d' = d \<and> to \<noteq> M then - int a else 0)"
| "holding_change M d (BankSend to cs) = (if to \<noteq> M then - int (coin_total d cs) else 0)"
| "holding_change M d _ = 0"

definition fair_tokens :: "addr \<Rightarrow> (token_msg \<Rightarrow> ledger \<Rightarrow> ledger option) \<Rightarrow> bool" where
  "fair_tokens M tok \<longleftrightarrow> (\<forall>m L L' d. tok m L = Some L' \<longrightarrow> int (L d M) + holding_change M d m \<le> int (L' d M))"

fun apply_tokens :: "(token_msg \<Rightarrow> ledger \<Rightarrow> ledger option) \<Rightarrow> token_msg list \<Rightarrow> ledger \<Rightarrow> ledger option" where
  "apply_tokens tok [] L = Some L"
| "apply_tokens tok (m # ms) L = Option.bind (tok m L) (apply_tokens tok ms)"

lemma apply_tokens_holdings:
  assumes "apply_tokens tok ms L = Some L'" "fair_tokens M tok"
  shows "int (L d M) + sum_list (map (holding_change M d) ms) \<le> int (L' d M)"
  using assms(1)
proof (induction ms arbitrary: L)
  case (Cons m ms)
  then obtain L1 where l: "tok m L = Some L1" "apply_tokens tok ms L1 = Some L'"
    by (auto simp: bind_eq_Some_conv)
  have "int (L d M) + holding_change M d m \<le> int (L1 d M)"
    using assms(2) l(1) unfolding fair_tokens_def by blast
  then show ?case
    using Cons.IH [OF l(2)] by simp
qed simp

lemma coin_total_ge: "(d, a) \<in> set cs \<Longrightarrow> a \<le> coin_total d cs"
  unfolding coin_total_def by (rule member_le_sum_list) (force, simp)

lemma minter_execute_holdings:
  assumes "minter_execute H env \<lparr>sender = z, funds = cs\<rparr> msg s = Inr (r, s')" "apply_tokens tok (mr_messages r) (receive_coins z M cs L) = Some L'"
    "fair_tokens M tok" "contract_address env = M" "names_minter (ToMinter M msg cs)" "\<And>d to a. msg \<noteq> Escrow M d to a"
  shows "int (L d M) + net_minter d msg \<le> int (L' d M)"
proof -
  have "int (receive_coins z M cs L d M) + sum_list (map (holding_change M d) (mr_messages r)) \<le> int (L' d M)"
    using assms(2,3) by (rule apply_tokens_holdings)
  moreover have "net_minter d msg \<le> int (coin_total d cs) + sum_list (map (holding_change M d) (mr_messages r))"
  proof (cases msg)
    case (Escrow owner d' to a)
    then show ?thesis
      using assms(1,4,5,6) coin_total_ge [of d a cs]
      by (fastforce simp: minter_execute_def bindE_eq_Inr split: if_split_asm)
  qed (use assms(1,4,5) in \<open>auto simp: minter_execute_def bindE_eq_Inr create_denom_v2_def Let_def coin_total_def split: if_split_asm\<close>)
  ultimately show ?thesis
    by (simp add: receive_coins_def)
qed

section \<open>The application and its minter\<close>

text \<open>
  The messages of a log are carried out one after the other: those for the minter by its code and then by the tokens, each
  other one by somebody who cannot take tokens of the minter.
\<close>

inductive served :: "addr \<Rightarrow> addr \<Rightarrow> (token_msg \<Rightarrow> ledger \<Rightarrow> ledger option) \<Rightarrow> minter_state \<Rightarrow> ledger \<Rightarrow> zkgm_msg list \<Rightarrow> minter_state \<Rightarrow> ledger \<Rightarrow> bool"
  for z M tok ms0 L0 where
  served_start: "served z M tok ms0 L0 [] ms0 L0"
| served_minter: "served z M tok ms0 L0 l ms L \<Longrightarrow> contract_address env = M \<Longrightarrow>
    minter_execute (H :: minter_host) env \<lparr>sender = z, funds = cs\<rparr> msg ms = Inr (r, ms') \<Longrightarrow>
    apply_tokens tok (mr_messages r) (receive_coins z M cs L) = Some L' \<Longrightarrow> served z M tok ms0 L0 (l @ [ToMinter M msg cs]) ms' L'"
| served_elsewhere: "served z M tok ms0 L0 l ms L \<Longrightarrow> (\<And>a x cs. m \<noteq> ToMinter a x cs) \<Longrightarrow> (\<And>d. L d M \<le> L' d M) \<Longrightarrow>
    served z M tok ms0 L0 (l @ [m]) ms L'"

definition escrows_own :: "addr \<Rightarrow> zkgm_msg \<Rightarrow> bool" where
  "escrows_own M m \<longleftrightarrow> (\<exists>a d to v cs. m = ToMinter a (Escrow M d to v) cs)"

lemma served_holdings:
  assumes "served z M tok ms0 L0 l ms L" "fair_tokens M tok" "\<forall>m\<in>set l. names_minter m \<and> \<not> escrows_own M m"
  shows "int (L0 d M) + net d l \<le> int (L d M)"
  using assms(1,3)
proof induction
  case (served_minter l ms L env H cs msg r ms' L')
  have "int (L d M) + net_minter d msg \<le> int (L' d M)"
    by (rule minter_execute_holdings [OF served_minter(3,4) assms(2) served_minter(2)])
       (use served_minter.prems in \<open>auto simp: escrows_own_def\<close>)
  then show ?case
    using served_minter by simp
next
  case (served_elsewhere l ms L m L')
  have "net_msg d m = 0"
    using served_elsewhere(2) by (cases m) auto
  then show ?case
    using served_elsewhere.IH served_elsewhere.prems served_elsewhere(3) [of d] by simp
qed simp


end
