(* ===== verification/Zkgm_Demo.thy ===== *)
theory Zkgm_Demo
  imports Zkgm_Flaws Zkgm_Minter Core_Contract
begin

text \<open>
  One instance of the zkgm application: codecs of which that of the packet is a real one (a fixed layout that is
  shown to decode what it encodes), a minter and a host that accept everything, and a state with one escrowed balance. The
  properties of the application are applied to transactions on it.
\<close>

section \<open>A host, a world, a state\<close>

definition demo_enc :: "zkgm_packet \<Rightarrow> bytes" where
  "demo_enc z = h256_bytes (zp_salt z) @ h256_bytes (zp_path z) @
     i_version (zp_instruction z) # i_opcode (zp_instruction z) # i_operand (zp_instruction z)"

definition demo_dec :: "bytes \<Rightarrow> zkgm_packet option" where
  "demo_dec bs =
     (case drop 64 bs of
       v # op # operand \<Rightarrow> Some \<lparr>zp_salt = h256_of_bytes (take 32 bs), zp_path = h256_of_bytes (take 32 (drop 32 bs)),
         zp_instruction = \<lparr>i_version = v, i_opcode = op, i_operand = operand\<rparr>\<rparr>
     | _ \<Rightarrow> None)"

lemma demo_dec_enc [simp]: "demo_dec (demo_enc z) = Some z"
  by (simp add: demo_dec_def demo_enc_def)

definition escrow_order :: order_v2 where
  "escrow_order = \<lparr>o2_sender = [97], o2_receiver = [98], o2_base_token = [117], o2_base_amount = 100, o2_quote_token = [119],
     o2_quote_amount = 90, o2_kind = TOKEN_ORDER_KIND_ESCROW, o2_metadata = []\<rparr>"

definition unescrow_order :: order_v2 where
  "unescrow_order = \<lparr>o2_sender = [98], o2_receiver = [97], o2_base_token = [119], o2_base_amount = 100, o2_quote_token = [117],
     o2_quote_amount = 90, o2_kind = TOKEN_ORDER_KIND_UNESCROW, o2_metadata = []\<rparr>"

definition maker_order :: order_v2 where
  "maker_order = unescrow_order\<lparr>o2_quote_amount := 200\<rparr>"

definition order_instruction :: "u8 \<Rightarrow> instruction" where
  "order_instruction b = \<lparr>i_version = INSTR_VERSION_2, i_opcode = OP_TOKEN_ORDER, i_operand = [b]\<rparr>"

lemma order_instruction_simps [simp]: "i_opcode (order_instruction b) = OP_TOKEN_ORDER" "i_version (order_instruction b) = INSTR_VERSION_2"
  by (simp_all add: order_instruction_def)

definition zd_packet :: "h256 \<Rightarrow> instruction \<Rightarrow> packet" where
  "zd_packet salt i = \<lparr>source_channel_id = 1, destination_channel_id = 2,
     packet_data = demo_enc \<lparr>zp_salt = salt, zp_path = 0, zp_instruction = i\<rparr>, timeout_height = MustBeZero, timeout_timestamp = 5\<rparr>"

definition zd_host :: zkgm_host where
  "zd_host = \<lparr>keccak256 = \<lambda>_. 0, abi_packets = \<lambda>_. [], abi_packet = \<lambda>_. [], abi_channel = \<lambda>_. [], abi_connection = \<lambda>_. [],
     abi_acks = \<lambda>_. [],
     dec_packet = demo_dec, enc_packet = demo_enc,
     dec_instruction = \<lambda>bs. (case bs of v # op # operand \<Rightarrow> Some \<lparr>i_version = v, i_opcode = op, i_operand = operand\<rparr> | _ \<Rightarrow> None),
     dec_forward = \<lambda>_. Some \<lparr>fw_path = 0, fw_timeout_height = 0, fw_timeout_timestamp = 5, fw_instruction = order_instruction 1\<rparr>,
     enc_forward = \<lambda>_. [], dec_call = \<lambda>_. None, dec_batch = \<lambda>_. Some [order_instruction 3, order_instruction 3],
     dec_order_v1 = \<lambda>_. None,
     dec_order_v2 = \<lambda>bs. if bs = [1] then Some escrow_order else if bs = [2] then Some unescrow_order
       else if bs = [3] then Some maker_order else None,
     dec_metadata = \<lambda>_. None, enc_metadata = \<lambda>_. [], dec_solver = \<lambda>_. None,
     dec_ack = \<lambda>bs. Some \<lparr>ack_tag = (if bs = [1] then TAG_ACK_SUCCESS else TAG_ACK_FAILURE), ack_inner = []\<rparr>,
     enc_ack = \<lambda>a. if ack_tag a = TAG_ACK_SUCCESS then [1] else [0],
     dec_batch_ack = \<lambda>_. None, enc_batch_ack = \<lambda>_. [2], dec_order_ack = \<lambda>_. None, enc_order_ack = \<lambda>_. [3], enc_u256 = \<lambda>_. [4],
     enc_u256_h256 = \<lambda>_ _. [], enc_h256 = \<lambda>_. [], enc_bytes_h256 = \<lambda>_ _. [], enc_calldata = \<lambda>_ _ _. [], enc_proxy_salt = \<lambda>_. [],
     json_packet = \<lambda>_. Some (zd_packet FORWARD_SALT_MAGIC (order_instruction 1)), parse_u256 = \<lambda>_. None, bytes_from_str = \<lambda>_. None,
     z_addr_validate = Inr, q_code_hash = \<lambda>_. Inr 0, instantiate2 = \<lambda>_ _ _. Inr ''proxy'', burn_address = Inr ''burn'',
     q_metadata = \<lambda>_ _. Inr (''n'', ''s'', 6), q_predict = \<lambda>_ _ _ _. Inr ''w'', q_predict_v2 = \<lambda>_ _ _ _ _. Inr ''w'',
     z_contract_exists = \<lambda>_. True, zq_can_call = \<lambda>_ _ _ _. Inr Immediate\<rparr>"

lemma zd_host_simps [simp]:
  "dec_packet zd_host = demo_dec" "enc_packet zd_host = demo_enc" "keccak256 zd_host x = 0"
  "dec_instruction zd_host (a # b # bs) = Some \<lparr>i_version = a, i_opcode = b, i_operand = bs\<rparr>"
  "dec_forward zd_host x = Some \<lparr>fw_path = 0, fw_timeout_height = 0, fw_timeout_timestamp = 5, fw_instruction = order_instruction 1\<rparr>"
  "dec_batch zd_host x = Some [order_instruction 3, order_instruction 3]"
  "dec_order_v2 zd_host [1] = Some escrow_order" "dec_order_v2 zd_host [2] = Some unescrow_order" "dec_order_v2 zd_host [3] = Some maker_order"
  "dec_ack zd_host [0] = Some \<lparr>ack_tag = TAG_ACK_FAILURE, ack_inner = []\<rparr>"
  "enc_order_ack zd_host oa = [3]" "enc_batch_ack zd_host l = [2]" "enc_u256 zd_host w = [4]"
  "json_packet zd_host x = Some (zd_packet FORWARD_SALT_MAGIC (order_instruction 1))"
  "z_addr_validate zd_host ad = Inr ad" "q_predict zd_host m p c t = Inr ''w''" "q_predict_v2 zd_host m p c t h = Inr ''w''"
  by (simp_all add: zd_host_def)

lemma zd_wide: "wide_codec zd_host"
  by (simp add: wide_codec_def)

definition zd_world :: world where
  "zd_world = \<lparr>w_call = \<lambda>_ s. (SubOk None [], [], s), w_text = \<lambda>_. ''error''\<rparr>"

lemma zd_world_simps [simp]:
  "w_call zd_world m s = (SubOk None [], [], s)" "w_text zd_world e = ''error''"
  by (simp_all add: zd_world_def)

lemma zd_world_laws: "quiet_world zd_world" "world_books zd_world" "unpaid_world zd_world"
  by (simp_all add: quiet_world_def world_books_def unpaid_world_def same_scratch_def net_def)

definition zd_start :: zkgm_state where
  "zd_start = \<lparr>zk_config = Some \<lparr>zc_admin = ''admin'', zc_ibc_host = ''host'', zc_token_minter_code_id = 1, zc_rate_limit_disabled = True,
       zc_dummy_code_id = 2, zc_cw_account_code_id = 3\<rparr>, token_minter = Some ''minter'', token_origin = Map.empty,
     deprecated_channel_balance_v1 = Map.empty, channel_balance_v2 = Map.empty, metadata_image_of = Map.empty, executing_packet = None,
     executing_packet_is_batch = None, execution_ack = None, batch_execution_acks = None, hash_to_foreign_token = Map.empty,
     in_flight_packet = Map.empty, market_maker = None, token_bucket_of = Map.empty, created_proxy_account = None, zk_paused = False,
     zk_authority = Some ''manager'', zk_consuming_schedule = Some False, zk_version = Some 2\<rparr>"

lemma zd_start_simps [simp]:
  "zk_config zd_start = Some \<lparr>zc_admin = ''admin'', zc_ibc_host = ''host'', zc_token_minter_code_id = 1, zc_rate_limit_disabled = True,
       zc_dummy_code_id = 2, zc_cw_account_code_id = 3\<rparr>"
  "token_minter zd_start = Some ''minter''" "channel_balance_v2 zd_start = Map.empty" "deprecated_channel_balance_v1 zd_start = Map.empty"
  "in_flight_packet zd_start = Map.empty" "executing_packet zd_start = None" "executing_packet_is_batch zd_start = None"
  "execution_ack zd_start = None" "zk_paused zd_start = False" "market_maker zd_start = None" "batch_execution_acks zd_start = None"
  "created_proxy_account zd_start = None" "token_origin zd_start = Map.empty" "metadata_image_of zd_start = Map.empty"
  by (simp_all add: zd_start_def)

definition zd_escrowed :: zkgm_state where
  "zd_escrowed = zd_start\<lparr>channel_balance_v2 := [(2, 0, ''u'', [119]) \<mapsto> 150]\<rparr>"

definition zd_env :: block_env where
  "zd_env = \<lparr>contract_address = ''zkgm'', block_time = 7\<rparr>"

lemma zd_env_simps [simp]: "contract_address zd_env = ''zkgm''"
  by (simp add: zd_env_def)

lemma zd_strings [simp]:
  "from_utf8 [97] = Some ''a''" "from_utf8 [98] = Some ''b''" "from_utf8 [117] = Some ''u''" "from_utf8 [119] = Some ''w''"
  by code_simp+

lemma zd_reverse [simp]: "reverse_channel_path 0 = Inr 0"
  by code_simp

lemma zd_opcodes [simp]:
  "OP_TOKEN_ORDER \<noteq> OP_FORWARD" "OP_TOKEN_ORDER \<noteq> OP_BATCH" "OP_TOKEN_ORDER \<noteq> OP_CALL" "OP_FORWARD \<noteq> OP_TOKEN_ORDER" "OP_FORWARD \<noteq> OP_BATCH"
  "OP_BATCH \<noteq> OP_TOKEN_ORDER" "INSTR_VERSION_2 \<noteq> INSTR_VERSION_1"
  by (simp_all add: opcode_defs INSTR_VERSION_1_def INSTR_VERSION_2_def)

lemmas zd_orders = escrow_order_def unescrow_order_def maker_order_def kind_defs

section \<open>Sending\<close>

abbreviation zd_send :: zkgm_execute_msg where
  "zd_send \<equiv> Send 1 5 0 [INSTR_VERSION_2, OP_TOKEN_ORDER, 1]"

abbreviation zd_alice :: message_info where
  "zd_alice \<equiv> \<lparr>sender = ''a'', funds = []\<rparr>"

definition zd_sent :: zkgm_state where
  "zd_sent = zd_start\<lparr>channel_balance_v2 := [(1, 0, ''u'', [119]) \<mapsto> 100]\<rparr>"

lemma zd_sends:
  "send zd_host zd_alice 1 5 0 (order_instruction 1) zd_start =
     Inr (z_respond [] [plain (ToMinter ''minter'' (Escrow ''a'' ''u'' ''minter'' 100) []),
            plain (ToHost ''host'' (PacketSend 1 5 (packet_data (zd_packet 0 (order_instruction 1)))))], zd_sent)"
  by (simp add: send_def coins_try_from_def numeral_3_eq_3 verify_token_order_v2_def increase_channel_balance_v2_def take_coin_def to_u128_def
      zd_orders order_instruction_def zd_packet_def zd_sent_def)

lemma zd_send_run:
  "zkgm_run 3 zd_world zd_host zd_env zd_alice zd_send zd_start =
     Inr ([ToMinter ''minter'' (Escrow ''a'' ''u'' ''minter'' 100) [],
           ToHost ''host'' (PacketSend 1 5 (packet_data (zd_packet 0 (order_instruction 1))))], zd_sent)"
  using zd_sends
  by (simp add: zkgm_run_def run_response_def require_not_paused_def is_paused_def order_instruction_def numeral_3_eq_3 call_msg_def)

lemma zd_trace:
  assumes "Q zd_world"
  shows "zkgm_trace Q zd_start [ToMinter ''minter'' (Escrow ''a'' ''u'' ''minter'' 100) [],
    ToHost ''host'' (PacketSend 1 5 (packet_data (zd_packet 0 (order_instruction 1))))] zd_sent"
proof -
  have o: "outside zd_env zd_alice" "token_minter zd_start \<noteq> Some (sender zd_alice)"
    by (simp_all add: outside_def)
  show ?thesis
    using trace_call [where Q = Q, OF trace_start o assms zd_send_run] by simp
qed



theorem zkgm_callers_witness:
  "\<exists>r s'. zkgm_execute zd_host zd_env zd_alice zd_send zd_start = Inr (r, s') \<and> \<not> zk_paused zd_start"
proof -
  obtain r s' where e: "zkgm_execute zd_host zd_env zd_alice zd_send zd_start = Inr (r, s')"
    using zd_sends by (simp add: require_not_paused_def is_paused_def order_instruction_def)
  show ?thesis
    using e zkgm_callers [OF e] by simp
qed

text \<open>The packet comes back as a failure.\<close>

theorem failed_order_returns_witness:
  "\<exists>r t'. z_timeout_packet zd_host ''host'' (zd_packet 0 (order_instruction 1)) ''relayer'' zd_sent = Inr (r, t') \<and>
     z_messages r = [plain (ToMinter ''minter'' (Unescrow ''u'' ''a'' 100) [])] \<and>
     (\<forall>k. stored (channel_balance_v2 t' k) = 0)"
proof -
  have i: "i_opcode (order_instruction 1) = OP_TOKEN_ORDER" "i_version (order_instruction 1) = INSTR_VERSION_2"
      "dec_order_v2 zd_host (i_operand (order_instruction 1)) = Some escrow_order"
    by (simp_all add: order_instruction_def)
  have v: "validate_bytes zd_host InvalidSender UnableToValidateSender (o2_sender escrow_order) = Inr ''a''"
    by (simp add: validate_bytes_def escrow_order_def)
  have "\<forall>z. dec_packet zd_host (enc_packet zd_host z) = Some z"
    by simp
  from failed_order_returns [OF zd_sends i v this, of "''host''" "zd_packet 0 (order_instruction 1)" zd_sent "[0]" "\<lparr>ack_tag = TAG_ACK_FAILURE, ack_inner = []\<rparr>" "''host''" "''relayer''"]
  obtain minter base coins r t' where c: "[plain (ToMinter ''minter'' (Escrow ''a'' ''u'' ''minter'' 100) []),
            plain (ToHost ''host'' (PacketSend 1 5 (packet_data (zd_packet 0 (order_instruction 1)))))] =
        [plain (ToMinter minter (taken escrow_order minter ''a'' base) coins), plain (ToHost ''host'' (PacketSend 1 5 (packet_data (zd_packet 0 (order_instruction 1)))))]"
      "z_timeout_packet zd_host ''host'' (zd_packet 0 (order_instruction 1)) ''relayer'' zd_sent = Inr (r, t')"
      "z_messages r = [plain (ToMinter minter (given_back escrow_order ''a'' base) [])]"
      "\<forall>k. stored (channel_balance_v2 t' k) = stored (channel_balance_v2 zd_start k)"
    by (auto simp: zd_packet_def zd_sent_def TAG_ACK_FAILURE_def TAG_ACK_SUCCESS_def)
  then show ?thesis
    by (auto simp: taken_def given_back_def zd_orders stored_def)
qed

text \<open>A forward around the same order.\<close>

definition forward_instruction :: instruction where
  "forward_instruction = \<lparr>i_version = INSTR_VERSION_0, i_opcode = OP_FORWARD, i_operand = []\<rparr>"

lemma zd_sends_forward:
  "send zd_host zd_alice 1 5 0 forward_instruction zd_start =
     Inr (z_respond [] [plain (ToMinter ''minter'' (Escrow ''a'' ''u'' ''minter'' 100) []),
            plain (ToHost ''host'' (PacketSend 1 5 (packet_data (zd_packet 0 forward_instruction))))], zd_sent)"
  by (simp add: send_def coins_try_from_def numeral_3_eq_3 verify_token_order_v2_def increase_channel_balance_v2_def take_coin_def to_u128_def
      zd_orders order_instruction_def forward_instruction_def zd_packet_def zd_sent_def only_version_0_def is_allowed_forward_instruction_def)

theorem sent_forward_is_stuck_witness:
  "\<exists>r. send zd_host zd_alice 1 5 0 forward_instruction zd_start = Inr (r, zd_sent) \<and> length (z_messages r) = 2 \<and>
     z_timeout_packet zd_host ''host'' (zd_packet 0 forward_instruction) ''relayer'' zd_sent = Inl (UnknownOpcode OP_FORWARD)"
proof -
  have "\<forall>z. dec_packet zd_host (enc_packet zd_host z) = Some z" "i_opcode forward_instruction = OP_FORWARD" "in_flight_packet zd_sent k = None" for k
    by (simp_all add: forward_instruction_def zd_sent_def)
  with sent_forward_is_stuck [OF zd_sends_forward, of "''host''" "zd_packet 0 forward_instruction" zd_sent "''host''" "''relayer''"]
  show ?thesis
    by (simp add: zd_sends_forward)
qed

theorem forwarded_outcome_is_lost_witness:
  "\<exists>r s1. forward_reply zd_host (SubOk (Some []) []) zd_start = Inr (r, s1) \<and>
     (\<exists>s2. z_timeout_packet zd_host ''host'' (zd_packet FORWARD_SALT_MAGIC (order_instruction 1)) ''relayer'' s1 =
        Inr (z_respond [] [plain (ToHost ''host'' (WriteAcknowledgement (zd_packet FORWARD_SALT_MAGIC (order_instruction 1)) [0]))], s2))"
proof -
  let ?p = "zd_packet FORWARD_SALT_MAGIC (order_instruction 1)"
  let ?c = "empty_state"
  obtain r s1 where f: "forward_reply zd_host (SubOk (Some []) []) zd_start = Inr (r, s1)"
    by (simp add: forward_reply_def)
  have d: "json_packet zd_host [] = Some ?p" "dec_packet zd_host (packet_data ?p) = Some \<lparr>zp_salt = FORWARD_SALT_MAGIC, zp_path = 0, zp_instruction = order_instruction 1\<rparr>"
      "is_forwarded_packet (zp_salt \<lparr>zp_salt = FORWARD_SALT_MAGIC, zp_path = 0, zp_instruction = order_instruction 1\<rparr>)"
    by (simp_all add: zd_packet_def is_forwarded_packet_def)
  have c: "read_commit ?c k = None" for k
    by (simp add: read_commit_def empty_state_def)
  have a: "enc_ack zd_host \<lparr>ack_tag = TAG_ACK_FAILURE, ack_inner = []\<rparr> = [0]"
    by (simp add: zd_host_def TAG_ACK_FAILURE_def TAG_ACK_SUCCESS_def)
  show ?thesis
    using f forwarded_outcome_is_lost [OF f d zd_start_simps(1) c] by (simp add: a)
qed

section \<open>Receiving\<close>

abbreviation zd_relay :: "coins \<Rightarrow> message_info" where
  "zd_relay fs \<equiv> \<lparr>sender = ''host'', funds = fs\<rparr>"

abbreviation zd_recv :: "instruction \<Rightarrow> zkgm_execute_msg" where
  "zd_recv i \<equiv> IbcUnion (OnRecvPacket ''relayer'' (zd_packet 0 i) ''relayer'' [])"

lemma zd_fill:
  "execute_token_order_v2 zd_host zd_env ''relayer'' (zd_packet 0 (order_instruction 2)) ''relayer'' [] 0 unescrow_order False fs
      (zd_escrowed\<lparr>executing_packet := e\<rparr>) =
    Inr (z_respond [] [plain (ToMinter ''minter'' (Unescrow ''u'' ''a'' 90) []), plain (ToMinter ''minter'' (Unescrow ''u'' ''relayer'' 10) []),
           write_ack zd_env [3]], fs, zd_escrowed\<lparr>executing_packet := e, channel_balance_v2 := [(2, 0, ''u'', [119]) \<mapsto> 50]\<rparr>)"
  by (simp add: execute_token_order_v2_def zd_orders validate_bytes_def rate_limit_def zd_escrowed_def protocol_fill_unescrow_v2_def
      to_u128_def sub256_def decrease_channel_balance_v2_def zd_packet_def pay_def protocol_ack_def)


lemmas zd_run_simps = zkgm_run_def run_response_def as_run_def require_not_paused_def is_paused_def dispatch_execute_packet_def z_validate_def
  call_msg_def only_self_def reply_msg_def zkgm_reply_def Z_CONSUME_REPLY_ID_def reply_id_defs
  execute_packet_reply_def take_execution_ack_def internal_write_ack_def write_ack_def ACK_ERR_ONLY_MAKER_def numeral_3_eq_3

lemma zd_packet_data: "packet_data (zd_packet salt i) = demo_enc \<lparr>zp_salt = salt, zp_path = 0, zp_instruction = i\<rparr>"
  by (simp add: zd_packet_def)

lemma zd_depth: "execute_internal 2 H = execute_internal (Suc (Suc 0)) H"
  by (simp add: numeral_2_eq_2)

lemma zd_receive_run:
  "\<exists>l s'. zkgm_run 3 zd_world zd_host zd_env (zd_relay []) (zd_recv (order_instruction 2)) zd_escrowed = Inr (l, s')"
proof -
  let ?s = "zd_escrowed\<lparr>executing_packet := Some (zd_packet 0 (order_instruction 2))\<rparr>"
  have "execute_packet zd_host zd_env \<lparr>sender = ''zkgm'', funds = []\<rparr> ''relayer'' (zd_packet 0 (order_instruction 2)) ''relayer'' [] False ?s =
      Inr (z_respond [] [plain (ToMinter ''minter'' (Unescrow ''u'' ''a'' 90) []), plain (ToMinter ''minter'' (Unescrow ''u'' ''relayer'' 10) []),
           write_ack zd_env [3]], ?s\<lparr>channel_balance_v2 := [(2, 0, ''u'', [119]) \<mapsto> 50], created_proxy_account := None\<rparr>)"
    using zd_fill by (simp add: execute_packet_def coins_try_from_def zd_packet_data zd_depth order_instruction_def zd_escrowed_def)
  then show ?thesis
    by (simp add: zd_run_simps zd_escrowed_def)
qed

theorem packet_acknowledged_once_witness:
  "\<exists>l s'. zkgm_run 3 zd_world zd_host zd_env (zd_relay []) (zd_recv (order_instruction 2)) zd_escrowed = Inr (l, s') \<and>
     (\<exists>h a. filter writes_ack l = [ToHost h (WriteAcknowledgement (zd_packet 0 (order_instruction 2)) a)])"
proof -
  obtain l s' where r: "zkgm_run 3 zd_world zd_host zd_env (zd_relay []) (zd_recv (order_instruction 2)) zd_escrowed = Inr (l, s')"
    using zd_receive_run by blast
  have "receives (zd_packet 0 (order_instruction 2)) (zd_recv (order_instruction 2))" "idle zd_escrowed" "\<not> forwards zd_host (zd_packet 0 (order_instruction 2))"
    by (simp_all add: idle_def zd_escrowed_def forwards_def zd_packet_data order_instruction_def)
  then show ?thesis
    using r packet_acknowledged_once [OF r _ _ zd_world_laws(1) zd_wide] by blast
qed

theorem idle_between_calls_witness:
  "\<exists>l s'. zkgm_run 3 zd_world zd_host zd_env (zd_relay []) (zd_recv (order_instruction 2)) zd_escrowed = Inr (l, s') \<and> idle s'"
proof -
  obtain l s' where r: "zkgm_run 3 zd_world zd_host zd_env (zd_relay []) (zd_recv (order_instruction 2)) zd_escrowed = Inr (l, s')"
    using zd_receive_run by blast
  have "outside zd_env (zd_relay [])" "idle zd_escrowed"
    by (simp_all add: outside_def idle_def zd_escrowed_def)
  then show ?thesis
    using r idle_between_calls [OF r _ _ zd_world_laws(1) zd_wide] by blast
qed

theorem run_depth_enough_witness:
  "\<exists>l s'. zkgm_run (3 + 4) zd_world zd_host zd_env (zd_relay []) (zd_recv (order_instruction 2)) zd_escrowed = Inr (l, s')"
  using run_depth_enough [of "zd_recv (order_instruction 2)" zd_world zd_host zd_env "zd_relay []" zd_escrowed 4] zd_receive_run by simp

text \<open>The orders that only a market maker can fill.\<close>

lemma zd_maker_only: "maker_only maker_order"
  by (simp add: maker_only_def zd_orders)

lemma zd_dust_run:
  "\<exists>l s'. zkgm_run 3 zd_world zd_host zd_env (zd_relay [(''u'', 1)]) (zd_recv (order_instruction 3)) zd_escrowed = Inr (l, s')"
proof -
  let ?s = "zd_escrowed\<lparr>executing_packet := Some (zd_packet 0 (order_instruction 3))\<rparr>"
  have "execute_packet zd_host zd_env \<lparr>sender = ''zkgm'', funds = [(''u'', 1)]\<rparr> ''relayer'' (zd_packet 0 (order_instruction 3)) ''relayer'' [] False ?s =
      Inl (ZStd OverflowErr)"
    by (simp add: execute_packet_def coins_try_from_def zd_packet_data zd_depth order_instruction_def zd_escrowed_def
        execute_token_order_v2_def zd_orders validate_bytes_def wrapped_token_v2_def market_maker_fill_v2_def relayer_market_maker_fill_v2_def
        take_coin_def to_u128_def coins_sub_def)
  then show ?thesis
    by (simp add: zd_run_simps zd_escrowed_def)
qed

theorem dust_cancels_order_witness:
  "\<exists>l s' h. zkgm_run 3 zd_world zd_host zd_env (zd_relay [(''u'', 1)]) (zd_recv (order_instruction 3)) zd_escrowed = Inr (l, s') \<and>
     filter writes_ack l = [ToHost h (WriteAcknowledgement (zd_packet 0 (order_instruction 3))
       (enc_ack zd_host \<lparr>ack_tag = TAG_ACK_FAILURE, ack_inner = []\<rparr>))]"
proof -
  obtain l s' where r: "zkgm_run 3 zd_world zd_host zd_env (zd_relay [(''u'', 1)]) (zd_recv (order_instruction 3)) zd_escrowed = Inr (l, s')"
    using zd_dust_run by blast
  have c: "coins_try_from (funds (zd_relay [(''u'', 1)])) = Some (\<lambda>d. if d = ''u'' then 1 else 0)"
    by (auto simp: coins_try_from_def)
  have "dec_packet zd_host (packet_data (zd_packet 0 (order_instruction 3))) = Some \<lparr>zp_salt = 0, zp_path = 0, zp_instruction = order_instruction 3\<rparr>"
    by (simp add: zd_packet_data)
  from dust_cancels_order [OF r zd_world_laws(1) this _ _ _ zd_maker_only _ c, of "''u''"] r show ?thesis
    by (auto simp: order_instruction_def zd_orders)
qed

definition batch_instruction :: instruction where
  "batch_instruction = \<lparr>i_version = INSTR_VERSION_0, i_opcode = OP_BATCH, i_operand = []\<rparr>"

lemma zd_maker_fill:
  "execute_internal (Suc n) zd_host zd_env ''relayer'' p ''relayer'' [] salt 0 (order_instruction 3) False (\<lambda>_. 0) s =
    (case token_minter s of
      Some minter \<Rightarrow> Inr (z_respond [] [(SelfBatch ''zkgm'' (fill_messages ''relayer'' minter ''u'' 200 ''a'' []), ReplyAlways MM_RELAYER_FILL_REPLY_ID)],
        \<lambda>_. 0, s\<lparr>market_maker := Some []\<rparr>)
    | None \<Rightarrow> Inl (ZStd (GenericErr ''not found'')))"
  by (simp add: order_instruction_def execute_token_order_v2_def zd_orders validate_bytes_def wrapped_token_v2_def market_maker_fill_v2_def
      relayer_market_maker_fill_v2_def take_coin_def to_u128_def zread_def ok_or_def split: option.split)

lemma zd_batch_run:
  "\<exists>l s'. zkgm_run 3 zd_world zd_host zd_env (zd_relay []) (zd_recv batch_instruction) zd_escrowed = Inr (l, s')"
proof -
  let ?s = "zd_escrowed\<lparr>executing_packet := Some (zd_packet 0 batch_instruction)\<rparr>"
  let ?f = "(SelfBatch ''zkgm'' (fill_messages ''relayer'' ''minter'' ''u'' 200 ''a'' []), ReplyAlways MM_RELAYER_FILL_REPLY_ID)"
  have "execute_packet zd_host zd_env \<lparr>sender = ''zkgm'', funds = []\<rparr> ''relayer'' (zd_packet 0 batch_instruction) ''relayer'' [] False ?s =
      Inr (z_respond [] [?f, ?f], ?s\<lparr>executing_packet_is_batch := Some 2, market_maker := Some [], created_proxy_account := None\<rparr>)"
    by (simp del: execute_internal.simps
        add: execute_internal.simps(2) [of "Suc 0"] zd_maker_fill execute_packet_def coins_try_from_def zd_packet_data zd_depth batch_instruction_def
        only_version_0_def is_allowed_batch_instruction_def zd_escrowed_def z_append_def)
  then show ?thesis
    by (simp add: zd_run_simps zd_escrowed_def fill_messages_def maker_reply_def maker_ack_def zread_def ok_or_def)
qed

theorem two_fills_cancel_batch_witness:
  "\<exists>l s' h. zkgm_run 3 zd_world zd_host zd_env (zd_relay []) (zd_recv batch_instruction) zd_escrowed = Inr (l, s') \<and>
     filter writes_ack l = [ToHost h (WriteAcknowledgement (zd_packet 0 batch_instruction) (enc_ack zd_host \<lparr>ack_tag = TAG_ACK_FAILURE, ack_inner = []\<rparr>))]"
proof -
  obtain l s' where r: "zkgm_run 3 zd_world zd_host zd_env (zd_relay []) (zd_recv batch_instruction) zd_escrowed = Inr (l, s')"
    using zd_batch_run by blast
  have d: "dec_packet zd_host (packet_data (zd_packet 0 batch_instruction)) = Some \<lparr>zp_salt = 0, zp_path = 0, zp_instruction = batch_instruction\<rparr>"
      "i_opcode (zp_instruction \<lparr>zp_salt = 0, zp_path = 0, zp_instruction = batch_instruction\<rparr>) = OP_BATCH"
    by (simp_all add: zd_packet_data batch_instruction_def)
  have "\<exists>order. dec_order_v2 zd_host (i_operand (order_instruction 3)) = Some order \<and> maker_only order"
    using zd_maker_only by (simp add: order_instruction_def)
  then show ?thesis
    using two_fills_cancel_batch [OF r zd_world_laws(1) zd_wide d zd_host_simps(6)] r by simp
qed

section \<open>The minter\<close>

definition take_from :: "string \<Rightarrow> addr \<Rightarrow> nat \<Rightarrow> ledger \<Rightarrow> ledger option" where
  "take_from d a n L = (if n \<le> L d a then Some (L(d := (L d)(a := L d a - n))) else None)"

definition give_to :: "string \<Rightarrow> addr \<Rightarrow> nat \<Rightarrow> ledger \<Rightarrow> ledger" where
  "give_to d a n L = L(d := (L d)(a := L d a + n))"

text \<open>Tokens that do what CW20 says, and a bank that sends one coin at a time.\<close>

fun zd_tok :: "addr \<Rightarrow> token_msg \<Rightarrow> ledger \<Rightarrow> ledger option" where
  "zd_tok M (Cw20Mint d to n) L = Some (give_to d to n L)"
| "zd_tok M (Cw20Burn d n) L = take_from d M n L"
| "zd_tok M (Cw20BurnFrom d owner n) L = take_from d owner n L"
| "zd_tok M (Cw20TransferFrom d owner to n) L = map_option (give_to d to n) (take_from d owner n L)"
| "zd_tok M (Cw20Transfer d to n) L = map_option (give_to d to n) (take_from d M n L)"
| "zd_tok M (BankSend to cs) L =
     (case cs of [(d, n)] \<Rightarrow> map_option (give_to d to n) (take_from d M n L) | _ \<Rightarrow> None)"
| "zd_tok M _ L = Some L"

lemma zd_tok_fair: "fair_tokens M (zd_tok M)"
  unfolding fair_tokens_def
proof (intro allI impI)
  fix m L L' d
  assume "zd_tok M m L = Some L'"
  then show "int (L d M) + holding_change M d m \<le> int (L' d M)"
    by (cases "(M, m, L)" rule: zd_tok.cases)
       (auto simp: take_from_def give_to_def coin_total_def split: if_split_asm list.split_asm)
qed

definition zd_minter :: minter_state where
  "zd_minter = \<lparr>m_config = Some \<lparr>mc_admin = ''zkgm'', mc_dummy_code_id = 1, mc_cw20_impl_code_id = 2\<rparr>, m_cw20_admin = Some ''admin'',
     m_native = Map.empty\<rparr>"

definition zd_minter_host :: minter_host where
  "zd_minter_host = zkgm_host.extend zd_host (minter_host.fields (\<lambda>_. Inr (''admin'', 2)) (\<lambda>_. None) (\<lambda>_ _. []) (\<lambda>_ _ _. []) (\<lambda>_ _ _ _. [])
     (\<lambda>_. Inr (''n'', ''s'', 6)) (\<lambda>_. Inr (''n'', ''s'', [6])))"

definition zd_ledger :: ledger where
  "zd_ledger = (\<lambda>d a. if d = ''u'' \<and> a = ''a'' then 500 else 0)"


end
